theory Spec2Isabelle
  imports Main
begin

section \<open>JavaScript primitives used by the visualizer\<close>

text \<open>
  A JavaScript number is an IEEE 754 double. The sizes and indices that the analyzer sends are
  non-negative integers: they are modelled as \<open>nat\<close>, a size being a \<open>nat\<close> that is a double
  (every \<open>nat\<close> up to \<open>2^53\<close> is one). The running address of the two builders is a sum of
  sizes that the code accumulates by \<^verbatim>\<open>address += size\<close>: its model, \<open>jsnumber\<close>, keeps the
  rounding of the addition and its overflow to \<^verbatim>\<open>Infinity\<close>. Screen coordinates are modelled as
  \<open>int\<close>, with exact arithmetic: no property below reads a coordinate beyond \<open>2^53\<close>.
\<close>

datatype jsnumber = Finite nat | PosInfinity

text \<open>The number of binary digits of \<open>n\<close> beyond the 53 that the significand of a double
  holds.\<close>

fun excessBits :: "nat \<Rightarrow> nat" where
  "excessBits n = (if n < 9007199254740992 then 0 else Suc (excessBits (n div 2)))"

declare excessBits.simps [simp del]

text \<open>The double nearest to a non-negative integer (round to nearest, ties to the even
  significand). An integer below \<open>2^53 = 9007199254740992\<close> is kept; a result of \<open>2^1024\<close> or
  more is \<^verbatim>\<open>Infinity\<close>.\<close>

definition toDouble :: "nat \<Rightarrow> jsnumber" where
  "toDouble n =
     (if n < 9007199254740992 then Finite n
      else let e = excessBits n; q = n div 2 ^ e; r = n mod 2 ^ e;
               m = (if 2 * r < 2 ^ e \<or> (2 * r = 2 ^ e \<and> even q) then q else q + 1)
           in if 2 ^ 1024 \<le> m * 2 ^ e then PosInfinity else Finite (m * 2 ^ e))"

text \<open>\<^verbatim>\<open>x + n\<close> on numbers: the double nearest to the exact sum.\<close>

definition jsAdd :: "jsnumber \<Rightarrow> nat \<Rightarrow> jsnumber" where
  "jsAdd x n = (case x of Finite a \<Rightarrow> toDouble (a + n) | PosInfinity \<Rightarrow> PosInfinity)"

definition digitChar :: "nat \<Rightarrow> char" where
  "digitChar d = ''0123456789abcdefghijklmnopqrstuvwxyz'' ! d"

text \<open>\<^verbatim>\<open>Number.prototype.toString(16)\<close> on a non-negative integer: lowercase digits,
  most significant first, no leading zeros: the digits of the value itself. Above \<open>2^53\<close>
  ECMAScript leaves the precise digits to the implementation; the general properties below
  read digits up to \<open>2^53\<close> only, and the one example above it is sixteen times a number below
  \<open>2^53\<close>, written as the digits of that number and a zero.\<close>

fun toString16 :: "nat \<Rightarrow> string" where
  "toString16 n = (if n < 16 then [digitChar n]
                   else toString16 (n div 16) @ [digitChar (n mod 16)])"

text \<open>\<^verbatim>\<open>Number.prototype.toString()\<close> on a non-negative integer.\<close>

fun toString10 :: "nat \<Rightarrow> string" where
  "toString10 n = (if n < 10 then [digitChar n]
                   else toString10 (n div 10) @ [digitChar (n mod 10)])"

declare toString16.simps [simp del]
declare toString10.simps [simp del]

definition upperChar :: "char \<Rightarrow> char" where
  "upperChar ch =
     (case map_of (zip ''abcdefghijklmnopqrstuvwxyz'' ''ABCDEFGHIJKLMNOPQRSTUVWXYZ'') ch of
        None \<Rightarrow> ch
      | Some u \<Rightarrow> u)"

text \<open>\<^verbatim>\<open>String.prototype.toUpperCase\<close>, on the ASCII letters.\<close>

definition toUpperCase :: "string \<Rightarrow> string" where
  "toUpperCase s = map upperChar s"

fun startsWith :: "string \<Rightarrow> string \<Rightarrow> bool" where
  "startsWith s [] = True"
| "startsWith [] (p # ps) = False"
| "startsWith (ch # s) (p # ps) = (ch = p \<and> startsWith s ps)"

text \<open>\<^verbatim>\<open>String.prototype.includes\<close>: the argument occurs as a substring.\<close>

fun includes_str :: "string \<Rightarrow> string \<Rightarrow> bool" where
  "includes_str [] sub = (sub = [])"
| "includes_str (ch # s) sub = (startsWith (ch # s) sub \<or> includes_str s sub)"

text \<open>A JavaScript string is a sequence of UTF-16 code units. The ids, labels and values
  of the nodes are ASCII texts, modelled as \<open>string\<close>; the source text of the editor is
  arbitrary, and is modelled as the list of its code units.\<close>

type_synonym codeUnits = "nat list"

text \<open>The code units that \<^verbatim>\<open>String.prototype.trim\<close> strips: the \<open>WhiteSpace\<close> and
  \<open>LineTerminator\<close> code points of ECMAScript (tab, line feed, vertical tab, form feed,
  carriage return, space, no-break space, the space separators U+1680, U+2000 to U+200A,
  U+202F, U+205F and U+3000, the line and paragraph separators U+2028 and U+2029, and the
  byte order mark U+FEFF). All of them are single code units.\<close>

definition isWhiteSpace :: "nat \<Rightarrow> bool" where
  "isWhiteSpace u =
     (u \<in> set [0x0009, 0x000A, 0x000B, 0x000C, 0x000D, 0x0020, 0x00A0, 0x1680,
               0x2000, 0x2001, 0x2002, 0x2003, 0x2004, 0x2005, 0x2006, 0x2007, 0x2008, 0x2009,
               0x200A, 0x2028, 0x2029, 0x202F, 0x205F, 0x3000, 0xFEFF])"

text \<open>\<^verbatim>\<open>String.prototype.trim\<close>\<close>

definition trim :: "codeUnits \<Rightarrow> codeUnits" where
  "trim s = rev (dropWhile isWhiteSpace (rev (dropWhile isWhiteSpace s)))"

text \<open>The template \<^verbatim>\<open>`0x${address.toString(16).toUpperCase()}`\<close>, first on a finite
  address, then on any value of the running address: \<^verbatim>\<open>Infinity.toString(16)\<close> is
  \<^verbatim>\<open>Infinity\<close>.\<close>

definition formatAddress :: "nat \<Rightarrow> string" where
  "formatAddress a = ''0x'' @ toUpperCase (toString16 a)"

definition formatNumber :: "jsnumber \<Rightarrow> string" where
  "formatNumber x =
     (case x of Finite a \<Rightarrow> formatAddress a | PosInfinity \<Rightarrow> ''0x'' @ toUpperCase ''Infinity'')"

definition isUpperHexDigit :: "char \<Rightarrow> bool" where
  "isUpperHexDigit ch = (ch \<in> set ''0123456789ABCDEF'')"


section \<open>Data model (types/visualizer.ts and the analyzer's JSON)\<close>

datatype Position = Left | Right

text \<open>\<^verbatim>\<open>NodeData.data.size\<close> holds the number for a stack node and the decimal string for
  a heap node.\<close>

datatype jsval = JNum nat | JStr string

record ExtraInfo =
  address :: string
  pointingToAddress :: "string option"
  pointingToLabel :: "string option"
  metadata :: "string option"
  isFree :: "bool option"

record NodeInner =
  nodeType :: string
  label :: string
  dvalue :: string
  dsize :: jsval
  dtype :: string
  extraInfo :: ExtraInfo

record NodeData =
  nid :: string
  ntype :: string
  position_x :: int
  position_y :: int
  sourcePosition :: "Position option"
  targetPosition :: "Position option"
  data :: NodeInner
  width :: int
  height :: int
  nsize :: nat

text \<open>\<^verbatim>\<open>EdgeData\<close>; \<open>markerEnd\<close> and \<open>style\<close> are flattened into prefixed fields.\<close>

record EdgeData =
  eid :: string
  etype :: string
  source :: string
  target :: string
  markerEnd_width :: nat
  markerEnd_height :: nat
  markerEnd_color :: string
  style_strokeWidth :: nat
  style_stroke :: string

text \<open>A stack symbol is an object with a \<open>Variable\<close> or a \<open>Pointer\<close> property; an object
  with neither is \<open>Malformed\<close>. (An entry of the array that is not an object, such as null, is
  not modelled: \<^verbatim>\<open>symbol.hasOwnProperty\<close> throws on it.) A pointer's \<open>value\<close> is the symbol it
  points to, or null.\<close>

datatype symbol =
    Variable string nat "string option" string
  | Pointer string nat "symbol option"
  | Malformed

datatype BlockState = Allocated | Free | Unallocated | Leaked

record HeapBlock =
  block_size :: nat
  block_state :: BlockState
  block_metadata :: "string option"
  current_pointer_identifier :: "string option"
  dangling_pointer_identifiers :: "string list option"

text \<open>The analysis result. \<open>ref\<close> is the identity of the JavaScript object (what \<^verbatim>\<open>!==\<close>
  and the dependency arrays of the effects compare); a missing field is \<open>None\<close>.\<close>

record AnalyzeResponse =
  ref :: nat
  stack :: "symbol list option"
  heap :: "HeapBlock list option"

text \<open>The constants of \<^verbatim>\<open>constants.ts\<close>, a file that is not part of the sources at hand:
  they are parameters of the model.\<close>

record constants =
  BASE_NODE_HEIGHT :: int
  NODE_WIDTH :: int
  HEIGHT_OFFSET :: int

text \<open>\<^verbatim>\<open>generateRandomColor(theme)\<close> draws from a random source. The model takes the source
  as a parameter: the colour of the \<open>k\<close>-th draw under a theme.\<close>

type_synonym colorSource = "string \<Rightarrow> nat \<Rightarrow> string"


section \<open>utils.ts\<close>

definition getHeightFromSize :: "constants \<Rightarrow> nat \<Rightarrow> int" where
  "getHeightFromSize c sz = int sz * BASE_NODE_HEIGHT c"

definition createEdge :: "string \<Rightarrow> string \<Rightarrow> string \<Rightarrow> string \<Rightarrow> string \<Rightarrow> EdgeData" where
  "createEdge i t src tgt color =
     \<lparr> eid = i, etype = t, source = src, target = tgt,
       markerEnd_width = 20, markerEnd_height = 10, markerEnd_color = color,
       style_strokeWidth = 4, style_stroke = color \<rparr>"

definition calculateNodePosition :: "constants \<Rightarrow> NodeData option \<Rightarrow> nat \<Rightarrow> int \<Rightarrow> int \<Rightarrow> int" where
  "calculateNodePosition c previousNode nodeSize windowHeight heightOffset =
     (case previousNode of
        None \<Rightarrow> windowHeight - getHeightFromSize c nodeSize - heightOffset
      | Some p \<Rightarrow> position_y p - getHeightFromSize c nodeSize)"

definition generateNodeId :: "nat \<Rightarrow> bool \<Rightarrow> bool \<Rightarrow> string" where
  "generateNodeId idx isUnallocated isFreeBlock =
     (if isUnallocated then ''unallocated-'' @ toString10 idx
      else if isFreeBlock then ''free-'' @ toString10 idx else toString10 idx)"

definition calculateMemoryUsage :: "NodeData list \<Rightarrow> jsnumber" where
  "calculateMemoryUsage nodes =
     foldl (\<lambda>acc node.
              if includes_str (nid node) ''free'' \<or> includes_str (nid node) ''unallocated'' then acc
              else jsAdd acc (nsize node)) (Finite 0) nodes"


section \<open>useStackNodes\<close>

text \<open>\<^verbatim>\<open>xs[xs.length - 1] || null\<close>\<close>

definition lastOrNull :: "'a list \<Rightarrow> 'a option" where
  "lastOrNull xs = (if xs = [] then None else Some (last xs))"

text \<open>\<^verbatim>\<open>v ? v : d\<close> on a string or null: null and the empty string are falsy.\<close>

definition orDefault :: "string option \<Rightarrow> string \<Rightarrow> string" where
  "orDefault v d = (case v of None \<Rightarrow> d | Some s \<Rightarrow> if s = [] then d else s)"

definition variableNode ::
  "constants \<Rightarrow> int \<Rightarrow> int \<Rightarrow> NodeData list \<Rightarrow> jsnumber \<Rightarrow> string \<Rightarrow> nat \<Rightarrow> string option \<Rightarrow> string \<Rightarrow> NodeData" where
  "variableNode c windowHeight stackXCoordinate stackNodesInner addr name sz val vtype =
     \<lparr> nid = name, ntype = ''memoryBlockNode'',
       position_x = stackXCoordinate,
       position_y = calculateNodePosition c (lastOrNull stackNodesInner) sz windowHeight (HEIGHT_OFFSET c),
       sourcePosition = None, targetPosition = None,
       data = \<lparr> nodeType = ''stack'', label = name, dvalue = orDefault val ''Uninitialized'',
                dsize = JNum sz, dtype = vtype,
                extraInfo = \<lparr> address = formatNumber addr, pointingToAddress = None,
                              pointingToLabel = None, metadata = None, isFree = None \<rparr> \<rparr>,
       width = NODE_WIDTH c, height = getHeightFromSize c sz, nsize = sz \<rparr>"

text \<open>\<^verbatim>\<open>symbol.Pointer.value?.Variable?.name\<close>\<close>

definition pointeeName :: "symbol option \<Rightarrow> string option" where
  "pointeeName v = (case v of Some (Variable name _ _ _) \<Rightarrow> Some name | _ \<Rightarrow> None)"

definition pointerNode ::
  "constants \<Rightarrow> int \<Rightarrow> int \<Rightarrow> NodeData list \<Rightarrow> jsnumber \<Rightarrow> string \<Rightarrow> nat \<Rightarrow> symbol option \<Rightarrow> NodeData" where
  "pointerNode c windowHeight stackXCoordinate stackNodesInner addr name pointer_size val =
     \<lparr> nid = name, ntype = ''memoryBlockNode'',
       position_x = stackXCoordinate,
       position_y = calculateNodePosition c (lastOrNull stackNodesInner) pointer_size windowHeight (HEIGHT_OFFSET c),
       sourcePosition = Some Right, targetPosition = None,
       data = \<lparr> nodeType = ''stack'', label = ''*'' @ name, dvalue = '''',
                dsize = JNum pointer_size, dtype = ''Pointer'',
                extraInfo = \<lparr> address = formatNumber addr, pointingToAddress = None,
                              pointingToLabel = pointeeName val, metadata = None, isFree = None \<rparr> \<rparr>,
       width = NODE_WIDTH c, height = getHeightFromSize c pointer_size, nsize = pointer_size \<rparr>"

text \<open>The loop over \<^verbatim>\<open>analyzeResponse.stack\<close>, with its two accumulators
  \<^verbatim>\<open>stackNodesInner\<close> and \<^verbatim>\<open>address\<close>; \<^verbatim>\<open>address += size\<close> is the addition of numbers.\<close>

fun stackLoop :: "constants \<Rightarrow> int \<Rightarrow> int \<Rightarrow> symbol list \<Rightarrow> NodeData list \<Rightarrow> jsnumber \<Rightarrow> NodeData list" where
  "stackLoop c wh sx [] stackNodesInner addr = stackNodesInner"
| "stackLoop c wh sx (Variable name sz val vtype # syms) stackNodesInner addr =
     stackLoop c wh sx syms
       (stackNodesInner @ [variableNode c wh sx stackNodesInner addr name sz val vtype]) (jsAdd addr sz)"
| "stackLoop c wh sx (Pointer name pointer_size val # syms) stackNodesInner addr =
     stackLoop c wh sx syms
       (stackNodesInner @ [pointerNode c wh sx stackNodesInner addr name pointer_size val]) (jsAdd addr pointer_size)"
| "stackLoop c wh sx (Malformed # syms) stackNodesInner addr =
     stackLoop c wh sx syms stackNodesInner addr"

definition stackBase :: nat where
  "stackBase = 0xbfffffff"

text \<open>Assignments to fields of a node object, mutated in place by the source.\<close>

definition set_pointingToAddress :: "string \<Rightarrow> NodeData \<Rightarrow> NodeData" where
  "set_pointingToAddress a n =
     n\<lparr>data := (data n)\<lparr>extraInfo := (extraInfo (data n))\<lparr>pointingToAddress := Some a\<rparr>\<rparr>\<rparr>"

definition set_metadata :: "string \<Rightarrow> NodeData \<Rightarrow> NodeData" where
  "set_metadata m n =
     n\<lparr>data := (data n)\<lparr>extraInfo := (extraInfo (data n))\<lparr>metadata := Some m\<rparr>\<rparr>\<rparr>"

definition set_dvalue :: "string \<Rightarrow> NodeData \<Rightarrow> NodeData" where
  "set_dvalue v n = n\<lparr>data := (data n)\<lparr>dvalue := v\<rparr>\<rparr>"

text \<open>The state of the two nested \<^verbatim>\<open>forEach\<close> loops that create the connections for
  pointers: the node array (whose objects are mutated), the edges pushed so far and the
  number of colours drawn.\<close>

record resolveState =
  rs_nodes :: "NodeData list"
  rs_connections :: "EdgeData list"
  rs_draws :: nat

text \<open>One iteration of the inner \<^verbatim>\<open>forEach\<close>: \<open>i\<close> is the index of \<^verbatim>\<open>node\<close>, \<open>j\<close> the index
  of \<^verbatim>\<open>innerNode\<close>.\<close>

definition resolveInner :: "colorSource \<Rightarrow> string \<Rightarrow> nat \<Rightarrow> resolveState \<Rightarrow> nat \<Rightarrow> resolveState" where
  "resolveInner gen theme i st j =
     (let node = rs_nodes st ! i; innerNode = rs_nodes st ! j in
      if Some (nid innerNode) = pointingToLabel (extraInfo (data node)) then
        let node' = set_dvalue (''&'' @ the (pointingToLabel (extraInfo (data node))))
                      (set_pointingToAddress (address (extraInfo (data innerNode))) node);
            nodes1 = (rs_nodes st)[i := node'];
            nodes2 = nodes1[j := (nodes1 ! j)\<lparr>sourcePosition := Some Right, targetPosition := Some Right\<rparr>];
            stroke = gen theme (rs_draws st)
        in \<lparr> rs_nodes = nodes2,
             rs_connections = rs_connections st @
               [createEdge (''e'' @ nid node @ ''-'' @ nid innerNode) ''step'' (nid node) (nid innerNode) stroke],
             rs_draws = rs_draws st + 1 \<rparr>
      else st)"

text \<open>One iteration of the outer \<^verbatim>\<open>forEach\<close>.\<close>

definition resolveOuter :: "colorSource \<Rightarrow> string \<Rightarrow> resolveState \<Rightarrow> nat \<Rightarrow> resolveState" where
  "resolveOuter gen theme st i =
     (if dtype (data (rs_nodes st ! i)) = ''Pointer''
      then foldl (resolveInner gen theme i) st [0..<length (rs_nodes st)]
      else st)"

definition resolvePointers :: "colorSource \<Rightarrow> string \<Rightarrow> NodeData list \<Rightarrow> nat \<Rightarrow> resolveState" where
  "resolvePointers gen theme stackNodesInner draws =
     foldl (resolveOuter gen theme)
       \<lparr> rs_nodes = stackNodesInner, rs_connections = [], rs_draws = draws \<rparr>
       [0..<length stackNodesInner]"

text \<open>The body of the effect of \<^verbatim>\<open>useStackNodes\<close>, after its guard: the arguments of
  \<^verbatim>\<open>setStackNodes\<close> and \<^verbatim>\<open>setStackConnections\<close>, and the number of colours drawn.\<close>

definition buildStack ::
  "constants \<Rightarrow> colorSource \<Rightarrow> string \<Rightarrow> int \<Rightarrow> int \<Rightarrow> symbol list \<Rightarrow> nat \<Rightarrow> resolveState" where
  "buildStack c gen theme windowHeight stackXCoordinate syms draws =
     resolvePointers gen theme (stackLoop c windowHeight stackXCoordinate syms [] (Finite stackBase)) draws"

text \<open>The effect of \<^verbatim>\<open>useStackNodes\<close>: \<open>None\<close> is the early return, on which no setter is
  called.\<close>

definition useStackNodes ::
  "constants \<Rightarrow> colorSource \<Rightarrow> string \<Rightarrow> AnalyzeResponse option \<Rightarrow> int \<Rightarrow> int \<Rightarrow> nat
     \<Rightarrow> resolveState option" where
  "useStackNodes c gen theme analyzeResponse windowHeight stackXCoordinate draws =
     (case analyzeResponse of
        None \<Rightarrow> None
      | Some r \<Rightarrow>
          (case stack r of
             None \<Rightarrow> None
           | Some syms \<Rightarrow> Some (buildStack c gen theme windowHeight stackXCoordinate syms draws)))"


section \<open>useHeapNodes\<close>

definition heapBase :: nat where
  "heapBase = 0x00400000"

text \<open>The state of the loop over the stack nodes for one heap block: the stack nodes (mutated
  in place), the edges pushed so far, the heap node under construction and the number of
  colours drawn.\<close>

record connectState =
  cs_stackNodes :: "NodeData list"
  cs_connections :: "EdgeData list"
  cs_heapNode :: NodeData
  cs_draws :: nat

definition isCurrentPointer :: "HeapBlock \<Rightarrow> NodeData \<Rightarrow> bool" where
  "isCurrentPointer block stackNode = (current_pointer_identifier block = Some (nid stackNode))"

text \<open>\<^verbatim>\<open>block.dangling_pointer_identifiers?.includes(stackNode.id)\<close>\<close>

definition isDanglingPointer :: "HeapBlock \<Rightarrow> NodeData \<Rightarrow> bool" where
  "isDanglingPointer block stackNode =
     (case dangling_pointer_identifiers block of
        None \<Rightarrow> False
      | Some ids \<Rightarrow> nid stackNode \<in> set ids)"

text \<open>The scan of \<^verbatim>\<open>connectionsInner\<close> that preserves the stroke of an edge already queued for
  the same source and target: the last match wins.\<close>

definition preserveStroke :: "EdgeData list \<Rightarrow> string \<Rightarrow> string \<Rightarrow> string \<Rightarrow> string" where
  "preserveStroke connectionsInner src tgt stroke =
     foldl (\<lambda>s connection.
              if source connection = src \<and> target connection = tgt
              then style_stroke connection else s) stroke connectionsInner"

text \<open>One iteration of \<^verbatim>\<open>stackNodes.forEach\<close> for a block: \<open>j\<close> is the index of
  \<^verbatim>\<open>stackNode\<close>.\<close>

definition connectStep ::
  "colorSource \<Rightarrow> string \<Rightarrow> HeapBlock \<Rightarrow> string \<Rightarrow> connectState \<Rightarrow> nat \<Rightarrow> connectState" where
  "connectStep gen theme block heapNodeID st j =
     (let stackNode = cs_stackNodes st ! j;
          stroke0 = gen theme (cs_draws st);
          isCurrent = isCurrentPointer block stackNode;
          isDangling = isDanglingPointer block stackNode
      in if isCurrent \<or> isDangling then
           let stackNode1 = set_pointingToAddress (address (extraInfo (data (cs_heapNode st)))) stackNode;
               heapNode1 = (cs_heapNode st)\<lparr>targetPosition := Some Left\<rparr>;
               stroke1 = (if isCurrent
                          then preserveStroke (cs_connections st) (nid stackNode) heapNodeID stroke0
                          else stroke0);
               stackNode2 = (if isDangling then set_metadata ''Dangling Pointer'' stackNode1 else stackNode1);
               stroke2 = (if isDangling then ''red'' else stroke1)
           in \<lparr> cs_stackNodes = (cs_stackNodes st)[j := stackNode2],
                cs_connections = cs_connections st @
                  [createEdge (''e'' @ nid stackNode @ ''-'' @ heapNodeID) ''straight''
                     (nid stackNode) heapNodeID stroke2],
                cs_heapNode = heapNode1,
                cs_draws = cs_draws st + 1 \<rparr>
         else st\<lparr>cs_draws := cs_draws st + 1\<rparr>)"

text \<open>The state of the loop over \<^verbatim>\<open>analyzeResponse.heap\<close>.\<close>

record heapState =
  hs_heapNodes :: "NodeData list"
  hs_connections :: "EdgeData list"
  hs_index :: nat
  hs_address :: jsnumber
  hs_stackNodes :: "NodeData list"
  hs_draws :: nat

definition heapNodeOf :: "constants \<Rightarrow> int \<Rightarrow> int \<Rightarrow> heapState \<Rightarrow> HeapBlock \<Rightarrow> NodeData" where
  "heapNodeOf c windowHeight heapXCoordinate st block =
     \<lparr> nid = generateNodeId (hs_index st) (block_state block = Unallocated) (block_state block = Free),
       ntype = ''memoryBlockNode'',
       position_x = heapXCoordinate,
       position_y = calculateNodePosition c (lastOrNull (hs_heapNodes st)) (block_size block)
                      windowHeight (HEIGHT_OFFSET c),
       sourcePosition = None, targetPosition = None,
       data = \<lparr> nodeType = ''heap'', label = orDefault (block_metadata block) ''null'', dvalue = [],
                dsize = JStr (toString10 (block_size block)),
                dtype = (if block_state block = Leaked then ''LB'' else []),
                extraInfo = \<lparr> address = formatNumber (hs_address st), pointingToAddress = None,
                              pointingToLabel = None, metadata = None,
                              isFree = Some (block_state block = Free) \<rparr> \<rparr>,
       width = NODE_WIDTH c, height = getHeightFromSize c (block_size block),
       nsize = block_size block \<rparr>"

text \<open>One iteration of the loop over the heap blocks.\<close>

definition heapStep ::
  "constants \<Rightarrow> colorSource \<Rightarrow> string \<Rightarrow> int \<Rightarrow> int \<Rightarrow> heapState \<Rightarrow> HeapBlock \<Rightarrow> heapState" where
  "heapStep c gen theme windowHeight heapXCoordinate st block =
     (let heapNode = heapNodeOf c windowHeight heapXCoordinate st block;
          heapNodeID = nid heapNode;
          cs0 = \<lparr> cs_stackNodes = hs_stackNodes st, cs_connections = hs_connections st,
                  cs_heapNode = heapNode, cs_draws = hs_draws st \<rparr>;
          cs = (if \<not> includes_str heapNodeID ''unallocated''
                then foldl (connectStep gen theme block heapNodeID) cs0 [0..<length (hs_stackNodes st)]
                else cs0)
      in \<lparr> hs_heapNodes = hs_heapNodes st @ [cs_heapNode cs],
           hs_connections = cs_connections cs,
           hs_index = hs_index st + 1,
           hs_address = jsAdd (hs_address st) (block_size block),
           hs_stackNodes = cs_stackNodes cs,
           hs_draws = cs_draws cs \<rparr>)"

text \<open>The body of the effect of \<^verbatim>\<open>useHeapNodes\<close>, after its guard. \<open>hs_heapNodes\<close> and
  \<open>hs_connections\<close> of the result are the arguments of \<^verbatim>\<open>setHeapNodes\<close> and
  \<^verbatim>\<open>setHeapConnections\<close>; \<open>hs_stackNodes\<close> is the \<^verbatim>\<open>stackNodes\<close> array after the in-place
  mutation of its objects.\<close>

definition buildHeap ::
  "constants \<Rightarrow> colorSource \<Rightarrow> string \<Rightarrow> int \<Rightarrow> int \<Rightarrow> HeapBlock list \<Rightarrow> NodeData list \<Rightarrow> nat \<Rightarrow> heapState" where
  "buildHeap c gen theme windowHeight heapXCoordinate blocks stackNodes draws =
     foldl (heapStep c gen theme windowHeight heapXCoordinate)
       \<lparr> hs_heapNodes = [], hs_connections = [], hs_index = 0, hs_address = Finite heapBase,
         hs_stackNodes = stackNodes, hs_draws = draws \<rparr>
       blocks"

datatype error = TypeError

text \<open>The effect of \<^verbatim>\<open>useHeapNodes\<close>. \<open>Inr None\<close> is the early return; \<open>Inl TypeError\<close> is the
  exception that reading \<^verbatim>\<open>.length\<close> of an undefined \<^verbatim>\<open>analyzeResponse.stack\<close> throws.\<close>

definition useHeapNodes ::
  "constants \<Rightarrow> colorSource \<Rightarrow> string \<Rightarrow> AnalyzeResponse option \<Rightarrow> NodeData list \<Rightarrow> int \<Rightarrow> int \<Rightarrow> nat
     \<Rightarrow> error + heapState option" where
  "useHeapNodes c gen theme analyzeResponse stackNodes windowHeight heapXCoordinate draws =
     (case analyzeResponse of
        None \<Rightarrow> Inr None
      | Some r \<Rightarrow>
          (case heap r of
             None \<Rightarrow> Inr None
           | Some blocks \<Rightarrow>
               (case stack r of
                  None \<Rightarrow> Inl TypeError
                | Some syms \<Rightarrow>
                    if length syms = 0 then Inr None
                    else Inr (Some (buildHeap c gen theme windowHeight heapXCoordinate blocks stackNodes draws)))))"


section \<open>The Visualizer component (visualizer.tsx, useMemoryState.ts)\<close>

text \<open>
  What the component receives on a render: its props, and the values of the hooks that are
  outside this development (\<^verbatim>\<open>useWindowSize\<close>, \<^verbatim>\<open>usePositionState\<close>, \<^verbatim>\<open>useTheme\<close>).
  \<open>analyzeResponse\<close> and \<open>analyzeError\<close> are \<open>None\<close> when null or undefined.
\<close>

record inputs =
  analyzeResponse :: "AnalyzeResponse option"
  isAnalyzing :: bool
  sourceCode :: codeUnits
  analyzeError :: "string option"
  windowSize_height :: int
  stackX :: int
  heapX :: int
  currentTheme :: string

text \<open>
  The state of \<^verbatim>\<open>useMemoryState\<close>, with the bookkeeping that React keeps for the component:
  \<^item> \<open>stackNodesRef\<close>: the identity of the array held in \<open>stackNodes\<close> (every call of
    \<^verbatim>\<open>setStackNodes\<close> stores a new array);
  \<^item> \<open>stackDeps\<close>, \<open>heapDeps\<close>: the dependency arrays of the effects of \<^verbatim>\<open>useStackNodes\<close> and
    \<^verbatim>\<open>useHeapNodes\<close> at the previous render (\<open>None\<close> before the first one); the setters are
    stable callbacks and are left out;
  \<^item> \<open>draws\<close>: the number of colours drawn so far;
  \<^item> \<open>rerender\<close>: whether the effects of the last render stored a new value in the state.

  The rules of React that the model follows:
  \<^item> a render computes the derived values from the props and from the state of that render;
  \<^item> after the render the effects run in the order of their declaration, each one when an
    entry of its dependency array differs by identity from the one of the previous render; the
    two effects of the component itself depend on the object that \<^verbatim>\<open>useMemoryState\<close> returns,
    which is new on every render, so they always run;
  \<^item> the updates that the effects queue are applied in order once all of them have run, and
    the closure of an effect sees the state of its render;
  \<^item> the component renders again when an update has stored a new value;
  \<^item> an exception thrown by an effect ends the recomputation with that exception.
\<close>

record vstate =
  stackNodes :: "NodeData list"
  heapNodes :: "NodeData list"
  stackConnections :: "EdgeData list"
  heapConnections :: "EdgeData list"
  lastValidAnalyzeResponse :: "AnalyzeResponse option"
  stackNodesRef :: nat
  stackDeps :: "(nat option \<times> int \<times> string \<times> int) option"
  heapDeps :: "(nat option \<times> nat \<times> int \<times> string \<times> int) option"
  draws :: nat
  rerender :: bool

definition initialState :: vstate where
  "initialState =
     \<lparr> stackNodes = [], heapNodes = [], stackConnections = [], heapConnections = [],
       lastValidAnalyzeResponse = None, stackNodesRef = 0, stackDeps = None, heapDeps = None,
       draws = 0, rerender = False \<rparr>"

text \<open>\<^verbatim>\<open>xs?.length > 0\<close>\<close>

definition nonEmptyField :: "'a list option \<Rightarrow> bool" where
  "nonEmptyField xs = (case xs of None \<Rightarrow> False | Some l \<Rightarrow> length l > 0)"

definition hasValidAnalyzeResponse :: "inputs \<Rightarrow> bool" where
  "hasValidAnalyzeResponse p =
     (case analyzeResponse p of
        None \<Rightarrow> False
      | Some r \<Rightarrow> analyzeError p = None \<and> (nonEmptyField (stack r) \<or> nonEmptyField (heap r)))"

definition shouldShowWriteCodeMessage :: "inputs \<Rightarrow> vstate \<Rightarrow> bool" where
  "shouldShowWriteCodeMessage p s =
     (trim (sourceCode p) = [] \<and> lastValidAnalyzeResponse s = None)"

definition shouldShowLastValidVisualization :: "inputs \<Rightarrow> vstate \<Rightarrow> bool" where
  "shouldShowLastValidVisualization p s =
     (trim (sourceCode p) \<noteq> [] \<and> \<not> hasValidAnalyzeResponse p \<and> lastValidAnalyzeResponse s \<noteq> None)"

definition currentAnalyzeResponse :: "inputs \<Rightarrow> vstate \<Rightarrow> AnalyzeResponse option" where
  "currentAnalyzeResponse p s =
     (if shouldShowLastValidVisualization p s then lastValidAnalyzeResponse s else analyzeResponse p)"

text \<open>\<^verbatim>\<open>resetMemory\<close>: four setters, each storing a new empty array.\<close>

definition resetMemory :: "vstate \<Rightarrow> vstate" where
  "resetMemory n =
     n\<lparr> stackNodes := [], heapNodes := [], stackConnections := [], heapConnections := [],
        stackNodesRef := stackNodesRef n + 1, rerender := True \<rparr>"

text \<open>The condition of the second effect of the component, which calls \<^verbatim>\<open>resetMemory\<close>.\<close>

definition needsReset :: "inputs \<Rightarrow> vstate \<Rightarrow> bool" where
  "needsReset p s =
     (hasValidAnalyzeResponse p \<and>
      map_option ref (analyzeResponse p) \<noteq> map_option ref (lastValidAnalyzeResponse s))"

text \<open>
  The effects of one render, in the order of their declaration. Each reads the state \<open>s\<close> of
  the render (its closure) and queues its updates, collected in \<open>n\<close>.

  First effect: \<^verbatim>\<open>updateLastValidAnalyzeResponse\<close>. Storing the object that is already there
  does not schedule a render.
\<close>

definition effectUpdateLastValid :: "inputs \<Rightarrow> vstate \<Rightarrow> vstate \<Rightarrow> vstate" where
  "effectUpdateLastValid p s n =
     (if hasValidAnalyzeResponse p
      then n\<lparr> lastValidAnalyzeResponse := analyzeResponse p,
              rerender := (rerender n \<or>
                 map_option ref (analyzeResponse p) \<noteq> map_option ref (lastValidAnalyzeResponse s)) \<rparr>
      else n)"

definition effectReset :: "inputs \<Rightarrow> vstate \<Rightarrow> vstate \<Rightarrow> vstate" where
  "effectReset p s n = (if needsReset p s then resetMemory n else n)"

definition stackDepsOf :: "inputs \<Rightarrow> vstate \<Rightarrow> nat option \<times> int \<times> string \<times> int" where
  "stackDepsOf p s =
     (map_option ref (currentAnalyzeResponse p s), stackX p, currentTheme p, windowSize_height p)"

definition heapDepsOf :: "inputs \<Rightarrow> vstate \<Rightarrow> nat option \<times> nat \<times> int \<times> string \<times> int" where
  "heapDepsOf p s =
     (map_option ref (currentAnalyzeResponse p s), stackNodesRef s, heapX p, currentTheme p,
      windowSize_height p)"

text \<open>The effect of \<^verbatim>\<open>useStackNodes\<close>: it runs when its dependencies differ from those of the
  previous render.\<close>

definition effectStack :: "constants \<Rightarrow> colorSource \<Rightarrow> inputs \<Rightarrow> vstate \<Rightarrow> vstate \<Rightarrow> vstate" where
  "effectStack c gen p s n =
     (let n1 = n\<lparr>stackDeps := Some (stackDepsOf p s)\<rparr> in
      if stackDeps s = Some (stackDepsOf p s) then n1
      else (case useStackNodes c gen (currentTheme p) (currentAnalyzeResponse p s)
                   (windowSize_height p) (stackX p) (draws n) of
              None \<Rightarrow> n1
            | Some r \<Rightarrow>
                n1\<lparr> stackNodes := rs_nodes r, stackConnections := rs_connections r,
                    stackNodesRef := stackNodesRef n + 1, draws := rs_draws r,
                    rerender := True \<rparr>))"

text \<open>The effect of \<^verbatim>\<open>useHeapNodes\<close>. It works on the \<^verbatim>\<open>stackNodes\<close> array of the render and
  mutates its objects: the mutation shows in the state when no effect of this pass has stored
  another array in \<^verbatim>\<open>stackNodes\<close>.\<close>

definition effectHeap :: "constants \<Rightarrow> colorSource \<Rightarrow> inputs \<Rightarrow> vstate \<Rightarrow> vstate \<Rightarrow> error + vstate" where
  "effectHeap c gen p s n =
     (let n1 = n\<lparr>heapDeps := Some (heapDepsOf p s)\<rparr> in
      if heapDeps s = Some (heapDepsOf p s) then Inr n1
      else (case useHeapNodes c gen (currentTheme p) (currentAnalyzeResponse p s) (stackNodes s)
                   (windowSize_height p) (heapX p) (draws n) of
              Inl e \<Rightarrow> Inl e
            | Inr None \<Rightarrow> Inr n1
            | Inr (Some h) \<Rightarrow>
                Inr (n1\<lparr> heapNodes := hs_heapNodes h, heapConnections := hs_connections h,
                         stackNodes := (if stackNodesRef n = stackNodesRef s
                                        then hs_stackNodes h else stackNodes n),
                         draws := hs_draws h, rerender := True \<rparr>)))"

text \<open>One render of the component followed by its effects.\<close>

definition renderPass :: "constants \<Rightarrow> colorSource \<Rightarrow> inputs \<Rightarrow> vstate \<Rightarrow> error + vstate" where
  "renderPass c gen p s =
     effectHeap c gen p s
       (effectStack c gen p s
          (effectReset p s
             (effectUpdateLastValid p s (s\<lparr>rerender := False\<rparr>))))"

text \<open>A recomputation: the component renders again for as long as the effects of the last
  render changed the state. The fuel bounds the number of renders; \<open>None\<close> is running out of
  it.\<close>

fun recompute :: "nat \<Rightarrow> constants \<Rightarrow> colorSource \<Rightarrow> inputs \<Rightarrow> vstate \<Rightarrow> (error + vstate) option" where
  "recompute 0 c gen p s = None"
| "recompute (Suc fuel) c gen p s =
     (case renderPass c gen p s of
        Inl e \<Rightarrow> Some (Inl e)
      | Inr s' \<Rightarrow> if rerender s' then recompute fuel c gen p s' else Some (Inr s'))"

text \<open>The label nodes and the graph handed to \<^verbatim>\<open>ReactFlow\<close>. The halving of \<^verbatim>\<open>NODE_WIDTH\<close> is
  the integer one.\<close>

record LabelNode =
  lid :: string
  ltype :: string
  lposition_x :: int
  lposition_y :: int
  llabel :: string
  draggable :: bool
  selectable :: bool

datatype FlowNode = MemoryBlock NodeData | Label LabelNode

definition topNode :: "NodeData list \<Rightarrow> NodeData" where
  "topNode nodes =
     foldl (\<lambda>top node. if position_y node < position_y top then node else top) (hd nodes) nodes"

definition labelNodes :: "constants \<Rightarrow> inputs \<Rightarrow> vstate \<Rightarrow> LabelNode list" where
  "labelNodes c p s =
     (if length (stackNodes s) > 0
      then [\<lparr> lid = ''stack-label'', ltype = ''labelNode'',
               lposition_x = stackX p + NODE_WIDTH c div 2 - 30,
               lposition_y = position_y (topNode (stackNodes s)) - 50,
               llabel = ''Stack'', draggable = False, selectable = False \<rparr>]
      else []) @
     (if length (heapNodes s) > 0
      then [\<lparr> lid = ''heap-label'', ltype = ''labelNode'',
               lposition_x = heapX p + NODE_WIDTH c div 2 - 30,
               lposition_y = position_y (topNode (heapNodes s)) - 50,
               llabel = ''Heap'', draggable = False, selectable = False \<rparr>]
      else [])"

definition graphNodes :: "constants \<Rightarrow> inputs \<Rightarrow> vstate \<Rightarrow> FlowNode list" where
  "graphNodes c p s =
     map MemoryBlock (stackNodes s) @ map MemoryBlock (heapNodes s) @ map Label (labelNodes c p s)"

definition graphEdges :: "vstate \<Rightarrow> EdgeData list" where
  "graphEdges s = stackConnections s @ heapConnections s"

section \<open>Notions used to state the properties\<close>

definition nodeAddress :: "NodeData \<Rightarrow> string" where
  "nodeAddress n = address (extraInfo (data n))"

text \<open>The sizes of the well-formed symbols, in traversal order.\<close>

fun symbolSizes :: "symbol list \<Rightarrow> nat list" where
  "symbolSizes [] = []"
| "symbolSizes (Variable name sz val vtype # syms) = sz # symbolSizes syms"
| "symbolSizes (Pointer name pointer_size val # syms) = pointer_size # symbolSizes syms"
| "symbolSizes (Malformed # syms) = symbolSizes syms"

text \<open>The running address after the sizes \<open>sizes\<close> have been added to the base, one by one,
  by the addition of numbers.\<close>

definition runningAddress :: "nat \<Rightarrow> nat list \<Rightarrow> jsnumber" where
  "runningAddress base sizes = foldl jsAdd (Finite base) sizes"

text \<open>A list of nodes whose addresses start at \<open>a\<close> and advance by the size of each node.\<close>

fun addrChain :: "jsnumber \<Rightarrow> NodeData list \<Rightarrow> bool" where
  "addrChain a [] = True"
| "addrChain a (n # ns) = (nodeAddress n = formatNumber a \<and> addrChain (jsAdd a (nsize n)) ns)"

text \<open>The part of a node that no loop of the builders assigns to after the node is created:
  everything but the anchors, the display value, the target address and the metadata.\<close>

definition frozenPart :: "NodeData \<Rightarrow> NodeData" where
  "frozenPart n =
     n\<lparr> sourcePosition := None, targetPosition := None,
        data := (data n)\<lparr> dvalue := [],
                  extraInfo := (extraInfo (data n))\<lparr> pointingToAddress := None, metadata := None \<rparr> \<rparr> \<rparr>"

text \<open>Reading a decimal string back, to tell the ids of heap nodes apart.\<close>

definition digitVal :: "char \<Rightarrow> nat" where
  "digitVal ch = length (takeWhile (\<lambda>d. d \<noteq> ch) ''0123456789'')"

definition fromDigits :: "string \<Rightarrow> nat" where
  "fromDigits s = foldl (\<lambda>a ch. 10 * a + digitVal ch) 0 s"

text \<open>The id that the heap builder gives to the block at index \<open>i\<close>.\<close>

definition heapNodeId :: "nat \<Rightarrow> HeapBlock \<Rightarrow> string" where
  "heapNodeId i b = generateNodeId i (block_state b = Unallocated) (block_state b = Free)"

text \<open>The two relations between a heap block and the id of a stack node.\<close>

definition isCurrentId :: "HeapBlock \<Rightarrow> string \<Rightarrow> bool" where
  "isCurrentId b x = (current_pointer_identifier b = Some x)"

definition isDanglingId :: "HeapBlock \<Rightarrow> string \<Rightarrow> bool" where
  "isDanglingId b x =
     (case dangling_pointer_identifiers b of None \<Rightarrow> False | Some ids \<Rightarrow> x \<in> set ids)"

definition relatedId :: "HeapBlock \<Rightarrow> string \<Rightarrow> bool" where
  "relatedId b x = (isCurrentId b x \<or> isDanglingId b x)"

text \<open>What is expected of the edge that the heap builder pushes for the stack node of id \<open>x\<close>
  and the heap node of id \<open>hid\<close> built from block \<open>b\<close>.\<close>

definition heapEdgeFor :: "HeapBlock \<Rightarrow> string \<Rightarrow> EdgeData \<Rightarrow> string \<Rightarrow> bool" where
  "heapEdgeFor b hid e x =
     (source e = x \<and> target e = hid \<and> eid e = ''e'' @ x @ ''-'' @ hid \<and> etype e = ''straight''
      \<and> markerEnd_color e = style_stroke e
      \<and> (isDanglingId b x \<longrightarrow> style_stroke e = ''red''))"

text \<open>The (block index, block, stack node id) triples for which the heap builder pushes an
  edge, in the order in which it pushes them.\<close>

definition heapSlots :: "HeapBlock list \<Rightarrow> string list \<Rightarrow> (nat \<times> HeapBlock \<times> string) list" where
  "heapSlots blocks ids =
     concat (map (\<lambda>(i, b). if block_state b = Unallocated then []
                            else map (\<lambda>x. (i, b, x)) (filter (relatedId b) ids))
                 (zip [0..<length blocks] blocks))"

definition slotEdge :: "EdgeData \<Rightarrow> nat \<times> HeapBlock \<times> string \<Rightarrow> bool" where
  "slotEdge e s = (case s of (i, b, x) \<Rightarrow> heapEdgeFor b (heapNodeId i b) e x)"

text \<open>What the heap builder does to a stack node while it handles block \<open>b\<close>, whose heap node has
  address \<open>a\<close>.\<close>

definition touchNode :: "HeapBlock \<Rightarrow> string \<Rightarrow> NodeData \<Rightarrow> NodeData" where
  "touchNode b a n =
     (if block_state b = Unallocated \<or> \<not> relatedId b (nid n) then n
      else if isDanglingId b (nid n)
           then set_metadata ''Dangling Pointer'' (set_pointingToAddress a n)
           else set_pointingToAddress a n)"

definition nodeMetadata :: "NodeData \<Rightarrow> string option" where
  "nodeMetadata n = metadata (extraInfo (data n))"

definition nodePointingToAddress :: "NodeData \<Rightarrow> string option" where
  "nodePointingToAddress n = pointingToAddress (extraInfo (data n))"

text \<open>The two ends of an edge, and the ends of the edge expected for a slot.\<close>

definition edgeEnds :: "EdgeData \<Rightarrow> string \<times> string" where
  "edgeEnds e = (source e, target e)"

definition slotEnds :: "nat \<times> HeapBlock \<times> string \<Rightarrow> string \<times> string" where
  "slotEnds s = (case s of (i, b, x) \<Rightarrow> (x, heapNodeId i b))"

text \<open>The fields of a stack node that the resolution of pointers reads or assigns.\<close>

definition nodeLabelTarget :: "NodeData \<Rightarrow> string option" where
  "nodeLabelTarget n = pointingToLabel (extraInfo (data n))"

definition nodeValue :: "NodeData \<Rightarrow> string" where
  "nodeValue n = dvalue (data n)"

text \<open>What is expected of the edge pushed for the pointer node of id \<open>src\<close> and the stack node of
  id \<open>x\<close>.\<close>

definition stackEdgeFor :: "EdgeData \<Rightarrow> string \<times> string \<Rightarrow> bool" where
  "stackEdgeFor e s =
     (case s of (src, x) \<Rightarrow>
        source e = src \<and> target e = x \<and> eid e = ''e'' @ src @ ''-'' @ x \<and> etype e = ''step''
        \<and> markerEnd_color e = style_stroke e)"

text \<open>The edges that a pointer node \<open>n\<close> gets, given the ids of all stack nodes in order.\<close>

definition pointerSlots :: "string list \<Rightarrow> NodeData \<Rightarrow> (string \<times> string) list" where
  "pointerSlots ids n =
     (if dtype (data n) = ''Pointer''
      then map (\<lambda>x. (nid n, x)) (filter (\<lambda>x. Some x = nodeLabelTarget n) ids)
      else [])"

definition stackSlots :: "NodeData list \<Rightarrow> (string \<times> string) list" where
  "stackSlots nodes = concat (map (pointerSlots (map nid nodes)) nodes)"

text \<open>The state of the nodes \<open>ns\<close> in which the pointer at index \<open>i\<close> is resolved to the node at
  index \<open>j\<close> of the nodes \<open>ns0\<close> as first built.\<close>

definition resolvedAt :: "NodeData list \<Rightarrow> nat \<Rightarrow> nat \<Rightarrow> NodeData list \<Rightarrow> bool" where
  "resolvedAt ns0 i j ns =
     (nodeValue (ns ! i) = ''&'' @ nid (ns0 ! j)
      \<and> nodePointingToAddress (ns ! i) = Some (nodeAddress (ns0 ! j))
      \<and> sourcePosition (ns ! j) = Some Right \<and> targetPosition (ns ! j) = Some Right)"

text \<open>A state on which a render with inputs \<open>p\<close> runs no builder and stores nothing: the
  dependencies of both builder effects are those of the previous render, and a valid result
  is the one already retained.\<close>

definition quiet :: "inputs \<Rightarrow> vstate \<Rightarrow> bool" where
  "quiet p s =
     (stackDeps s = Some (stackDepsOf p s) \<and> heapDeps s = Some (heapDepsOf p s)
      \<and> (hasValidAnalyzeResponse p \<longrightarrow> lastValidAnalyzeResponse s = analyzeResponse p))"

text \<open>Two renders in the same surroundings: the same window height, x coordinates and theme.\<close>

definition sameSurroundings :: "inputs \<Rightarrow> inputs \<Rightarrow> bool" where
  "sameSurroundings p q =
     (windowSize_height p = windowSize_height q \<and> stackX p = stackX q \<and> heapX p = heapX q
      \<and> currentTheme p = currentTheme q)"

text \<open>Modelled from the spec: a node that stands for a free block. The heap builder is
  specified to record the state in the node, \<open>extraInfo.isFree = (state == Free)\<close>; a stack
  node has no such record.\<close>

definition nodeIsFree :: "NodeData \<Rightarrow> bool" where
  "nodeIsFree n = (isFree (extraInfo (data n)) = Some True)"

text \<open>Modelled from the spec: a node that stands for an unallocated block. The only trace of
  that state on a node is the id scheme of the heap nodes, \<open>unallocated-<index>\<close>.\<close>

definition nodeIsUnallocated :: "NodeData \<Rightarrow> bool" where
  "nodeIsUnallocated n = (nodeType (data n) = ''heap'' \<and> startsWith (nid n) ''unallocated-'')"

text \<open>Modelled from the spec: the usage of a layer, the \<open>sum of non-free, non-unallocated node
  sizes\<close>, a function of the layer's node list alone.\<close>

definition layerUsage :: "NodeData list \<Rightarrow> nat" where
  "layerUsage nodes =
     sum_list (map nsize (filter (\<lambda>n. \<not> nodeIsFree n \<and> \<not> nodeIsUnallocated n) nodes))"




text \<open>The sizes of the blocks that are neither free nor unallocated, summed up.\<close>

definition occupiedSize :: "HeapBlock list \<Rightarrow> nat" where
  "occupiedSize blocks =
     sum_list (map block_size
       (filter (\<lambda>b. block_state b \<noteq> Free \<and> block_state b \<noteq> Unallocated) blocks))"

text \<open>Concrete inputs on which the theorems below are instantiated.\<close>

definition exampleConstants :: constants where
  "exampleConstants = \<lparr> BASE_NODE_HEIGHT = 20, NODE_WIDTH = 200, HEIGHT_OFFSET = 100 \<rparr>"

definition exampleColors :: colorSource where
  "exampleColors = (\<lambda>thm k. if thm = ''dark'' then ''#aaccee'' else ''#113355'')"

definition exampleStack :: "symbol list" where
  "exampleStack =
     [Variable ''x'' 4 (Some ''12'') ''Integer'',
      Pointer ''p'' 8 (Some (Variable ''x'' 4 (Some ''12'') ''Integer''))]"

definition allocatedBlock :: HeapBlock where
  "allocatedBlock =
     \<lparr> block_size = 4, block_state = Allocated, block_metadata = None,
       current_pointer_identifier = Some ''p'', dangling_pointer_identifiers = None \<rparr>"

definition freedBlock :: HeapBlock where
  "freedBlock =
     \<lparr> block_size = 4, block_state = Free, block_metadata = None,
       current_pointer_identifier = None, dangling_pointer_identifiers = Some [''p''] \<rparr>"

definition examplePointerStack :: "symbol list" where
  "examplePointerStack = [Pointer ''p'' 8 None]"

definition examplePointerNodes :: "NodeData list" where
  "examplePointerNodes =
     rs_nodes (buildStack exampleConstants exampleColors ''dark'' 800 50 examplePointerStack 0)"

text \<open>A block that names \<open>p\<close> both as its current pointer and as a dangling pointer.\<close>

definition staleBlock :: HeapBlock where
  "staleBlock =
     \<lparr> block_size = 4, block_state = Allocated, block_metadata = None,
       current_pointer_identifier = Some ''p'', dangling_pointer_identifiers = Some [''p''] \<rparr>"

text \<open>The source text \<^verbatim>\<open>int* p = new int;\<close> as code units.\<close>

definition exampleSource :: codeUnits where
  "exampleSource = [105, 110, 116, 42, 32, 112, 32, 61, 32, 110, 101, 119, 32, 105, 110, 116, 59]"

text \<open>A valid analysis result, the inputs that carry it, and the inputs of an analysis that
  failed while the source text, without its last character, was not blank.\<close>

definition exampleResponse :: AnalyzeResponse where
  "exampleResponse = \<lparr> ref = 1, stack = Some examplePointerStack, heap = Some [allocatedBlock] \<rparr>"

definition exampleValidInputs :: inputs where
  "exampleValidInputs =
     \<lparr> analyzeResponse = Some exampleResponse, isAnalyzing = False,
       sourceCode = exampleSource, analyzeError = None,
       windowSize_height = 800, stackX = 50, heapX = 400, currentTheme = ''dark'' \<rparr>"

definition exampleErrorInputs :: inputs where
  "exampleErrorInputs =
     \<lparr> analyzeResponse = Some \<lparr> ref = 2, stack = Some [], heap = Some [] \<rparr>, isAnalyzing = False,
       sourceCode = [105, 110, 116, 42, 32, 112, 32, 61, 32, 110, 101, 119, 32, 105, 110, 116],
       analyzeError = Some ''expected ;'',
       windowSize_height = 800, stackX = 50, heapX = 400, currentTheme = ''dark'' \<rparr>"

text \<open>The inputs after the editor has been emptied: a blank source text and an empty result.\<close>

definition exampleEmptyInputs :: inputs where
  "exampleEmptyInputs =
     \<lparr> analyzeResponse = Some \<lparr> ref = 3, stack = Some [], heap = Some [] \<rparr>, isAnalyzing = False,
       sourceCode = [], analyzeError = None,
       windowSize_height = 800, stackX = 50, heapX = 400, currentTheme = ''dark'' \<rparr>"

text \<open>A result without the \<open>stack\<close> field.\<close>

definition exampleNoStackInputs :: inputs where
  "exampleNoStackInputs =
     \<lparr> analyzeResponse = Some \<lparr> ref = 4, stack = None, heap = Some [allocatedBlock] \<rparr>,
       isAnalyzing = False, sourceCode = exampleSource, analyzeError = None,
       windowSize_height = 800, stackX = 50, heapX = 400, currentTheme = ''dark'' \<rparr>"

text \<open>The stack node and the heap node built from \<open>exampleResponse\<close>, as created.\<close>

definition examplePNode :: NodeData where
  "examplePNode =
     \<lparr> nid = ''p'', ntype = ''memoryBlockNode'', position_x = 50, position_y = 540,
       sourcePosition = Some Right, targetPosition = None,
       data = \<lparr> nodeType = ''stack'', label = ''*p'', dvalue = [], dsize = JNum 8,
                dtype = ''Pointer'',
                extraInfo = \<lparr> address = ''0xBFFFFFFF'', pointingToAddress = None,
                              pointingToLabel = None, metadata = None, isFree = None \<rparr> \<rparr>,
       width = 200, height = 160, nsize = 8 \<rparr>"

definition exampleHeapNode :: NodeData where
  "exampleHeapNode =
     \<lparr> nid = ''0'', ntype = ''memoryBlockNode'', position_x = 400, position_y = 620,
       sourcePosition = None, targetPosition = None,
       data = \<lparr> nodeType = ''heap'', label = ''null'', dvalue = [], dsize = JStr ''4'',
                dtype = [],
                extraInfo = \<lparr> address = ''0x400000'', pointingToAddress = None,
                              pointingToLabel = None, metadata = None, isFree = Some False \<rparr> \<rparr>,
       width = 200, height = 80, nsize = 4 \<rparr>"

text \<open>The states after the first render for \<open>exampleValidInputs\<close> from the initial state (the
  heap builder has run on the empty stack nodes of that render), and the state in which the
  recomputation ends: the heap builder has run again, on the new stack nodes.\<close>

definition exampleFirstPass :: vstate where
  "exampleFirstPass =
     \<lparr> stackNodes = [examplePNode], heapNodes = [exampleHeapNode],
       stackConnections = [], heapConnections = [],
       lastValidAnalyzeResponse = Some exampleResponse,
       stackNodesRef = 2, stackDeps = Some (Some 1, 50, ''dark'', 800),
       heapDeps = Some (Some 1, 0, 400, ''dark'', 800), draws = 0, rerender = True \<rparr>"

definition exampleSettledState :: vstate where
  "exampleSettledState =
     \<lparr> stackNodes = [set_pointingToAddress ''0x400000'' examplePNode],
       heapNodes = [exampleHeapNode\<lparr>targetPosition := Some Left\<rparr>],
       stackConnections = [],
       heapConnections = [createEdge ''ep-0'' ''straight'' ''p'' ''0'' ''#aaccee''],
       lastValidAnalyzeResponse = Some exampleResponse,
       stackNodesRef = 2, stackDeps = Some (Some 1, 50, ''dark'', 800),
       heapDeps = Some (Some 1, 2, 400, ''dark'', 800), draws = 1, rerender = False \<rparr>"

text \<open>The state in which the recomputation for \<open>exampleEmptyInputs\<close> ends, from
  \<open>exampleSettledState\<close>.\<close>

definition exampleStaleState :: vstate where
  "exampleStaleState =
     \<lparr> stackNodes = [],
       heapNodes = [exampleHeapNode\<lparr>targetPosition := Some Left\<rparr>],
       stackConnections = [],
       heapConnections = [createEdge ''ep-0'' ''straight'' ''p'' ''0'' ''#aaccee''],
       lastValidAnalyzeResponse = Some exampleResponse,
       stackNodesRef = 3, stackDeps = Some (Some 3, 50, ''dark'', 800),
       heapDeps = Some (Some 3, 3, 400, ''dark'', 800), draws = 1, rerender = False \<rparr>"

text \<open>The inputs of an analysis that failed while the source text was a single space: a text
  that is not empty, and blank. The state is the one in which the recomputation for these
  inputs ends, from \<open>exampleSettledState\<close>.\<close>

definition exampleBlankErrorInputs :: inputs where
  "exampleBlankErrorInputs =
     \<lparr> analyzeResponse = Some \<lparr> ref = 5, stack = Some [], heap = Some [] \<rparr>, isAnalyzing = False,
       sourceCode = [32], analyzeError = Some ''expected expression'',
       windowSize_height = 800, stackX = 50, heapX = 400, currentTheme = ''dark'' \<rparr>"

definition exampleBlankErrorState :: vstate where
  "exampleBlankErrorState =
     \<lparr> stackNodes = [],
       heapNodes = [exampleHeapNode\<lparr>targetPosition := Some Left\<rparr>],
       stackConnections = [],
       heapConnections = [createEdge ''ep-0'' ''straight'' ''p'' ''0'' ''#aaccee''],
       lastValidAnalyzeResponse = Some exampleResponse,
       stackNodesRef = 3, stackDeps = Some (Some 5, 50, ''dark'', 800),
       heapDeps = Some (Some 5, 3, 400, ''dark'', 800), draws = 1, rerender = False \<rparr>"

text \<open>A stack whose first variable has the size \<open>2^53\<close>.\<close>

definition exampleLargeStack :: "symbol list" where
  "exampleLargeStack =
     [Variable ''a'' 9007199254740992 None ''Array'', Variable ''b'' 4 (Some ''0'') ''Integer'']"




section \<open>Formatting of addresses\<close>

lemma digit_cases: "d < 16 \<Longrightarrow> d \<in> set [0,1,2,3,4,5,6,7,8,9,10,11,12,13,14,15::nat]"
  by (simp; arith)

lemma upper_digit: "d < 16 \<Longrightarrow> isUpperHexDigit (upperChar (digitChar d))"
proof -
  assume "d < 16"
  then have "d \<in> set [0,1,2,3,4,5,6,7,8,9,10,11,12,13,14,15::nat]" by (rule digit_cases)
  moreover have "\<forall>d \<in> set [0,1,2,3,4,5,6,7,8,9,10,11,12,13,14,15::nat]. isUpperHexDigit (upperChar (digitChar d))"
    by (simp add: isUpperHexDigit_def upperChar_def digitChar_def)
  ultimately show ?thesis by blast
qed

lemma toString16_nonempty: "toString16 n \<noteq> []"
  by (subst toString16.simps) simp

lemma toString16_upper: "\<forall>ch \<in> set (toUpperCase (toString16 n)). isUpperHexDigit ch"
proof (induction n rule: toString16.induct)
  case (1 n)
  show ?case
  proof (cases "n < 16")
    case True
    then show ?thesis
      by (subst toString16.simps) (simp add: toUpperCase_def upper_digit)
  next
    case False
    with 1 have ih: "\<forall>ch \<in> set (toUpperCase (toString16 (n div 16))). isUpperHexDigit ch" by simp
    have "n mod 16 < 16" by simp
    then have "isUpperHexDigit (upperChar (digitChar (n mod 16)))" by (rule upper_digit)
    with ih False show ?thesis
      by (subst toString16.simps) (simp add: toUpperCase_def)
  qed
qed

lemma toDouble_exact: "n \<le> 9007199254740992 \<Longrightarrow> toDouble n = Finite n"
proof (cases "n < 9007199254740992")
  case True
  then show ?thesis by (simp add: toDouble_def)
next
  case False
  assume "n \<le> 9007199254740992"
  with False have n: "n = 9007199254740992" by simp
  have e: "excessBits (9007199254740992::nat) = 1"
    by (simp add: excessBits.simps)
  have "toDouble 9007199254740992 = Finite 9007199254740992"
    by (simp add: toDouble_def e)
  with n show ?thesis by simp
qed

lemma jsAdd_Finite: "jsAdd (Finite a) n = toDouble (a + n)"
  by (simp add: jsAdd_def)

lemma formatNumber_Finite: "formatNumber (Finite a) = formatAddress a"
  by (simp add: formatNumber_def)

lemma toDouble_small: "n < 9007199254740992 \<Longrightarrow> toDouble n = Finite n"
  by (simp add: toDouble_def)

text \<open>As long as the sum stays within \<open>2^53\<close>, the additions are exact.\<close>

lemma runningAddress_exact:
  "base + sum_list sizes \<le> 9007199254740992 \<Longrightarrow>
     runningAddress base sizes = Finite (base + sum_list sizes)"
proof (induction sizes rule: rev_induct)
  case Nil
  then show ?case by (simp add: runningAddress_def)
next
  case (snoc x xs)
  then have "base + sum_list xs \<le> 9007199254740992" by simp
  then have "runningAddress base xs = Finite (base + sum_list xs)" by (rule snoc.IH)
  then have "runningAddress base (xs @ [x]) = toDouble (base + sum_list xs + x)"
    by (simp add: runningAddress_def jsAdd_Finite)
  also have "\<dots> = Finite (base + sum_list xs + x)"
    using snoc.prems by (intro toDouble_exact) simp
  finally show ?case by (simp add: add.assoc)
qed

lemma runningAddress_take_exact:
  assumes "base + sum_list sizes \<le> 9007199254740992"
  shows "runningAddress base (take i sizes) = Finite (base + sum_list (take i sizes))"
proof -
  have "sum_list (take i sizes) + sum_list (drop i sizes) = sum_list sizes"
    by (metis append_take_drop_id sum_list_append)
  with assms have "base + sum_list (take i sizes) \<le> 9007199254740992" by arith
  then show ?thesis by (rule runningAddress_exact)
qed

lemma addrChain_snoc:
  "addrChain a (ns @ [n]) =
     (addrChain a ns \<and> nodeAddress n = formatNumber (foldl jsAdd a (map nsize ns)))"
  by (induction ns arbitrary: a) auto

lemma addrChain_nth:
  "addrChain a ns \<Longrightarrow> i < length ns \<Longrightarrow>
     nodeAddress (ns ! i) = formatNumber (foldl jsAdd a (map nsize (take i ns)))"
proof (induction ns arbitrary: a i)
  case Nil
  then show ?case by simp
next
  case (Cons n ns)
  show ?case
  proof (cases i)
    case 0
    with Cons.prems show ?thesis by simp
  next
    case (Suc k)
    with Cons.prems have "addrChain (jsAdd a (nsize n)) ns" "k < length ns" by simp_all
    then have "nodeAddress (ns ! k) =
        formatNumber (foldl jsAdd (jsAdd a (nsize n)) (map nsize (take k ns)))"
      by (rule Cons.IH)
    with Suc show ?thesis by simp
  qed
qed

lemma stackLoop_chain:
  "addrChain b acc \<Longrightarrow>
     addrChain b (stackLoop c wh sx syms acc (foldl jsAdd b (map nsize acc)))"
proof (induction syms arbitrary: acc)
  case Nil
  then show ?case by simp
next
  case (Cons sym syms)
  show ?case
  proof (cases sym)
    case (Variable name sz val vtype)
    let ?a = "foldl jsAdd b (map nsize acc)"
    let ?n = "variableNode c wh sx acc ?a name sz val vtype"
    have "addrChain b (acc @ [?n])"
      using Cons.prems by (simp add: addrChain_snoc nodeAddress_def variableNode_def)
    then have "addrChain b (stackLoop c wh sx syms (acc @ [?n]) (foldl jsAdd b (map nsize (acc @ [?n]))))"
      by (rule Cons.IH)
    moreover have "foldl jsAdd b (map nsize (acc @ [?n])) = jsAdd ?a sz"
      by (simp add: variableNode_def)
    ultimately have "addrChain b (stackLoop c wh sx syms (acc @ [?n]) (jsAdd ?a sz))"
      by (simp only:)
    then show ?thesis using Variable by simp
  next
    case (Pointer name sz val)
    let ?a = "foldl jsAdd b (map nsize acc)"
    let ?n = "pointerNode c wh sx acc ?a name sz val"
    have "addrChain b (acc @ [?n])"
      using Cons.prems by (simp add: addrChain_snoc nodeAddress_def pointerNode_def)
    then have "addrChain b (stackLoop c wh sx syms (acc @ [?n]) (foldl jsAdd b (map nsize (acc @ [?n]))))"
      by (rule Cons.IH)
    moreover have "foldl jsAdd b (map nsize (acc @ [?n])) = jsAdd ?a sz"
      by (simp add: pointerNode_def)
    ultimately have "addrChain b (stackLoop c wh sx syms (acc @ [?n]) (jsAdd ?a sz))"
      by (simp only:)
    then show ?thesis using Pointer by simp
  next
    case Malformed
    then show ?thesis using Cons by simp
  qed
qed

lemma stackLoop_sizes:
  "map nsize (stackLoop c wh sx syms acc a) = map nsize acc @ symbolSizes syms"
proof (induction syms arbitrary: acc a)
  case Nil
  then show ?case by simp
next
  case (Cons sym syms)
  then show ?case
    by (cases sym) (simp_all add: variableNode_def pointerNode_def)
qed


section \<open>Generic facts about loops, and the parts of a node that stay fixed\<close>

lemma foldl_inv:
  "I s \<Longrightarrow> (\<And>s x. I s \<Longrightarrow> x \<in> set xs \<Longrightarrow> I (f s x)) \<Longrightarrow> I (foldl f s xs)"
  by (induction xs arbitrary: s) simp_all

lemma foldl_establish:
  assumes "x \<in> set xs" and "I s"
    and step: "\<And>s y. I s \<Longrightarrow> y \<in> set xs \<Longrightarrow> I (f s y)"
    and est: "\<And>s. I s \<Longrightarrow> Q (f s x)"
    and stable: "\<And>s y. I s \<Longrightarrow> y \<in> set xs \<Longrightarrow> Q s \<Longrightarrow> Q (f s y)"
  shows "Q (foldl f s xs)"
  using assms
proof (induction xs arbitrary: s rule: rev_induct)
  case Nil
  then show ?case by simp
next
  case (snoc y ys)
  have inv: "I (foldl f s ys)"
    using snoc.prems(2) by (rule foldl_inv) (simp add: snoc.prems(3))
  show ?case
  proof (cases "x = y")
    case True
    then show ?thesis using inv snoc.prems(4) by simp
  next
    case False
    with snoc.prems(1) have "x \<in> set ys" by simp
    then have "Q (foldl f s ys)"
      using snoc.prems(2) by (rule snoc.IH) (simp_all add: snoc.prems)
    then show ?thesis using inv snoc.prems(5) by simp
  qed
qed

lemma map_update_same:
  "f y = f (xs ! i) \<Longrightarrow> map f (xs[i := y]) = map f xs"
  by (cases "i < length xs") (simp_all add: map_update list_update_same_conv list_update_beyond)

lemma frozen_set_pointingToAddress [simp]: "frozenPart (set_pointingToAddress a n) = frozenPart n"
  by (simp add: frozenPart_def set_pointingToAddress_def)

lemma frozen_set_metadata [simp]: "frozenPart (set_metadata m n) = frozenPart n"
  by (simp add: frozenPart_def set_metadata_def)

lemma frozen_set_dvalue [simp]: "frozenPart (set_dvalue v n) = frozenPart n"
  by (simp add: frozenPart_def set_dvalue_def)

lemma frozen_anchors [simp]:
  "frozenPart (n\<lparr>sourcePosition := a\<rparr>) = frozenPart n"
  "frozenPart (n\<lparr>targetPosition := b\<rparr>) = frozenPart n"
  by (simp_all add: frozenPart_def)

lemma frozen_fields:
  assumes "frozenPart a = frozenPart b"
  shows "nid a = nid b" "nsize a = nsize b" "nodeAddress a = nodeAddress b"
    "dtype (data a) = dtype (data b)"
    "pointingToLabel (extraInfo (data a)) = pointingToLabel (extraInfo (data b))"
    "position_x a = position_x b" "position_y a = position_y b"
proof -
  have "nid (frozenPart a) = nid (frozenPart b)" using assms by simp
  then show "nid a = nid b" by (simp add: frozenPart_def)
  have "nsize (frozenPart a) = nsize (frozenPart b)" using assms by simp
  then show "nsize a = nsize b" by (simp add: frozenPart_def)
  have "nodeAddress (frozenPart a) = nodeAddress (frozenPart b)" using assms by simp
  then show "nodeAddress a = nodeAddress b" by (simp add: frozenPart_def nodeAddress_def)
  have "dtype (data (frozenPart a)) = dtype (data (frozenPart b))" using assms by simp
  then show "dtype (data a) = dtype (data b)" by (simp add: frozenPart_def)
  have "pointingToLabel (extraInfo (data (frozenPart a))) = pointingToLabel (extraInfo (data (frozenPart b)))"
    using assms by simp
  then show "pointingToLabel (extraInfo (data a)) = pointingToLabel (extraInfo (data b))"
    by (simp add: frozenPart_def)
  have "position_x (frozenPart a) = position_x (frozenPart b)" using assms by simp
  then show "position_x a = position_x b" by (simp add: frozenPart_def)
  have "position_y (frozenPart a) = position_y (frozenPart b)" using assms by simp
  then show "position_y a = position_y b" by (simp add: frozenPart_def)
qed

lemma frozen_nth:
  "map frozenPart xs = map frozenPart ys \<Longrightarrow> i < length xs \<Longrightarrow> frozenPart (xs ! i) = frozenPart (ys ! i)"
  by (metis length_map nth_map)

lemma frozen_length:
  "map frozenPart xs = map frozenPart ys \<Longrightarrow> length xs = length ys"
  by (rule map_eq_imp_length_eq)

lemma resolveInner_frozen:
  "map frozenPart (rs_nodes (resolveInner gen th i st j)) = map frozenPart (rs_nodes st)"
proof -
  let ?ns = "rs_nodes st"
  let ?n1 = "?ns[i := set_dvalue (''&'' @ the (pointingToLabel (extraInfo (data (?ns ! i)))))
                        (set_pointingToAddress (address (extraInfo (data (?ns ! j)))) (?ns ! i))]"
  have a: "map frozenPart ?n1 = map frozenPart ?ns"
    by (rule map_update_same) simp
  have b: "map frozenPart (?n1[j := (?n1 ! j)\<lparr>sourcePosition := Some Right, targetPosition := Some Right\<rparr>])
             = map frozenPart ?n1"
    by (rule map_update_same) simp
  show ?thesis
    using a b by (simp add: resolveInner_def Let_def)
qed

lemma resolveInner_fold_frozen:
  "map frozenPart (rs_nodes (foldl (resolveInner gen th i) st js)) = map frozenPart (rs_nodes st)"
  by (induction js arbitrary: st) (simp_all add: resolveInner_frozen)

lemma resolveOuter_frozen:
  "map frozenPart (rs_nodes (resolveOuter gen th st i)) = map frozenPart (rs_nodes st)"
  by (simp add: resolveOuter_def resolveInner_fold_frozen)

lemma resolveOuter_fold_frozen:
  "map frozenPart (rs_nodes (foldl (resolveOuter gen th) st is)) = map frozenPart (rs_nodes st)"
  by (induction "is" arbitrary: st) (simp_all add: resolveOuter_frozen)

lemma resolvePointers_frozen:
  "map frozenPart (rs_nodes (resolvePointers gen th nodes k)) = map frozenPart nodes"
  by (simp add: resolvePointers_def resolveOuter_fold_frozen)

lemma frozen_map_fields:
  assumes "map frozenPart xs = map frozenPart ys"
  shows "map nid xs = map nid ys" "map nsize xs = map nsize ys" "map nodeAddress xs = map nodeAddress ys"
proof -
  have len: "length xs = length ys" using assms by (rule frozen_length)
  have *: "frozenPart (xs ! i) = frozenPart (ys ! i)" if "i < length xs" for i
    using assms that by (rule frozen_nth)
  have "nid (xs ! i) = nid (ys ! i)" if "i < length xs" for i
    using *[OF that] by (rule frozen_fields)
  with len show "map nid xs = map nid ys" by (simp add: list_eq_iff_nth_eq)
  have "nsize (xs ! i) = nsize (ys ! i)" if "i < length xs" for i
    using *[OF that] by (rule frozen_fields)
  with len show "map nsize xs = map nsize ys" by (simp add: list_eq_iff_nth_eq)
  have "nodeAddress (xs ! i) = nodeAddress (ys ! i)" if "i < length xs" for i
    using *[OF that] by (rule frozen_fields)
  with len show "map nodeAddress xs = map nodeAddress ys" by (simp add: list_eq_iff_nth_eq)
qed

lemma addrChain_frozen:
  "map frozenPart xs = map frozenPart ys \<Longrightarrow> addrChain a xs = addrChain a ys"
proof (induction xs arbitrary: ys a)
  case Nil
  then show ?case by simp
next
  case (Cons x xs)
  then obtain y ys' where ys: "ys = y # ys'" by (cases ys) auto
  with Cons.prems have fx: "frozenPart x = frozenPart y" and rest: "map frozenPart xs = map frozenPart ys'"
    by simp_all
  from fx have "nodeAddress x = nodeAddress y" by (rule frozen_fields)
  moreover from fx have "nsize x = nsize y" by (rule frozen_fields)
  ultimately show ?case using Cons.IH[OF rest] ys by simp
qed


section \<open>The heap builder and the stack builder: shape of the results\<close>

lemma connectStep_frozen:
  "map frozenPart (cs_stackNodes (connectStep gen th b hid st j)) = map frozenPart (cs_stackNodes st)"
proof -
  let ?ns = "cs_stackNodes st"
  let ?a = "address (extraInfo (data (cs_heapNode st)))"
  have a: "map frozenPart (?ns[j := set_pointingToAddress ?a (?ns ! j)]) = map frozenPart ?ns"
    by (rule map_update_same) simp
  have b: "map frozenPart (?ns[j := set_metadata ''Dangling Pointer'' (set_pointingToAddress ?a (?ns ! j))])
             = map frozenPart ?ns"
    by (rule map_update_same) simp
  show ?thesis
    using a b by (simp add: connectStep_def Let_def)
qed

lemma connectStep_heapNode:
  "frozenPart (cs_heapNode (connectStep gen th b hid st j)) = frozenPart (cs_heapNode st)"
  by (simp add: connectStep_def Let_def)

lemma connectFold_frozen:
  "map frozenPart (cs_stackNodes (foldl (connectStep gen th b hid) st js)) = map frozenPart (cs_stackNodes st)"
  by (induction js arbitrary: st) (simp_all add: connectStep_frozen)

lemma connectFold_heapNode:
  "frozenPart (cs_heapNode (foldl (connectStep gen th b hid) st js)) = frozenPart (cs_heapNode st)"
  by (induction js arbitrary: st) (simp_all add: connectStep_heapNode)

lemma heapStep_stack_frozen:
  "map frozenPart (hs_stackNodes (heapStep c gen th wh hx st b)) = map frozenPart (hs_stackNodes st)"
  by (simp add: heapStep_def Let_def connectFold_frozen)

lemma heapStep_counters:
  "hs_index (heapStep c gen th wh hx st b) = hs_index st + 1"
  "hs_address (heapStep c gen th wh hx st b) = jsAdd (hs_address st) (block_size b)"
  by (simp_all add: heapStep_def Let_def)

lemma heapStep_nodes:
  "\<exists>n. hs_heapNodes (heapStep c gen th wh hx st b) = hs_heapNodes st @ [n]
       \<and> frozenPart n = frozenPart (heapNodeOf c wh hx st b)"
  by (simp add: heapStep_def Let_def connectFold_heapNode)

lemma buildHeap_snoc:
  "buildHeap c gen th wh hx (bs @ [b]) sn k = heapStep c gen th wh hx (buildHeap c gen th wh hx bs sn k) b"
  by (simp add: buildHeap_def)

lemma buildHeap_Nil:
  "buildHeap c gen th wh hx [] sn k =
     \<lparr> hs_heapNodes = [], hs_connections = [], hs_index = 0, hs_address = Finite heapBase,
       hs_stackNodes = sn, hs_draws = k \<rparr>"
  by (simp add: buildHeap_def)

lemma buildHeap_stack_frozen:
  "map frozenPart (hs_stackNodes (buildHeap c gen th wh hx bs sn k)) = map frozenPart sn"
  by (induction bs rule: rev_induct) (simp_all add: buildHeap_Nil buildHeap_snoc heapStep_stack_frozen)

lemma buildHeap_index:
  "hs_index (buildHeap c gen th wh hx bs sn k) = length bs"
  by (induction bs rule: rev_induct) (simp_all add: buildHeap_Nil buildHeap_snoc heapStep_counters)

lemma buildHeap_address:
  "hs_address (buildHeap c gen th wh hx bs sn k) = runningAddress heapBase (map block_size bs)"
  by (induction bs rule: rev_induct)
     (simp_all add: buildHeap_Nil buildHeap_snoc heapStep_counters runningAddress_def)

lemma heapNodeOf_fields:
  "nsize (heapNodeOf c wh hx st b) = block_size b"
  "nodeAddress (heapNodeOf c wh hx st b) = formatNumber (hs_address st)"
  "nid (heapNodeOf c wh hx st b) =
     generateNodeId (hs_index st) (block_state b = Unallocated) (block_state b = Free)"
  by (simp_all add: heapNodeOf_def nodeAddress_def)

lemma buildHeap_sizes:
  "map nsize (hs_heapNodes (buildHeap c gen th wh hx bs sn k)) = map block_size bs"
proof (induction bs rule: rev_induct)
  case Nil
  then show ?case by (simp add: buildHeap_Nil)
next
  case (snoc b bs)
  let ?h = "buildHeap c gen th wh hx bs sn k"
  obtain n where n: "hs_heapNodes (heapStep c gen th wh hx ?h b) = hs_heapNodes ?h @ [n]"
    and fr: "frozenPart n = frozenPart (heapNodeOf c wh hx ?h b)"
    using heapStep_nodes by blast
  from fr have "nsize n = nsize (heapNodeOf c wh hx ?h b)" by (rule frozen_fields)
  then have "nsize n = block_size b" by (simp add: heapNodeOf_fields)
  with n snoc show ?case by (simp add: buildHeap_snoc)
qed

lemma buildHeap_length:
  "length (hs_heapNodes (buildHeap c gen th wh hx bs sn k)) = length bs"
proof -
  have "length (map nsize (hs_heapNodes (buildHeap c gen th wh hx bs sn k))) = length (map block_size bs)"
    by (simp only: buildHeap_sizes)
  then show ?thesis by simp
qed

lemma buildHeap_chain:
  "addrChain (Finite heapBase) (hs_heapNodes (buildHeap c gen th wh hx bs sn k))"
proof (induction bs rule: rev_induct)
  case Nil
  then show ?case by (simp add: buildHeap_Nil)
next
  case (snoc b bs)
  let ?h = "buildHeap c gen th wh hx bs sn k"
  obtain n where n: "hs_heapNodes (heapStep c gen th wh hx ?h b) = hs_heapNodes ?h @ [n]"
    and fr: "frozenPart n = frozenPart (heapNodeOf c wh hx ?h b)"
    using heapStep_nodes by blast
  from fr have "nodeAddress n = nodeAddress (heapNodeOf c wh hx ?h b)" by (rule frozen_fields)
  then have "nodeAddress n = formatNumber (foldl jsAdd (Finite heapBase) (map nsize (hs_heapNodes ?h)))"
    by (simp add: heapNodeOf_fields buildHeap_address buildHeap_sizes runningAddress_def)
  with n snoc show ?case by (simp add: buildHeap_snoc addrChain_snoc)
qed

lemma buildHeap_ids:
  "i < length bs \<Longrightarrow>
     nid (hs_heapNodes (buildHeap c gen th wh hx bs sn k) ! i) =
       generateNodeId i (block_state (bs ! i) = Unallocated) (block_state (bs ! i) = Free)"
proof (induction bs rule: rev_induct)
  case Nil
  then show ?case by simp
next
  case (snoc b bs)
  let ?h = "buildHeap c gen th wh hx bs sn k"
  obtain n where n: "hs_heapNodes (heapStep c gen th wh hx ?h b) = hs_heapNodes ?h @ [n]"
    and fr: "frozenPart n = frozenPart (heapNodeOf c wh hx ?h b)"
    using heapStep_nodes by blast
  from fr have "nid n = nid (heapNodeOf c wh hx ?h b)" by (rule frozen_fields)
  then have nidn: "nid n = generateNodeId (length bs) (block_state b = Unallocated) (block_state b = Free)"
    by (simp add: heapNodeOf_fields buildHeap_index)
  show ?case
  proof (cases "i < length bs")
    case True
    with snoc.IH n show ?thesis by (simp add: buildHeap_snoc nth_append buildHeap_length)
  next
    case False
    with snoc.prems have "i = length bs" by simp
    with n nidn show ?thesis by (simp add: buildHeap_snoc nth_append buildHeap_length)
  qed
qed

lemma buildStack_nodes_frozen:
  "map frozenPart (rs_nodes (buildStack c gen th wh sx syms k)) =
     map frozenPart (stackLoop c wh sx syms [] (Finite stackBase))"
  by (simp add: buildStack_def resolvePointers_frozen)

lemma buildStack_chain:
  "addrChain (Finite stackBase) (rs_nodes (buildStack c gen th wh sx syms k))"
proof -
  have "addrChain (Finite stackBase) []" by simp
  then have "addrChain (Finite stackBase)
      (stackLoop c wh sx syms [] (foldl jsAdd (Finite stackBase) (map nsize ([]::NodeData list))))"
    by (rule stackLoop_chain)
  then have "addrChain (Finite stackBase) (stackLoop c wh sx syms [] (Finite stackBase))" by simp
  then show ?thesis
    using addrChain_frozen[OF buildStack_nodes_frozen] by simp
qed

lemma buildStack_sizes:
  "map nsize (rs_nodes (buildStack c gen th wh sx syms k)) = symbolSizes syms"
  using frozen_map_fields(2)[OF buildStack_nodes_frozen] by (simp add: stackLoop_sizes)


section \<open>Address synthesis\<close>

lemmas js_eval = formatAddress_def toString16.simps toString10.simps toUpperCase_def upperChar_def
  digitChar_def stackBase_def heapBase_def runningAddress_def jsAdd_Finite formatNumber_Finite
  toDouble_small

lemma formatAddress_shape:
  "\<exists>digits. formatAddress a = ''0x'' @ digits \<and> digits \<noteq> [] \<and> (\<forall>ch \<in> set digits. isUpperHexDigit ch)"
proof -
  have "toUpperCase (toString16 a) \<noteq> []"
    by (simp add: toUpperCase_def toString16_nonempty)
  then show ?thesis
    using toString16_upper by (auto simp: formatAddress_def)
qed

lemma buildStack_address_nth:
  assumes "i < length (symbolSizes syms)"
  shows "nodeAddress (rs_nodes (buildStack c gen th wh sx syms k) ! i) =
           formatNumber (runningAddress stackBase (take i (symbolSizes syms)))"
proof -
  let ?ns = "rs_nodes (buildStack c gen th wh sx syms k)"
  have sz: "map nsize ?ns = symbolSizes syms" by (rule buildStack_sizes)
  then have "length ?ns = length (symbolSizes syms)" by (metis length_map)
  with assms have "i < length ?ns" by simp
  with buildStack_chain have "nodeAddress (?ns ! i) =
      formatNumber (foldl jsAdd (Finite stackBase) (map nsize (take i ?ns)))"
    by (rule addrChain_nth)
  then show ?thesis using sz by (simp add: take_map[symmetric] runningAddress_def)
qed

lemma buildHeap_address_nth:
  assumes "i < length blocks"
  shows "nodeAddress (hs_heapNodes (buildHeap c gen th wh hx blocks sn k) ! i) =
           formatNumber (runningAddress heapBase (map block_size (take i blocks)))"
proof -
  let ?ns = "hs_heapNodes (buildHeap c gen th wh hx blocks sn k)"
  have sz: "map nsize ?ns = map block_size blocks" by (rule buildHeap_sizes)
  from assms have "i < length ?ns" by (simp add: buildHeap_length)
  with buildHeap_chain have "nodeAddress (?ns ! i) =
      formatNumber (foldl jsAdd (Finite heapBase) (map nsize (take i ?ns)))"
    by (rule addrChain_nth)
  then show ?thesis using sz by (simp add: take_map[symmetric] runningAddress_def)
qed

lemma buildStack_address_exact:
  assumes "stackBase + sum_list (symbolSizes syms) \<le> 9007199254740992"
    and "i < length (symbolSizes syms)"
  shows "nodeAddress (rs_nodes (buildStack c gen th wh sx syms k) ! i) =
           formatAddress (stackBase + sum_list (take i (symbolSizes syms)))"
  using buildStack_address_nth[OF assms(2)] runningAddress_take_exact[OF assms(1)]
  by (simp add: formatNumber_Finite)

lemma buildHeap_address_exact:
  assumes "heapBase + sum_list (map block_size blocks) \<le> 9007199254740992"
    and "i < length blocks"
  shows "nodeAddress (hs_heapNodes (buildHeap c gen th wh hx blocks sn k) ! i) =
           formatAddress (heapBase + sum_list (map block_size (take i blocks)))"
  using buildHeap_address_nth[OF assms(2)] runningAddress_take_exact[OF assms(1)]
  by (simp add: formatNumber_Finite take_map)

text \<open>
  C2 (address synthesis), as the code has it. The stack builder creates one node per
  well-formed symbol, of the symbol's size; the address of the \<open>i\<close>-th stack node is the
  running address, which starts at the stack base \<open>0xbfffffff\<close> and to which the sizes of the
  nodes before it have been added one by one by the addition of JavaScript numbers. As long
  as the stack base plus all the sizes is at most \<open>2^53 = 9007199254740992\<close> that addition is
  exact: the first address is the base and each next address is the previous one plus the
  previous size. The heap builder creates one node per block, of the block's size whatever
  its state, with addresses that start at the heap base \<open>0x00400000\<close> in the same way. Every
  finite address is rendered as \<open>0x\<close> followed by a non-empty string of uppercase hexadecimal
  digits.
\<close>

theorem address_synthesis:
  "map nsize (rs_nodes (buildStack c gen th wh sx syms k)) = symbolSizes syms
   \<and> (\<forall>i < length (symbolSizes syms).
         nodeAddress (rs_nodes (buildStack c gen th wh sx syms k) ! i) =
           formatNumber (runningAddress stackBase (take i (symbolSizes syms))))
   \<and> (stackBase + sum_list (symbolSizes syms) \<le> 9007199254740992 \<longrightarrow>
        (\<forall>i < length (symbolSizes syms).
           nodeAddress (rs_nodes (buildStack c gen th wh sx syms k) ! i) =
             formatAddress (stackBase + sum_list (take i (symbolSizes syms)))))
   \<and> map nsize (hs_heapNodes (buildHeap c gen th wh hx blocks sn k')) = map block_size blocks
   \<and> (\<forall>i < length blocks.
         nodeAddress (hs_heapNodes (buildHeap c gen th wh hx blocks sn k') ! i) =
           formatNumber (runningAddress heapBase (map block_size (take i blocks))))
   \<and> (heapBase + sum_list (map block_size blocks) \<le> 9007199254740992 \<longrightarrow>
        (\<forall>i < length blocks.
           nodeAddress (hs_heapNodes (buildHeap c gen th wh hx blocks sn k') ! i) =
             formatAddress (heapBase + sum_list (map block_size (take i blocks)))))
   \<and> stackBase = 0xbfffffff \<and> heapBase = 0x00400000
   \<and> (\<forall>a. \<exists>digits. formatAddress a = ''0x'' @ digits \<and> digits \<noteq> []
              \<and> (\<forall>ch \<in> set digits. isUpperHexDigit ch))"
  by (intro conjI allI impI buildStack_sizes buildStack_address_nth buildHeap_sizes
        buildHeap_address_nth buildStack_address_exact buildHeap_address_exact
        formatAddress_shape)
     (simp_all add: stackBase_def heapBase_def)

theorem address_synthesis_witness:
  "nodeAddress (rs_nodes (buildStack exampleConstants exampleColors ''dark'' 800 50 exampleStack 0) ! 0)
     = ''0xBFFFFFFF''
   \<and> nodeAddress (rs_nodes (buildStack exampleConstants exampleColors ''dark'' 800 50 exampleStack 0) ! 1)
     = ''0xC0000003''
   \<and> nodeAddress (hs_heapNodes (buildHeap exampleConstants exampleColors ''dark'' 800 400
          [freedBlock, allocatedBlock] [] 0) ! 1) = ''0x400004''"
proof -
  note t = address_synthesis[of exampleConstants exampleColors "''dark''" 800 50 exampleStack 0
      400 "[freedBlock, allocatedBlock]" "[]" 0]
  have sz: "symbolSizes exampleStack = [4, 8]" by (simp add: exampleStack_def)
  have sb: "stackBase + sum_list (symbolSizes exampleStack) \<le> 9007199254740992"
    by (simp add: sz stackBase_def)
  have hb: "heapBase + sum_list (map block_size [freedBlock, allocatedBlock]) \<le> 9007199254740992"
    by (simp add: heapBase_def freedBlock_def allocatedBlock_def)
  have a0: "formatAddress (stackBase + sum_list (take 0 [4, 8])) = ''0xBFFFFFFF''" by (simp add: js_eval)
  have a1: "formatAddress (stackBase + sum_list (take 1 [4, 8])) = ''0xC0000003''" by (simp add: js_eval)
  have h1: "formatAddress (heapBase + sum_list (map block_size (take 1 [freedBlock, allocatedBlock])))
              = ''0x400004''" by (simp add: js_eval freedBlock_def)
  from t sb have s: "\<forall>i < length (symbolSizes exampleStack).
         nodeAddress (rs_nodes (buildStack exampleConstants exampleColors ''dark'' 800 50 exampleStack 0) ! i) =
           formatAddress (stackBase + sum_list (take i (symbolSizes exampleStack)))"
    by blast
  from t hb have h: "\<forall>i < length [freedBlock, allocatedBlock].
         nodeAddress (hs_heapNodes (buildHeap exampleConstants exampleColors ''dark'' 800 400
            [freedBlock, allocatedBlock] [] 0) ! i) =
           formatAddress (heapBase + sum_list (map block_size (take i [freedBlock, allocatedBlock])))"
    by blast
  from s sz a0 have "nodeAddress (rs_nodes (buildStack exampleConstants exampleColors ''dark'' 800 50 exampleStack 0) ! 0)
     = ''0xBFFFFFFF''" by simp
  moreover from s sz a1 have "nodeAddress (rs_nodes (buildStack exampleConstants exampleColors ''dark'' 800 50 exampleStack 0) ! 1)
     = ''0xC0000003''" by simp
  moreover from h h1 have "nodeAddress (hs_heapNodes (buildHeap exampleConstants exampleColors ''dark'' 800 400
          [freedBlock, allocatedBlock] [] 0) ! 1) = ''0x400004''" by simp
  ultimately show ?thesis by simp
qed

text \<open>
  C2 as it was stated does not hold for every input: the addition of the code is the one of
  doubles. For a stack whose first variable has the size \<open>2^53\<close>, the first address is the base
  \<open>0xBFFFFFFF\<close> and the second one is \<open>0x200000C0000000\<close>, the double nearest to the sum, where
  the first address plus the first size is \<open>0x200000BFFFFFFF\<close>. (The sum is odd and lies
  between two doubles at the same distance; the one with the even significand is sixteen
  times \<open>0x200000C000000\<close>, a number below \<open>2^53\<close>.)
\<close>

theorem address_synthesis_counterexample:
  "symbolSizes exampleLargeStack = [9007199254740992, 4]
   \<and> map nodeAddress
        (rs_nodes (buildStack exampleConstants exampleColors ''dark'' 800 50 exampleLargeStack 0))
       = [''0xBFFFFFFF'', ''0x200000C0000000'']
   \<and> formatAddress (stackBase + 9007199254740992) = ''0x200000BFFFFFFF''
   \<and> runningAddress stackBase [9007199254740992] = Finite 9007202475966464"
proof -
  have e: "excessBits 9007202475966463 = 1"
    by (simp add: excessBits.simps)
  have d: "toDouble 9007202475966463 = Finite 9007202475966464"
    unfolding toDouble_def Let_def e by simp
  have r: "runningAddress stackBase [9007199254740992] = Finite 9007202475966464"
    by (simp add: runningAddress_def jsAdd_Finite stackBase_def d)
  have a1: "formatAddress 9007202475966464 = ''0x200000C0000000''" by (simp add: js_eval)
  have a0: "formatAddress 3221225471 = ''0xBFFFFFFF''" by (simp add: js_eval)
  have n: "map nodeAddress
        (rs_nodes (buildStack exampleConstants exampleColors ''dark'' 800 50 exampleLargeStack 0))
       = [formatNumber (Finite 3221225471), formatNumber (toDouble 9007202475966463)]"
    by (simp add: buildStack_def resolvePointers_def resolveOuter_def resolveInner_def
          variableNode_def orDefault_def lastOrNull_def calculateNodePosition_def
          getHeightFromSize_def Let_def upt_rec exampleConstants_def exampleLargeStack_def
          nodeAddress_def stackBase_def jsAdd_Finite)
  have s: "formatAddress (stackBase + 9007199254740992) = ''0x200000BFFFFFFF''"
    by (simp add: js_eval)
  from n d a0 a1 s r show ?thesis
    by (simp add: exampleLargeStack_def formatNumber_Finite)
qed


section \<open>Decimal strings and the ids of heap nodes\<close>

lemma dec_digit_cases: "d < 10 \<Longrightarrow> d \<in> set [0,1,2,3,4,5,6,7,8,9::nat]"
  by (simp; arith)

lemma dec_digit:
  assumes "d < 10"
  shows "digitChar d \<in> set ''0123456789''" and "digitVal (digitChar d) = d"
proof -
  from assms have d: "d \<in> set [0,1,2,3,4,5,6,7,8,9::nat]" by (rule dec_digit_cases)
  have "\<forall>d \<in> set [0,1,2,3,4,5,6,7,8,9::nat]. digitChar d \<in> set ''0123456789''"
    by (simp add: digitChar_def)
  with d show "digitChar d \<in> set ''0123456789''" by blast
  have "\<forall>d \<in> set [0,1,2,3,4,5,6,7,8,9::nat]. digitVal (digitChar d) = d"
    by (simp add: digitChar_def digitVal_def)
  with d show "digitVal (digitChar d) = d" by blast
qed

lemma toString10_nonempty: "toString10 n \<noteq> []"
  by (subst toString10.simps) simp

lemma toString10_digits: "set (toString10 n) \<subseteq> set ''0123456789''"
proof (induction n rule: toString10.induct)
  case (1 n)
  show ?case
  proof (cases "n < 10")
    case True
    then have "digitChar n \<in> set ''0123456789''" by (rule dec_digit)
    with True show ?thesis by (subst toString10.simps) simp
  next
    case False
    with 1 have ih: "set (toString10 (n div 10)) \<subseteq> set ''0123456789''" by simp
    have "n mod 10 < 10" by simp
    then have "digitChar (n mod 10) \<in> set ''0123456789''" by (rule dec_digit)
    with ih False show ?thesis by (subst toString10.simps) simp
  qed
qed

lemma fromDigits_toString10: "fromDigits (toString10 n) = n"
proof (induction n rule: toString10.induct)
  case (1 n)
  show ?case
  proof (cases "n < 10")
    case True
    then have "digitVal (digitChar n) = n" by (rule dec_digit)
    with True show ?thesis by (subst toString10.simps) (simp add: fromDigits_def)
  next
    case False
    with 1 have ih: "fromDigits (toString10 (n div 10)) = n div 10" by simp
    have "n mod 10 < 10" by simp
    then have "digitVal (digitChar (n mod 10)) = n mod 10" by (rule dec_digit)
    with ih False show ?thesis
      by (subst toString10.simps) (simp add: fromDigits_def)
  qed
qed

lemma toString10_inj: "toString10 i = toString10 k \<Longrightarrow> i = k"
  by (metis fromDigits_toString10)

lemma toString10_hd:
  "toString10 n = ch # s \<Longrightarrow> ch \<in> set ''0123456789''"
  using toString10_digits[of n] by auto

lemma startsWith_hd: "startsWith s (ch # sub) \<Longrightarrow> s \<noteq> [] \<and> hd s = ch"
  by (cases s) simp_all

lemma includes_hd: "includes_str s (ch # sub) \<Longrightarrow> ch \<in> set s"
  by (induction s) (auto dest: startsWith_hd)

lemma digits_no_letter:
  "ch \<notin> set ''0123456789'' \<Longrightarrow> \<not> includes_str (toString10 n) (ch # sub)"
  using includes_hd toString10_digits by blast

lemma includes_unallocated:
  "includes_str (generateNodeId i u f) ''unallocated'' = u"
proof (cases u)
  case True
  then show ?thesis by (simp add: generateNodeId_def)
next
  case False
  have "\<not> includes_str (toString10 i) ''unallocated''"
    by (rule digits_no_letter) simp
  with False show ?thesis by (simp add: generateNodeId_def)
qed

lemma includes_free:
  "includes_str (generateNodeId i u f) ''free'' = (\<not> u \<and> f)"
proof -
  have "\<not> includes_str (toString10 i) ''free''"
    by (rule digits_no_letter) simp
  then show ?thesis by (simp add: generateNodeId_def)
qed

lemma generateNodeId_inj:
  assumes "generateNodeId i u f = generateNodeId k u' f'"
  shows "i = k"
proof -
  have nu: "toString10 n \<noteq> ''unallocated-'' @ s" for n s
    using toString10_hd[of n "CHR ''u''"] by auto
  have nf: "toString10 n \<noteq> ''free-'' @ s" for n s
    using toString10_hd[of n "CHR ''f''"] by auto
  from assms nu nf nu[symmetric] nf[symmetric] have "toString10 i = toString10 k"
    by (auto simp: generateNodeId_def split: if_splits)
  then show ?thesis by (rule toString10_inj)
qed

lemma heapNodeId_inj: "heapNodeId i b = heapNodeId k b' \<Longrightarrow> i = k"
  unfolding heapNodeId_def by (rule generateNodeId_inj)

lemma heapNodeId_cases:
  "heapNodeId i b =
     (case block_state b of
        Allocated \<Rightarrow> toString10 i
      | Leaked \<Rightarrow> toString10 i
      | Free \<Rightarrow> ''free-'' @ toString10 i
      | Unallocated \<Rightarrow> ''unallocated-'' @ toString10 i)"
  by (cases "block_state b") (simp_all add: heapNodeId_def generateNodeId_def)

lemma heapNodeId_unallocated:
  "includes_str (heapNodeId i b) ''unallocated'' = (block_state b = Unallocated)"
  by (simp add: heapNodeId_def includes_unallocated)


section \<open>The edges pushed by the heap builder\<close>

lemma related_node:
  "isDanglingPointer b n = isDanglingId b (nid n)"
  "isCurrentPointer b n = isCurrentId b (nid n)"
  by (simp_all add: isCurrentId_def isDanglingId_def isCurrentPointer_def isDanglingPointer_def)

lemma connectStep_edges:
  "\<exists>new. cs_connections (connectStep gen th b hid st j) = cs_connections st @ new
        \<and> list_all2 (heapEdgeFor b hid) new (filter (relatedId b) [nid (cs_stackNodes st ! j)])"
proof (cases "relatedId b (nid (cs_stackNodes st ! j))")
  case False
  then show ?thesis by (simp add: connectStep_def Let_def related_node relatedId_def)
next
  case True
  then show ?thesis
    by (simp add: connectStep_def Let_def related_node relatedId_def heapEdgeFor_def createEdge_def)
qed

lemma connectStep_ids:
  "map nid (cs_stackNodes (connectStep gen th b hid st j)) = map nid (cs_stackNodes st)"
  using connectStep_frozen by (rule frozen_map_fields)

lemma connectFold_edges:
  assumes "map nid (cs_stackNodes st) = ids" and "\<forall>j \<in> set js. j < length ids"
  shows "\<exists>new. cs_connections (foldl (connectStep gen th b hid) st js) = cs_connections st @ new
        \<and> list_all2 (heapEdgeFor b hid) new (filter (relatedId b) (map ((!) ids) js))"
  using assms
proof (induction js arbitrary: st)
  case Nil
  then show ?case by simp
next
  case (Cons j js)
  let ?st = "connectStep gen th b hid st j"
  from Cons.prems have j: "j < length ids" by simp
  with Cons.prems have nj: "nid (cs_stackNodes st ! j) = ids ! j"
    by (metis length_map nth_map)
  obtain new1 where n1: "cs_connections ?st = cs_connections st @ new1"
    and l1: "list_all2 (heapEdgeFor b hid) new1 (filter (relatedId b) [ids ! j])"
    using connectStep_edges[of gen th b hid st j] nj by auto
  have "map nid (cs_stackNodes ?st) = ids" using Cons.prems by (simp add: connectStep_ids)
  moreover have "\<forall>j \<in> set js. j < length ids" using Cons.prems by simp
  ultimately obtain new2 where n2: "cs_connections (foldl (connectStep gen th b hid) ?st js) = cs_connections ?st @ new2"
    and l2: "list_all2 (heapEdgeFor b hid) new2 (filter (relatedId b) (map ((!) ids) js))"
    using Cons.IH by blast
  have "list_all2 (heapEdgeFor b hid) (new1 @ new2)
          (filter (relatedId b) [ids ! j] @ filter (relatedId b) (map ((!) ids) js))"
    using l1 l2 by (rule list_all2_appendI)
  then have "list_all2 (heapEdgeFor b hid) (new1 @ new2) (filter (relatedId b) (map ((!) ids) (j # js)))"
    by (cases "relatedId b (ids ! j)") simp_all
  moreover have "cs_connections (foldl (connectStep gen th b hid) st (j # js)) = cs_connections st @ (new1 @ new2)"
    using n1 n2 by simp
  ultimately show ?case by blast
qed

lemma heapStep_edges:
  assumes "map nid (hs_stackNodes st) = ids"
  shows "\<exists>new. hs_connections (heapStep c gen th wh hx st b) = hs_connections st @ new
        \<and> list_all2 (heapEdgeFor b (heapNodeId (hs_index st) b)) new
             (if block_state b = Unallocated then [] else filter (relatedId b) ids)"
proof (cases "block_state b = Unallocated")
  case True
  then show ?thesis
    by (simp add: heapStep_def Let_def heapNodeOf_fields includes_unallocated)
next
  case False
  let ?hid = "heapNodeId (hs_index st) b"
  let ?cs0 = "\<lparr> cs_stackNodes = hs_stackNodes st, cs_connections = hs_connections st,
                  cs_heapNode = heapNodeOf c wh hx st b, cs_draws = hs_draws st \<rparr>"
  have len: "length (hs_stackNodes st) = length ids" using assms by (metis length_map)
  have "map nid (cs_stackNodes ?cs0) = ids" using assms by simp
  moreover have "\<forall>j \<in> set [0..<length ids]. j < length ids" by simp
  ultimately obtain new where
    n: "cs_connections (foldl (connectStep gen th b ?hid) ?cs0 [0..<length ids]) = cs_connections ?cs0 @ new"
    and l: "list_all2 (heapEdgeFor b ?hid) new (filter (relatedId b) (map ((!) ids) [0..<length ids]))"
    using connectFold_edges by blast
  have "hs_connections (heapStep c gen th wh hx st b) = hs_connections st @ new"
    using False n len
    by (simp add: heapStep_def Let_def heapNodeOf_fields includes_unallocated heapNodeId_def)
  moreover have "list_all2 (heapEdgeFor b ?hid) new (filter (relatedId b) ids)"
    using l by (simp add: map_nth)
  ultimately show ?thesis using False by auto
qed

lemma heapSlots_snoc:
  "heapSlots (bs @ [b]) ids =
     heapSlots bs ids @
       (if block_state b = Unallocated then []
        else map (\<lambda>x. (length bs, b, x)) (filter (relatedId b) ids))"
  by (simp add: heapSlots_def)

lemma buildHeap_ids_stack:
  "map nid (hs_stackNodes (buildHeap c gen th wh hx bs sn k)) = map nid sn"
  using buildHeap_stack_frozen by (rule frozen_map_fields)

lemma buildHeap_edges:
  "list_all2 slotEdge (hs_connections (buildHeap c gen th wh hx blocks sn k))
     (heapSlots blocks (map nid sn))"
proof (induction blocks rule: rev_induct)
  case Nil
  then show ?case by (simp add: buildHeap_Nil heapSlots_def)
next
  case (snoc b bs)
  let ?h = "buildHeap c gen th wh hx bs sn k"
  have "map nid (hs_stackNodes ?h) = map nid sn" by (rule buildHeap_ids_stack)
  then obtain new where n: "hs_connections (heapStep c gen th wh hx ?h b) = hs_connections ?h @ new"
    and l: "list_all2 (heapEdgeFor b (heapNodeId (hs_index ?h) b)) new
             (if block_state b = Unallocated then [] else filter (relatedId b) (map nid sn))"
    using heapStep_edges by blast
  have "list_all2 slotEdge new
          (if block_state b = Unallocated then []
           else map (\<lambda>x. (length bs, b, x)) (filter (relatedId b) (map nid sn)))"
    using l by (cases "block_state b = Unallocated")
      (simp_all add: list_all2_map2 slotEdge_def buildHeap_index)
  with snoc.IH have "list_all2 slotEdge (hs_connections ?h @ new) (heapSlots (bs @ [b]) (map nid sn))"
    unfolding heapSlots_snoc by (rule list_all2_appendI)
  with n show ?case by (simp add: buildHeap_snoc)
qed

lemma heapSlots_mem:
  "(i, b, x) \<in> set (heapSlots blocks ids) \<longleftrightarrow>
     i < length blocks \<and> b = blocks ! i \<and> block_state b \<noteq> Unallocated \<and> x \<in> set ids \<and> relatedId b x"
proof (induction blocks rule: rev_induct)
  case Nil
  then show ?case by (simp add: heapSlots_def)
next
  case (snoc b' bs)
  show ?case
    unfolding heapSlots_snoc using snoc.IH
    by (auto simp: nth_append)
qed

lemma list_all2_left:
  "list_all2 R xs ys \<Longrightarrow> x \<in> set xs \<Longrightarrow> \<exists>y \<in> set ys. R x y"
  by (metis in_set_conv_nth list_all2_conv_all_nth)

lemma list_all2_right:
  "list_all2 R xs ys \<Longrightarrow> y \<in> set ys \<Longrightarrow> \<exists>x \<in> set xs. R x y"
  by (metis in_set_conv_nth list_all2_conv_all_nth)


section \<open>What the heap builder does to the stack nodes\<close>

lemma connectStep_nodes:
  "block_state b \<noteq> Unallocated \<Longrightarrow>
   cs_stackNodes (connectStep gen th b hid st j) =
     (cs_stackNodes st)[j := touchNode b (nodeAddress (cs_heapNode st)) (cs_stackNodes st ! j)]"
  by (simp add: connectStep_def Let_def related_node touchNode_def relatedId_def nodeAddress_def)

lemma connectStep_heapAddress:
  "nodeAddress (cs_heapNode (connectStep gen th b hid st j)) = nodeAddress (cs_heapNode st)"
  using connectStep_heapNode by (rule frozen_fields)

lemma connectStep_length:
  "length (cs_stackNodes (connectStep gen th b hid st j)) = length (cs_stackNodes st)"
  using connectStep_frozen by (rule frozen_length)

lemma connectFold_upto:
  assumes "block_state b \<noteq> Unallocated" and "k \<le> length (cs_stackNodes st)"
  shows "cs_stackNodes (foldl (connectStep gen th b hid) st [0..<k]) =
           map (touchNode b (nodeAddress (cs_heapNode st))) (take k (cs_stackNodes st))
             @ drop k (cs_stackNodes st)
         \<and> nodeAddress (cs_heapNode (foldl (connectStep gen th b hid) st [0..<k]))
             = nodeAddress (cs_heapNode st)"
  using assms(2)
proof (induction k)
  case 0
  then show ?case by simp
next
  case (Suc k)
  let ?ns = "cs_stackNodes st"
  let ?a = "nodeAddress (cs_heapNode st)"
  let ?st = "foldl (connectStep gen th b hid) st [0..<k]"
  from Suc have ih: "cs_stackNodes ?st = map (touchNode b ?a) (take k ?ns) @ drop k ?ns"
    and ia: "nodeAddress (cs_heapNode ?st) = ?a" by simp_all
  from Suc.prems have k: "k < length ?ns" by simp
  have lt: "length (map (touchNode b ?a) (take k ?ns)) = k" using k by simp
  have nth: "(map (touchNode b ?a) (take k ?ns) @ drop k ?ns) ! k = ?ns ! k"
    using k by (simp add: nth_append)
  have "cs_stackNodes (connectStep gen th b hid ?st k) =
          (map (touchNode b ?a) (take k ?ns) @ drop k ?ns)[k := touchNode b ?a (?ns ! k)]"
    using assms(1) by (simp add: connectStep_nodes ia nth ih)
  also have "\<dots> = map (touchNode b ?a) (take k ?ns) @ (drop k ?ns)[0 := touchNode b ?a (?ns ! k)]"
    using lt by (simp add: list_update_append)
  also have "drop k ?ns = ?ns ! k # drop (Suc k) ?ns"
    using k by (simp add: Cons_nth_drop_Suc)
  also have "map (touchNode b ?a) (take k ?ns) @ (?ns ! k # drop (Suc k) ?ns)[0 := touchNode b ?a (?ns ! k)]
               = map (touchNode b ?a) (take (Suc k) ?ns) @ drop (Suc k) ?ns"
    using k by (simp add: take_Suc_conv_app_nth)
  finally have "cs_stackNodes (connectStep gen th b hid ?st k) =
      map (touchNode b ?a) (take (Suc k) ?ns) @ drop (Suc k) ?ns" .
  then show ?case by (simp add: connectStep_heapAddress ia)
qed

lemma heapStep_stackNodes:
  "hs_stackNodes (heapStep c gen th wh hx st b) =
     map (touchNode b (formatNumber (hs_address st))) (hs_stackNodes st)"
proof (cases "block_state b = Unallocated")
  case True
  then have "map (touchNode b (formatNumber (hs_address st))) (hs_stackNodes st) = hs_stackNodes st"
    by (intro map_idI) (simp add: touchNode_def)
  with True show ?thesis
    by (simp add: heapStep_def Let_def heapNodeOf_fields includes_unallocated)
next
  case False
  let ?cs0 = "\<lparr> cs_stackNodes = hs_stackNodes st, cs_connections = hs_connections st,
                  cs_heapNode = heapNodeOf c wh hx st b, cs_draws = hs_draws st \<rparr>"
  have "cs_stackNodes (foldl (connectStep gen th b (nid (heapNodeOf c wh hx st b))) ?cs0
            [0..<length (cs_stackNodes ?cs0)]) =
           map (touchNode b (nodeAddress (cs_heapNode ?cs0))) (take (length (cs_stackNodes ?cs0)) (cs_stackNodes ?cs0))
             @ drop (length (cs_stackNodes ?cs0)) (cs_stackNodes ?cs0)"
    using connectFold_upto[OF False, of "length (cs_stackNodes ?cs0)" ?cs0] by blast
  then show ?thesis
    using False by (simp add: heapStep_def Let_def heapNodeOf_fields includes_unallocated)
qed

lemma buildHeap_stackNodes_snoc:
  "hs_stackNodes (buildHeap c gen th wh hx (bs @ [b]) sn k) =
     map (touchNode b (formatNumber (runningAddress heapBase (map block_size bs))))
       (hs_stackNodes (buildHeap c gen th wh hx bs sn k))"
  by (simp add: buildHeap_snoc heapStep_stackNodes buildHeap_address)

lemma buildHeap_stack_length:
  "length (hs_stackNodes (buildHeap c gen th wh hx bs sn k)) = length sn"
  using buildHeap_stack_frozen by (rule frozen_length)

lemma buildHeap_stack_nid:
  "j < length sn \<Longrightarrow> nid (hs_stackNodes (buildHeap c gen th wh hx bs sn k) ! j) = nid (sn ! j)"
  using buildHeap_ids_stack[of c gen th wh hx bs sn k]
  by (metis buildHeap_stack_length nth_map)

lemma touchNode_metadata:
  "nodeMetadata (touchNode b a n) =
     (if block_state b \<noteq> Unallocated \<and> isDanglingId b (nid n) then Some ''Dangling Pointer''
      else nodeMetadata n)"
  by (simp add: touchNode_def nodeMetadata_def set_metadata_def set_pointingToAddress_def relatedId_def)

lemma touchNode_address:
  "nodePointingToAddress (touchNode b a n) =
     (if block_state b \<noteq> Unallocated \<and> relatedId b (nid n) then Some a
      else nodePointingToAddress n)"
  by (simp add: touchNode_def nodePointingToAddress_def set_metadata_def set_pointingToAddress_def)

lemma buildHeap_metadata:
  assumes "j < length sn" and "i < length blocks"
    and "block_state (blocks ! i) \<noteq> Unallocated" and "isDanglingId (blocks ! i) (nid (sn ! j))"
  shows "nodeMetadata (hs_stackNodes (buildHeap c gen th wh hx blocks sn k) ! j) = Some ''Dangling Pointer''"
  using assms(2-4)
proof (induction blocks rule: rev_induct)
  case Nil
  then show ?case by simp
next
  case (snoc b bs)
  let ?h = "buildHeap c gen th wh hx bs sn k"
  have j: "j < length (hs_stackNodes ?h)" using assms(1) by (simp add: buildHeap_stack_length)
  have idj: "nid (hs_stackNodes ?h ! j) = nid (sn ! j)" using assms(1) by (rule buildHeap_stack_nid)
  show ?case
  proof (cases "i < length bs")
    case True
    with snoc have "nodeMetadata (hs_stackNodes ?h ! j) = Some ''Dangling Pointer''"
      by (simp add: nth_append)
    then show ?thesis using j by (simp add: buildHeap_stackNodes_snoc touchNode_metadata)
  next
    case False
    with snoc.prems have "i = length bs" by simp
    with snoc.prems have "block_state b \<noteq> Unallocated" "isDanglingId b (nid (sn ! j))" by simp_all
    then show ?thesis using j idj by (simp add: buildHeap_stackNodes_snoc touchNode_metadata)
  qed
qed

lemma buildHeap_pointingTo:
  assumes "j < length sn" and "i < length blocks"
    and "block_state (blocks ! i) \<noteq> Unallocated" and "relatedId (blocks ! i) (nid (sn ! j))"
    and "\<forall>m. i < m \<and> m < length blocks \<longrightarrow>
           block_state (blocks ! m) = Unallocated \<or> \<not> relatedId (blocks ! m) (nid (sn ! j))"
  shows "nodePointingToAddress (hs_stackNodes (buildHeap c gen th wh hx blocks sn k) ! j) =
           Some (formatNumber (runningAddress heapBase (map block_size (take i blocks))))"
  using assms(2-5)
proof (induction blocks rule: rev_induct)
  case Nil
  then show ?case by simp
next
  case (snoc b bs)
  let ?h = "buildHeap c gen th wh hx bs sn k"
  have j: "j < length (hs_stackNodes ?h)" using assms(1) by (simp add: buildHeap_stack_length)
  have idj: "nid (hs_stackNodes ?h ! j) = nid (sn ! j)" using assms(1) by (rule buildHeap_stack_nid)
  show ?case
  proof (cases "i < length bs")
    case True
    have later: "\<forall>m. i < m \<and> m < length bs \<longrightarrow>
           block_state (bs ! m) = Unallocated \<or> \<not> relatedId (bs ! m) (nid (sn ! j))"
    proof (intro allI impI)
      fix m assume m: "i < m \<and> m < length bs"
      then have "i < m \<and> m < length (bs @ [b])" by simp
      with snoc.prems(4) have "block_state ((bs @ [b]) ! m) = Unallocated \<or> \<not> relatedId ((bs @ [b]) ! m) (nid (sn ! j))"
        by blast
      with m show "block_state (bs ! m) = Unallocated \<or> \<not> relatedId (bs ! m) (nid (sn ! j))"
        by (simp add: nth_append)
    qed
    from True snoc.prems have sr: "block_state (bs ! i) \<noteq> Unallocated" "relatedId (bs ! i) (nid (sn ! j))"
      by (simp_all add: nth_append)
    from True sr later have ih: "nodePointingToAddress (hs_stackNodes ?h ! j) =
        Some (formatNumber (runningAddress heapBase (map block_size (take i bs))))"
      by (rule snoc.IH)
    from True have "i < length bs \<and> length bs < length (bs @ [b])" by simp
    with snoc.prems(4) have "block_state ((bs @ [b]) ! length bs) = Unallocated
        \<or> \<not> relatedId ((bs @ [b]) ! length bs) (nid (sn ! j))" by blast
    then have "block_state b = Unallocated \<or> \<not> relatedId b (nid (sn ! j))" by simp
    then show ?thesis using j idj ih True
      by (auto simp: buildHeap_stackNodes_snoc touchNode_address)
  next
    case False
    with snoc.prems have i: "i = length bs" by simp
    with snoc.prems have "block_state b \<noteq> Unallocated" "relatedId b (nid (sn ! j))" by simp_all
    then show ?thesis using j idj i by (simp add: buildHeap_stackNodes_snoc touchNode_address)
  qed
qed


section \<open>Colour, existence and number of the stack-to-heap edges\<close>

lemma list_all2_map_eq:
  "list_all2 R xs ys \<Longrightarrow> (\<And>x y. R x y \<Longrightarrow> f x = g y) \<Longrightarrow> map f xs = map g ys"
  by (induction rule: list_all2_induct) simp_all

lemma distinct_count1:
  "distinct (map f xs) \<Longrightarrow> y \<in> f ` set xs \<Longrightarrow> length (filter (\<lambda>x. f x = y) xs) = 1"
proof (induction xs)
  case Nil
  then show ?case by simp
next
  case (Cons x xs)
  show ?case
  proof (cases "f x = y")
    case True
    from Cons.prems(1) have "f x \<notin> f ` set xs" by simp
    with True have "\<forall>z \<in> set xs. f z \<noteq> y" by blast
    then have "filter (\<lambda>x. f x = y) xs = []" by (simp add: filter_empty_conv)
    with True show ?thesis by simp
  next
    case False
    with Cons show ?thesis by auto
  qed
qed

lemma slotEdge_ends: "slotEdge e s \<Longrightarrow> edgeEnds e = slotEnds s"
  by (cases s) (simp add: slotEdge_def heapEdgeFor_def edgeEnds_def slotEnds_def)

lemma buildHeap_ends:
  "map edgeEnds (hs_connections (buildHeap c gen th wh hx blocks sn k)) =
     map slotEnds (heapSlots blocks (map nid sn))"
  using buildHeap_edges by (rule list_all2_map_eq) (rule slotEdge_ends)

lemma heapSlots_distinct:
  assumes "distinct ids"
  shows "distinct (map slotEnds (heapSlots blocks ids))"
proof (induction blocks rule: rev_induct)
  case Nil
  then show ?case by (simp add: heapSlots_def)
next
  case (snoc b bs)
  let ?new = "map (\<lambda>x. (length bs, b, x)) (filter (relatedId b) ids)"
  have eq: "map slotEnds ?new = map (\<lambda>x. (x, heapNodeId (length bs) b)) (filter (relatedId b) ids)"
    by (simp add: slotEnds_def)
  have "distinct (map (\<lambda>x. (x, heapNodeId (length bs) b)) (filter (relatedId b) ids))"
    using assms by (simp add: distinct_map inj_on_def)
  then have dn: "distinct (map slotEnds ?new)" by (simp only: eq)
  have disj: "set (map slotEnds (heapSlots bs ids)) \<inter> set (map slotEnds ?new) = {}"
  proof (rule ccontr)
    assume "set (map slotEnds (heapSlots bs ids)) \<inter> set (map slotEnds ?new) \<noteq> {}"
    then obtain p where "p \<in> set (map slotEnds (heapSlots bs ids))" "p \<in> set (map slotEnds ?new)"
      by blast
    then obtain s t where s: "s \<in> set (heapSlots bs ids)" and t: "t \<in> set ?new"
      and eq: "slotEnds s = slotEnds t"
      by (metis (no_types, lifting) image_iff list.set_map)
    obtain i b' x where s': "s = (i, b', x)" by (cases s)
    with s have "i < length bs" by (simp add: heapSlots_mem)
    moreover from t obtain y where "t = (length bs, b, y)" by auto
    with eq s' have "heapNodeId i b' = heapNodeId (length bs) b" by (simp add: slotEnds_def)
    then have "i = length bs" by (rule heapNodeId_inj)
    ultimately show False by simp
  qed
  show ?case
    unfolding heapSlots_snoc using snoc.IH dn disj by auto
qed

lemma buildHeap_edge_cases:
  assumes "e \<in> set (hs_connections (buildHeap c gen th wh hx blocks sn k))"
  shows "\<exists>i x. i < length blocks \<and> block_state (blocks ! i) \<noteq> Unallocated
    \<and> x \<in> set (map nid sn) \<and> relatedId (blocks ! i) x
    \<and> heapEdgeFor (blocks ! i) (heapNodeId i (blocks ! i)) e x"
proof -
  have "\<exists>s \<in> set (heapSlots blocks (map nid sn)). slotEdge e s"
    using buildHeap_edges assms by (rule list_all2_left)
  then obtain s where s: "s \<in> set (heapSlots blocks (map nid sn))" and r: "slotEdge e s" ..
  obtain i b x where s': "s = (i, b, x)" by (cases s)
  from s s' have "(i, b, x) \<in> set (heapSlots blocks (map nid sn))" by simp
  then have m: "i < length blocks \<and> b = blocks ! i \<and> block_state b \<noteq> Unallocated
      \<and> x \<in> set (map nid sn) \<and> relatedId b x"
    by (rule iffD1[OF heapSlots_mem])
  from r s' have "heapEdgeFor b (heapNodeId i b) e x" by (simp add: slotEdge_def)
  with m show ?thesis by blast
qed

lemma buildHeap_edge_exists:
  assumes "j < length sn" "i < length blocks" "block_state (blocks ! i) \<noteq> Unallocated"
    "relatedId (blocks ! i) (nid (sn ! j))"
  shows "\<exists>e \<in> set (hs_connections (buildHeap c gen th wh hx blocks sn k)).
           heapEdgeFor (blocks ! i) (heapNodeId i (blocks ! i)) e (nid (sn ! j))"
proof -
  from assms have "(i, blocks ! i, nid (sn ! j)) \<in> set (heapSlots blocks (map nid sn))"
    by (simp add: heapSlots_mem)
  with buildHeap_edges have "\<exists>e \<in> set (hs_connections (buildHeap c gen th wh hx blocks sn k)).
      slotEdge e (i, blocks ! i, nid (sn ! j))"
    by (rule list_all2_right)
  then show ?thesis by (simp add: slotEdge_def)
qed

lemma buildHeap_red:
  assumes "e \<in> set (hs_connections (buildHeap c gen th wh hx blocks sn k))"
    and "i < length blocks" and "target e = heapNodeId i (blocks ! i)"
    and "isDanglingId (blocks ! i) (source e)"
  shows "style_stroke e = ''red'' \<and> markerEnd_color e = ''red''"
proof -
  from buildHeap_edge_cases[OF assms(1)]
  obtain i' x where "heapEdgeFor (blocks ! i') (heapNodeId i' (blocks ! i')) e x"
    by blast
  then have t: "target e = heapNodeId i' (blocks ! i')" and x: "source e = x"
    and c: "markerEnd_color e = style_stroke e"
    and d: "isDanglingId (blocks ! i') x \<longrightarrow> style_stroke e = ''red''"
    by (simp_all add: heapEdgeFor_def)
  from t assms(3) have "heapNodeId i' (blocks ! i') = heapNodeId i (blocks ! i)" by simp
  then have "i' = i" by (rule heapNodeId_inj)
  with d x assms(4) c show ?thesis by simp
qed

lemma buildHeap_heapId:
  "i < length blocks \<Longrightarrow>
     nid (hs_heapNodes (buildHeap c gen th wh hx blocks sn k) ! i) = heapNodeId i (blocks ! i)"
  by (simp add: buildHeap_ids heapNodeId_def)

lemma buildHeap_count:
  assumes "distinct (map nid sn)" "j < length sn" "i < length blocks"
    "block_state (blocks ! i) \<noteq> Unallocated" "relatedId (blocks ! i) (nid (sn ! j))"
  shows "length (filter (\<lambda>e. source e = nid (sn ! j) \<and> target e = heapNodeId i (blocks ! i))
           (hs_connections (buildHeap c gen th wh hx blocks sn k))) = 1"
proof -
  let ?cs = "hs_connections (buildHeap c gen th wh hx blocks sn k)"
  let ?y = "(nid (sn ! j), heapNodeId i (blocks ! i))"
  have d: "distinct (map edgeEnds ?cs)"
    using assms(1) by (simp add: buildHeap_ends heapSlots_distinct)
  from buildHeap_edge_exists[OF assms(2-5)] obtain e where e: "e \<in> set ?cs"
    and "heapEdgeFor (blocks ! i) (heapNodeId i (blocks ! i)) e (nid (sn ! j))"
    by blast
  then have "edgeEnds e = ?y" by (simp add: heapEdgeFor_def edgeEnds_def)
  with e have "?y \<in> edgeEnds ` set ?cs" by (metis imageI)
  with d have "length (filter (\<lambda>e. edgeEnds e = ?y) ?cs) = 1" by (rule distinct_count1)
  then show ?thesis by (simp add: edgeEnds_def)
qed


section \<open>Dangling pointers\<close>

lemmas builder_eval =
  buildStack_def resolvePointers_def resolveOuter_def resolveInner_def variableNode_def
  pointerNode_def pointeeName_def orDefault_def lastOrNull_def calculateNodePosition_def
  getHeightFromSize_def createEdge_def set_dvalue_def set_pointingToAddress_def set_metadata_def
  buildHeap_def heapStep_def connectStep_def heapNodeOf_def generateNodeId_def
  isCurrentPointer_def isDanglingPointer_def preserveStroke_def Let_def upt_rec
  exampleConstants_def exampleColors_def exampleStack_def allocatedBlock_def freedBlock_def
  staleBlock_def examplePointerStack_def

lemma examplePointerNodes_eval:
  "examplePointerNodes =
     [\<lparr> nid = ''p'', ntype = ''memoryBlockNode'', position_x = 50, position_y = 540,
        sourcePosition = Some Right, targetPosition = None,
        data = \<lparr> nodeType = ''stack'', label = ''*p'', dvalue = [], dsize = JNum 8, dtype = ''Pointer'',
                 extraInfo = \<lparr> address = ''0xBFFFFFFF'', pointingToAddress = None,
                               pointingToLabel = None, metadata = None, isFree = None \<rparr> \<rparr>,
        width = 200, height = 160, nsize = 8 \<rparr>]"
  by (simp add: examplePointerNodes_def builder_eval js_eval)

text \<open>
  C3 (dangling coloring). In the result of the heap builder, every edge from a stack node to
  the heap node of a block whose \<open>dangling_pointer_identifiers\<close> contain the id of that
  stack node has the stroke and the marker colour \<open>red\<close>, whether or not the id is also the
  block's \<open>current_pointer_identifier\<close>. For every stack node and every block that is not
  unallocated and lists the node as dangling, such an edge exists and the metadata of the stack
  node is \<open>Dangling Pointer\<close>.
\<close>

theorem dangling_coloring:
  "(\<forall>e \<in> set (hs_connections (buildHeap c gen th wh hx blocks sn k)). \<forall>i < length blocks.
       target e = nid (hs_heapNodes (buildHeap c gen th wh hx blocks sn k) ! i)
         \<and> isDanglingId (blocks ! i) (source e)
       \<longrightarrow> style_stroke e = ''red'' \<and> markerEnd_color e = ''red'')
   \<and> (\<forall>j < length sn. \<forall>i < length blocks.
         block_state (blocks ! i) \<noteq> Unallocated \<and> isDanglingPointer (blocks ! i) (sn ! j)
         \<longrightarrow> (\<exists>e \<in> set (hs_connections (buildHeap c gen th wh hx blocks sn k)).
                 source e = nid (sn ! j)
                 \<and> target e = nid (hs_heapNodes (buildHeap c gen th wh hx blocks sn k) ! i)
                 \<and> style_stroke e = ''red'')
             \<and> nodeMetadata (hs_stackNodes (buildHeap c gen th wh hx blocks sn k) ! j)
                 = Some ''Dangling Pointer'')"
proof (intro conjI ballI allI impI)
  fix e i
  assume "e \<in> set (hs_connections (buildHeap c gen th wh hx blocks sn k))" and i: "i < length blocks"
    and "target e = nid (hs_heapNodes (buildHeap c gen th wh hx blocks sn k) ! i)
           \<and> isDanglingId (blocks ! i) (source e)"
  then have r: "style_stroke e = ''red'' \<and> markerEnd_color e = ''red''"
    using buildHeap_red[of e c gen th wh hx blocks sn k i] by (simp add: buildHeap_heapId)
  from r show "style_stroke e = ''red''" ..
  from r show "markerEnd_color e = ''red''" ..
next
  fix j i
  assume j: "j < length sn" and i: "i < length blocks"
    and h: "block_state (blocks ! i) \<noteq> Unallocated \<and> isDanglingPointer (blocks ! i) (sn ! j)"
  then have d: "isDanglingId (blocks ! i) (nid (sn ! j))" by (simp add: related_node)
  then have rel: "relatedId (blocks ! i) (nid (sn ! j))" by (simp add: relatedId_def)
  from h have u: "block_state (blocks ! i) \<noteq> Unallocated" ..
  from buildHeap_edge_exists[OF j i u rel, of c gen th wh hx k] d i
  show "\<exists>e \<in> set (hs_connections (buildHeap c gen th wh hx blocks sn k)).
          source e = nid (sn ! j)
          \<and> target e = nid (hs_heapNodes (buildHeap c gen th wh hx blocks sn k) ! i)
          \<and> style_stroke e = ''red''"
    by (auto simp: heapEdgeFor_def buildHeap_heapId)
  from j i u d
  show "nodeMetadata (hs_stackNodes (buildHeap c gen th wh hx blocks sn k) ! j) = Some ''Dangling Pointer''"
    by (rule buildHeap_metadata)
qed

theorem dangling_coloring_witness:
  "map style_stroke (hs_connections (buildHeap exampleConstants exampleColors ''dark'' 800 400
        [staleBlock] examplePointerNodes 0)) = [''red'']
   \<and> nodeMetadata (hs_stackNodes (buildHeap exampleConstants exampleColors ''dark'' 800 400
        [staleBlock] examplePointerNodes 0) ! 0) = Some ''Dangling Pointer''"
proof -
  let ?H = "buildHeap exampleConstants exampleColors ''dark'' 800 400 [staleBlock] examplePointerNodes 0"
  note t = dangling_coloring[of exampleConstants exampleColors "''dark''" 800 400 "[staleBlock]"
      examplePointerNodes 0]
  have ends: "map edgeEnds (hs_connections ?H) = [(''p'', ''0'')]"
    by (simp add: examplePointerNodes_eval builder_eval js_eval edgeEnds_def)
  then obtain e where es: "hs_connections ?H = [e]" and ee: "edgeEnds e = (''p'', ''0'')"
    by auto
  have hid: "nid (hs_heapNodes ?H ! 0) = ''0''"
    by (simp add: examplePointerNodes_eval builder_eval js_eval)
  have "e \<in> set (hs_connections ?H)" using es by simp
  moreover have "(0::nat) < length [staleBlock]" by simp
  moreover have "target e = nid (hs_heapNodes ?H ! 0) \<and> isDanglingId ([staleBlock] ! 0) (source e)"
    using ee hid by (simp add: edgeEnds_def isDanglingId_def staleBlock_def)
  ultimately have "style_stroke e = ''red''" using t by blast
  with es have a: "map style_stroke (hs_connections ?H) = [''red'']" by simp
  have "(0::nat) < length examplePointerNodes" by (simp add: examplePointerNodes_eval)
  moreover have "block_state ([staleBlock] ! 0) \<noteq> Unallocated
      \<and> isDanglingPointer ([staleBlock] ! 0) (examplePointerNodes ! 0)"
    by (simp add: examplePointerNodes_eval isDanglingPointer_def staleBlock_def)
  ultimately have "nodeMetadata (hs_stackNodes ?H ! 0) = Some ''Dangling Pointer''"
    using t by blast
  with a show ?thesis by simp
qed


section \<open>A stack node that is both current and dangling\<close>

lemma connectStep_both:
  assumes "isCurrentPointer b (cs_stackNodes st ! j)" and "isDanglingPointer b (cs_stackNodes st ! j)"
  shows "\<exists>e. cs_connections (connectStep gen th b hid st j) = cs_connections st @ [e]
            \<and> source e = nid (cs_stackNodes st ! j) \<and> target e = hid
            \<and> style_stroke e = ''red'' \<and> markerEnd_color e = ''red''"
  using assms by (simp add: connectStep_def Let_def createEdge_def)

text \<open>
  C10 (a stack node that is both current and dangling for one block). The iteration of the heap
  builder for such a pair pushes exactly one edge, and the edge is red. In the whole pass, when
  the ids of the stack nodes are distinct and the block is not unallocated, exactly one edge
  joins the stack node to the heap node of the block, every such edge is red, and the metadata
  of the stack node is \<open>Dangling Pointer\<close>.
\<close>

theorem current_and_dangling_one_edge:
  "(isCurrentPointer b (cs_stackNodes st ! j) \<and> isDanglingPointer b (cs_stackNodes st ! j)
      \<longrightarrow> (\<exists>e. cs_connections (connectStep gen th b hid st j) = cs_connections st @ [e]
                \<and> source e = nid (cs_stackNodes st ! j) \<and> target e = hid
                \<and> style_stroke e = ''red'' \<and> markerEnd_color e = ''red''))
   \<and> (distinct (map nid sn) \<longrightarrow>
        (\<forall>j < length sn. \<forall>i < length blocks.
           block_state (blocks ! i) \<noteq> Unallocated
           \<and> isCurrentPointer (blocks ! i) (sn ! j) \<and> isDanglingPointer (blocks ! i) (sn ! j)
           \<longrightarrow> length (filter (\<lambda>e. source e = nid (sn ! j)
                                  \<and> target e = nid (hs_heapNodes (buildHeap c gen th wh hx blocks sn k) ! i))
                         (hs_connections (buildHeap c gen th wh hx blocks sn k))) = 1
               \<and> (\<forall>e \<in> set (hs_connections (buildHeap c gen th wh hx blocks sn k)).
                     source e = nid (sn ! j)
                     \<and> target e = nid (hs_heapNodes (buildHeap c gen th wh hx blocks sn k) ! i)
                     \<longrightarrow> style_stroke e = ''red'' \<and> markerEnd_color e = ''red'')
               \<and> nodeMetadata (hs_stackNodes (buildHeap c gen th wh hx blocks sn k) ! j)
                   = Some ''Dangling Pointer''))"
proof (intro conjI impI allI)
  assume "isCurrentPointer b (cs_stackNodes st ! j) \<and> isDanglingPointer b (cs_stackNodes st ! j)"
  then show "\<exists>e. cs_connections (connectStep gen th b hid st j) = cs_connections st @ [e]
                \<and> source e = nid (cs_stackNodes st ! j) \<and> target e = hid
                \<and> style_stroke e = ''red'' \<and> markerEnd_color e = ''red''"
    using connectStep_both by blast
next
  fix j i
  let ?H = "buildHeap c gen th wh hx blocks sn k"
  assume dist: "distinct (map nid sn)" and j: "j < length sn" and i: "i < length blocks"
    and h: "block_state (blocks ! i) \<noteq> Unallocated
           \<and> isCurrentPointer (blocks ! i) (sn ! j) \<and> isDanglingPointer (blocks ! i) (sn ! j)"
  from h have u: "block_state (blocks ! i) \<noteq> Unallocated" ..
  from h have d: "isDanglingId (blocks ! i) (nid (sn ! j))" by (simp add: related_node)
  then have rel: "relatedId (blocks ! i) (nid (sn ! j))" by (simp add: relatedId_def)
  have hid: "nid (hs_heapNodes ?H ! i) = heapNodeId i (blocks ! i)" using i by (rule buildHeap_heapId)
  show "length (filter (\<lambda>e. source e = nid (sn ! j) \<and> target e = nid (hs_heapNodes ?H ! i))
                 (hs_connections ?H)) = 1"
    unfolding hid using dist j i u rel by (rule buildHeap_count)
  show "\<forall>e \<in> set (hs_connections ?H).
          source e = nid (sn ! j) \<and> target e = nid (hs_heapNodes ?H ! i)
          \<longrightarrow> style_stroke e = ''red'' \<and> markerEnd_color e = ''red''"
  proof (intro ballI impI)
    fix e assume e: "e \<in> set (hs_connections ?H)"
      and st: "source e = nid (sn ! j) \<and> target e = nid (hs_heapNodes ?H ! i)"
    from st hid have "target e = heapNodeId i (blocks ! i)" by simp
    moreover from st d have "isDanglingId (blocks ! i) (source e)" by simp
    ultimately show "style_stroke e = ''red'' \<and> markerEnd_color e = ''red''"
      using e i buildHeap_red by blast
  qed
  from j i u d show "nodeMetadata (hs_stackNodes ?H ! j) = Some ''Dangling Pointer''"
    by (rule buildHeap_metadata)
qed

theorem current_and_dangling_one_edge_witness:
  "length (filter (\<lambda>e. source e = ''p'' \<and> target e = ''0'')
      (hs_connections (buildHeap exampleConstants exampleColors ''dark'' 800 400
         [staleBlock] examplePointerNodes 0))) = 1
   \<and> nodeMetadata (hs_stackNodes (buildHeap exampleConstants exampleColors ''dark'' 800 400
        [staleBlock] examplePointerNodes 0) ! 0) = Some ''Dangling Pointer''
   \<and> length (cs_connections (connectStep exampleColors ''dark'' staleBlock ''0''
        \<lparr> cs_stackNodes = examplePointerNodes, cs_connections = [],
          cs_heapNode = hd examplePointerNodes, cs_draws = 0 \<rparr> 0)) = 1"
proof -
  let ?H = "buildHeap exampleConstants exampleColors ''dark'' 800 400 [staleBlock] examplePointerNodes 0"
  let ?st = "\<lparr> cs_stackNodes = examplePointerNodes, cs_connections = [],
          cs_heapNode = hd examplePointerNodes, cs_draws = 0 \<rparr>"
  note t = current_and_dangling_one_edge[of staleBlock
      "\<lparr> cs_stackNodes = examplePointerNodes, cs_connections = [],
         cs_heapNode = hd examplePointerNodes, cs_draws = 0 \<rparr>" 0
      exampleColors "''dark''" "''0''" examplePointerNodes "[staleBlock]"
      exampleConstants 800 400 0]
  have hid: "nid (hs_heapNodes ?H ! 0) = ''0''"
    by (simp add: examplePointerNodes_eval builder_eval js_eval)
  have pid: "nid (examplePointerNodes ! 0) = ''p''"
    by (simp add: examplePointerNodes_eval)
  have "distinct (map nid examplePointerNodes)" by (simp add: examplePointerNodes_eval)
  moreover have "(0::nat) < length examplePointerNodes" by (simp add: examplePointerNodes_eval)
  moreover have "(0::nat) < length [staleBlock]" by simp
  moreover have "block_state ([staleBlock] ! 0) \<noteq> Unallocated
      \<and> isCurrentPointer ([staleBlock] ! 0) (examplePointerNodes ! 0)
      \<and> isDanglingPointer ([staleBlock] ! 0) (examplePointerNodes ! 0)"
    by (simp add: examplePointerNodes_eval isCurrentPointer_def isDanglingPointer_def staleBlock_def)
  ultimately have
    "length (filter (\<lambda>e. source e = nid (examplePointerNodes ! 0) \<and> target e = nid (hs_heapNodes ?H ! 0))
        (hs_connections ?H)) = 1
     \<and> nodeMetadata (hs_stackNodes ?H ! 0) = Some ''Dangling Pointer''"
    using t by blast
  then have global: "length (filter (\<lambda>e. source e = ''p'' \<and> target e = ''0'') (hs_connections ?H)) = 1
     \<and> nodeMetadata (hs_stackNodes ?H ! 0) = Some ''Dangling Pointer''"
    by (simp only: hid pid)
  have "isCurrentPointer staleBlock (cs_stackNodes ?st ! 0) \<and> isDanglingPointer staleBlock (cs_stackNodes ?st ! 0)"
    by (simp add: examplePointerNodes_eval isCurrentPointer_def isDanglingPointer_def staleBlock_def)
  with t have "\<exists>e. cs_connections (connectStep exampleColors ''dark'' staleBlock ''0'' ?st 0)
                 = cs_connections ?st @ [e]"
    by blast
  then have "length (cs_connections (connectStep exampleColors ''dark'' staleBlock ''0'' ?st 0)) = 1"
    by auto
  with global show ?thesis by simp
qed


section \<open>Heap ids and active edges\<close>

lemma buildHeap_heapAddress:
  "i < length blocks \<Longrightarrow>
     nodeAddress (hs_heapNodes (buildHeap c gen th wh hx blocks sn k) ! i) =
       formatNumber (runningAddress heapBase (map block_size (take i blocks)))"
  by (rule buildHeap_address_nth)

text \<open>
  C6 (heap ids and active edges), as the code has it. The id of the heap node at index \<open>i\<close> is
  the decimal index for an allocated or leaked block, \<open>free-\<close> and the index for a free block,
  \<open>unallocated-\<close> and the index for an unallocated block. For every block that is not
  unallocated and every stack node whose id is the block's current pointer, an edge with id
  \<open>e<stackId>-<heapId>\<close> joins the two; and the stack node records the address of that heap
  node when no later block that is not unallocated names the stack node as current or
  dangling (a later one overwrites the record). For the stack \<open>[Pointer p 8 null]\<close> and the heap
  \<open>[{size 4, Allocated, current p}]\<close> there is one stack node, one heap node of id \<open>0\<close> and one
  edge, \<open>ep-0\<close>, from \<open>p\<close> to \<open>0\<close>, with the colour drawn for it.
\<close>

theorem active_heap_edges:
  "(\<forall>i < length blocks.
      nid (hs_heapNodes (buildHeap c gen th wh hx blocks sn k) ! i) =
        (case block_state (blocks ! i) of
           Allocated \<Rightarrow> toString10 i
         | Leaked \<Rightarrow> toString10 i
         | Free \<Rightarrow> ''free-'' @ toString10 i
         | Unallocated \<Rightarrow> ''unallocated-'' @ toString10 i))
   \<and> (\<forall>j < length sn. \<forall>i < length blocks.
         block_state (blocks ! i) \<noteq> Unallocated \<and> isCurrentPointer (blocks ! i) (sn ! j)
         \<longrightarrow> (\<exists>e \<in> set (hs_connections (buildHeap c gen th wh hx blocks sn k)).
                 eid e = ''e'' @ nid (sn ! j) @ ''-'' @ nid (hs_heapNodes (buildHeap c gen th wh hx blocks sn k) ! i)
                 \<and> source e = nid (sn ! j)
                 \<and> target e = nid (hs_heapNodes (buildHeap c gen th wh hx blocks sn k) ! i))
             \<and> ((\<forall>m. i < m \<and> m < length blocks \<longrightarrow>
                     block_state (blocks ! m) = Unallocated \<or> \<not> relatedId (blocks ! m) (nid (sn ! j)))
                  \<longrightarrow> nodePointingToAddress (hs_stackNodes (buildHeap c gen th wh hx blocks sn k) ! j)
                        = Some (nodeAddress (hs_heapNodes (buildHeap c gen th wh hx blocks sn k) ! i))))
   \<and> map nid (rs_nodes (buildStack c gen th wh sx examplePointerStack k)) = [''p'']
   \<and> map nid (hs_heapNodes (buildHeap c gen th wh hx [allocatedBlock]
                 (rs_nodes (buildStack c gen th wh sx examplePointerStack k)) k')) = [''0'']
   \<and> hs_connections (buildHeap c gen th wh hx [allocatedBlock]
                 (rs_nodes (buildStack c gen th wh sx examplePointerStack k)) k')
       = [createEdge ''ep-0'' ''straight'' ''p'' ''0'' (gen th k')]"
proof (intro conjI allI impI)
  fix i assume i: "i < length blocks"
  then show "nid (hs_heapNodes (buildHeap c gen th wh hx blocks sn k) ! i) =
        (case block_state (blocks ! i) of
           Allocated \<Rightarrow> toString10 i
         | Leaked \<Rightarrow> toString10 i
         | Free \<Rightarrow> ''free-'' @ toString10 i
         | Unallocated \<Rightarrow> ''unallocated-'' @ toString10 i)"
    by (simp only: buildHeap_heapId heapNodeId_cases)
next
  fix j i
  let ?H = "buildHeap c gen th wh hx blocks sn k"
  assume j: "j < length sn" and i: "i < length blocks"
    and h: "block_state (blocks ! i) \<noteq> Unallocated \<and> isCurrentPointer (blocks ! i) (sn ! j)"
  from h have u: "block_state (blocks ! i) \<noteq> Unallocated" ..
  from h have rel: "relatedId (blocks ! i) (nid (sn ! j))" by (simp add: related_node relatedId_def)
  have hid: "nid (hs_heapNodes ?H ! i) = heapNodeId i (blocks ! i)" using i by (rule buildHeap_heapId)
  from buildHeap_edge_exists[OF j i u rel, of c gen th wh hx k]
  show "\<exists>e \<in> set (hs_connections ?H).
          eid e = ''e'' @ nid (sn ! j) @ ''-'' @ nid (hs_heapNodes ?H ! i)
          \<and> source e = nid (sn ! j) \<and> target e = nid (hs_heapNodes ?H ! i)"
    unfolding hid by (auto simp: heapEdgeFor_def)
  assume later: "\<forall>m. i < m \<and> m < length blocks \<longrightarrow>
            block_state (blocks ! m) = Unallocated \<or> \<not> relatedId (blocks ! m) (nid (sn ! j))"
  have "nodePointingToAddress (hs_stackNodes ?H ! j) =
          Some (formatNumber (runningAddress heapBase (map block_size (take i blocks))))"
    using j i u rel later by (rule buildHeap_pointingTo)
  then show "nodePointingToAddress (hs_stackNodes ?H ! j) = Some (nodeAddress (hs_heapNodes ?H ! i))"
    using i by (simp add: buildHeap_heapAddress)
next
  show "map nid (rs_nodes (buildStack c gen th wh sx examplePointerStack k)) = [''p'']"
    by (simp add: builder_eval)
  show "map nid (hs_heapNodes (buildHeap c gen th wh hx [allocatedBlock]
                 (rs_nodes (buildStack c gen th wh sx examplePointerStack k)) k')) = [''0'']"
    by (simp add: builder_eval js_eval)
  show "hs_connections (buildHeap c gen th wh hx [allocatedBlock]
                 (rs_nodes (buildStack c gen th wh sx examplePointerStack k)) k')
       = [createEdge ''ep-0'' ''straight'' ''p'' ''0'' (gen th k')]"
    by (simp add: builder_eval js_eval)
qed


theorem active_heap_edges_witness:
  "nid (hs_heapNodes (buildHeap exampleConstants exampleColors ''dark'' 800 400
          [freedBlock, allocatedBlock] examplePointerNodes 0) ! 0) = ''free-0''
   \<and> nodePointingToAddress (hs_stackNodes (buildHeap exampleConstants exampleColors ''dark'' 800 400
          [freedBlock, allocatedBlock] examplePointerNodes 0) ! 0) = Some ''0x400004''
   \<and> (\<exists>e \<in> set (hs_connections (buildHeap exampleConstants exampleColors ''dark'' 800 400
          [freedBlock, allocatedBlock] examplePointerNodes 0)). eid e = ''ep-1'')"
proof -
  let ?bs = "[freedBlock, allocatedBlock]"
  let ?H = "buildHeap exampleConstants exampleColors ''dark'' 800 400 ?bs examplePointerNodes 0"
  note t = active_heap_edges[where blocks = ?bs and c = exampleConstants and gen = exampleColors
      and th = "''dark''" and wh = 800 and hx = 400 and sn = examplePointerNodes and k = 0]
  have j: "(0::nat) < length examplePointerNodes" by (simp add: examplePointerNodes_eval)
  have pid: "nid (examplePointerNodes ! 0) = ''p''" by (simp add: examplePointerNodes_eval)
  have i0: "(0::nat) < length ?bs" and i1: "(1::nat) < length ?bs" by simp_all
  from t i0 have "nid (hs_heapNodes ?H ! 0) =
        (case block_state (?bs ! 0) of
           Allocated \<Rightarrow> toString10 0
         | Leaked \<Rightarrow> toString10 0
         | Free \<Rightarrow> ''free-'' @ toString10 0
         | Unallocated \<Rightarrow> ''unallocated-'' @ toString10 0)" by blast
  then have a: "nid (hs_heapNodes ?H ! 0) = ''free-0''"
    by (simp add: freedBlock_def js_eval)
  from t i1 have "nid (hs_heapNodes ?H ! 1) =
        (case block_state (?bs ! 1) of
           Allocated \<Rightarrow> toString10 1
         | Leaked \<Rightarrow> toString10 1
         | Free \<Rightarrow> ''free-'' @ toString10 1
         | Unallocated \<Rightarrow> ''unallocated-'' @ toString10 1)" by blast
  then have hid: "nid (hs_heapNodes ?H ! 1) = ''1''"
    by (simp add: allocatedBlock_def js_eval)
  have cur: "block_state (?bs ! 1) \<noteq> Unallocated \<and> isCurrentPointer (?bs ! 1) (examplePointerNodes ! 0)"
    by (simp add: examplePointerNodes_eval isCurrentPointer_def allocatedBlock_def)
  have later: "\<forall>m. 1 < m \<and> m < length ?bs \<longrightarrow>
       block_state (?bs ! m) = Unallocated \<or> \<not> relatedId (?bs ! m) (nid (examplePointerNodes ! 0))"
    by auto
  from t j i1 cur have
    "(\<exists>e \<in> set (hs_connections ?H).
        eid e = ''e'' @ nid (examplePointerNodes ! 0) @ ''-'' @ nid (hs_heapNodes ?H ! 1)
        \<and> source e = nid (examplePointerNodes ! 0) \<and> target e = nid (hs_heapNodes ?H ! 1))
     \<and> ((\<forall>m. 1 < m \<and> m < length ?bs \<longrightarrow>
             block_state (?bs ! m) = Unallocated \<or> \<not> relatedId (?bs ! m) (nid (examplePointerNodes ! 0)))
          \<longrightarrow> nodePointingToAddress (hs_stackNodes ?H ! 0) = Some (nodeAddress (hs_heapNodes ?H ! 1)))"
    by blast
  with later have e: "\<exists>e \<in> set (hs_connections ?H).
        eid e = ''e'' @ nid (examplePointerNodes ! 0) @ ''-'' @ nid (hs_heapNodes ?H ! 1)"
    and p: "nodePointingToAddress (hs_stackNodes ?H ! 0) = Some (nodeAddress (hs_heapNodes ?H ! 1))"
    by blast+
  have "nodeAddress (hs_heapNodes ?H ! 1) = ''0x400004''"
    by (simp add: buildHeap_heapAddress freedBlock_def js_eval)
  with p have b: "nodePointingToAddress (hs_stackNodes ?H ! 0) = Some ''0x400004''" by simp
  from e have "\<exists>e \<in> set (hs_connections ?H). eid e = ''ep-1''" unfolding pid hid by simp
  with a b show ?thesis by simp
qed

text \<open>
  C6 as it was stated does not hold: with the heap \<open>[{Allocated, current p}, {Free, dangling [p]}]\<close>
  the first block is not unallocated and \<open>p\<close> is its current pointer, yet after the pass the
  stack node \<open>p\<close> records \<open>0x400004\<close>, the address of the second heap node, and not
  \<open>0x400000\<close>, the address of the first.
\<close>

theorem active_heap_edges_counterexample:
  "block_state ([allocatedBlock, freedBlock] ! 0) \<noteq> Unallocated
   \<and> isCurrentPointer ([allocatedBlock, freedBlock] ! 0) (examplePointerNodes ! 0)
   \<and> nodeAddress (hs_heapNodes (buildHeap exampleConstants exampleColors ''dark'' 800 400
         [allocatedBlock, freedBlock] examplePointerNodes 0) ! 0) = ''0x400000''
   \<and> nodePointingToAddress (hs_stackNodes (buildHeap exampleConstants exampleColors ''dark'' 800 400
         [allocatedBlock, freedBlock] examplePointerNodes 0) ! 0) = Some ''0x400004''"
  by (simp add: examplePointerNodes_eval builder_eval js_eval nodeAddress_def nodePointingToAddress_def)


section \<open>Resolution of pointers between stack nodes\<close>

lemma frozen_label:
  "frozenPart a = frozenPart b \<Longrightarrow> nodeLabelTarget a = nodeLabelTarget b"
  unfolding nodeLabelTarget_def by (rule frozen_fields)

lemma resolveInner_value:
  assumes "i < length (rs_nodes st)" "j < length (rs_nodes st)" "m < length (rs_nodes st)"
  shows "nodeValue (rs_nodes (resolveInner gen th i st j) ! m) =
           (if Some (nid (rs_nodes st ! j)) = nodeLabelTarget (rs_nodes st ! i) \<and> m = i
            then ''&'' @ the (nodeLabelTarget (rs_nodes st ! i)) else nodeValue (rs_nodes st ! m))"
    and "nodePointingToAddress (rs_nodes (resolveInner gen th i st j) ! m) =
           (if Some (nid (rs_nodes st ! j)) = nodeLabelTarget (rs_nodes st ! i) \<and> m = i
            then Some (nodeAddress (rs_nodes st ! j)) else nodePointingToAddress (rs_nodes st ! m))"
  using assms
  by (auto simp: resolveInner_def Let_def nth_list_update nodeValue_def nodePointingToAddress_def
        nodeLabelTarget_def nodeAddress_def set_dvalue_def set_pointingToAddress_def)

lemma resolveInner_anchors:
  assumes "i < length (rs_nodes st)" "j < length (rs_nodes st)" "m < length (rs_nodes st)"
  shows "sourcePosition (rs_nodes (resolveInner gen th i st j) ! m) =
           (if Some (nid (rs_nodes st ! j)) = nodeLabelTarget (rs_nodes st ! i) \<and> m = j
            then Some Right else sourcePosition (rs_nodes st ! m))"
    and "targetPosition (rs_nodes (resolveInner gen th i st j) ! m) =
           (if Some (nid (rs_nodes st ! j)) = nodeLabelTarget (rs_nodes st ! i) \<and> m = j
            then Some Right else targetPosition (rs_nodes st ! m))"
  using assms
  by (auto simp: resolveInner_def Let_def nth_list_update nodeLabelTarget_def set_dvalue_def
        set_pointingToAddress_def)

lemma resolveInner_edges:
  "\<exists>new. rs_connections (resolveInner gen th i st j) = rs_connections st @ new
        \<and> list_all2 stackEdgeFor new
             (map (\<lambda>x. (nid (rs_nodes st ! i), x))
                (filter (\<lambda>x. Some x = nodeLabelTarget (rs_nodes st ! i)) [nid (rs_nodes st ! j)]))"
  by (simp add: resolveInner_def Let_def stackEdgeFor_def createEdge_def nodeLabelTarget_def)


section \<open>The edges between stack nodes\<close>

lemma frozen_nth_fields:
  assumes "map frozenPart xs = map frozenPart ys" and "m < length ys"
  shows "nid (xs ! m) = nid (ys ! m)" "nodeLabelTarget (xs ! m) = nodeLabelTarget (ys ! m)"
    "dtype (data (xs ! m)) = dtype (data (ys ! m))" "nodeAddress (xs ! m) = nodeAddress (ys ! m)"
proof -
  have "length xs = length ys" using assms(1) by (rule frozen_length)
  with assms(2) have "m < length xs" by simp
  with assms(1) have f: "frozenPart (xs ! m) = frozenPart (ys ! m)" by (rule frozen_nth)
  from f show "nid (xs ! m) = nid (ys ! m)" by (rule frozen_fields)
  from f show "nodeLabelTarget (xs ! m) = nodeLabelTarget (ys ! m)" by (rule frozen_label)
  from f show "dtype (data (xs ! m)) = dtype (data (ys ! m))" by (rule frozen_fields)
  from f show "nodeAddress (xs ! m) = nodeAddress (ys ! m)" by (rule frozen_fields)
qed

lemma resolveFold_edges:
  assumes "map frozenPart (rs_nodes st) = map frozenPart ns0" and "i < length ns0"
    and "\<forall>j \<in> set js. j < length ns0"
  shows "\<exists>new. rs_connections (foldl (resolveInner gen th i) st js) = rs_connections st @ new
        \<and> list_all2 stackEdgeFor new
             (map (\<lambda>x. (nid (ns0 ! i), x))
                (filter (\<lambda>x. Some x = nodeLabelTarget (ns0 ! i)) (map (\<lambda>j. nid (ns0 ! j)) js)))"
  using assms(1,3)
proof (induction js arbitrary: st)
  case Nil
  then show ?case by simp
next
  case (Cons j js)
  let ?P = "\<lambda>x. Some x = nodeLabelTarget (ns0 ! i)"
  let ?st = "resolveInner gen th i st j"
  from Cons.prems have j: "j < length ns0" by simp
  note fi = frozen_nth_fields[OF Cons.prems(1) assms(2)]
  note fj = frozen_nth_fields[OF Cons.prems(1) j]
  obtain new1 where n1: "rs_connections ?st = rs_connections st @ new1"
    and l1: "list_all2 stackEdgeFor new1 (map (\<lambda>x. (nid (ns0 ! i), x)) (filter ?P [nid (ns0 ! j)]))"
    using resolveInner_edges[of gen th i st j] by (auto simp only: fi fj)
  have "map frozenPart (rs_nodes ?st) = map frozenPart ns0"
    using Cons.prems(1) by (simp add: resolveInner_frozen)
  moreover have "\<forall>j \<in> set js. j < length ns0" using Cons.prems by simp
  ultimately obtain new2 where n2: "rs_connections (foldl (resolveInner gen th i) ?st js) = rs_connections ?st @ new2"
    and l2: "list_all2 stackEdgeFor new2 (map (\<lambda>x. (nid (ns0 ! i), x)) (filter ?P (map (\<lambda>j. nid (ns0 ! j)) js)))"
    using Cons.IH by blast
  have "list_all2 stackEdgeFor (new1 @ new2)
          (map (\<lambda>x. (nid (ns0 ! i), x)) (filter ?P [nid (ns0 ! j)])
           @ map (\<lambda>x. (nid (ns0 ! i), x)) (filter ?P (map (\<lambda>j. nid (ns0 ! j)) js)))"
    using l1 l2 by (rule list_all2_appendI)
  then have "list_all2 stackEdgeFor (new1 @ new2)
          (map (\<lambda>x. (nid (ns0 ! i), x)) (filter ?P (map (\<lambda>j. nid (ns0 ! j)) (j # js))))"
    by (cases "?P (nid (ns0 ! j))") simp_all
  moreover have "rs_connections (foldl (resolveInner gen th i) st (j # js)) = rs_connections st @ (new1 @ new2)"
    using n1 n2 by simp
  ultimately show ?case by blast
qed

lemma map_nth_fun: "map (\<lambda>j. f (xs ! j)) [0..<length xs] = map f xs"
proof -
  have "map (\<lambda>j. f (xs ! j)) [0..<length xs] = map f (map ((!) xs) [0..<length xs])"
    by (simp add: comp_def)
  then show ?thesis by (simp add: map_nth)
qed

lemma resolveOuter_edges:
  assumes "map frozenPart (rs_nodes st) = map frozenPart ns0" and "i < length ns0"
  shows "\<exists>new. rs_connections (resolveOuter gen th st i) = rs_connections st @ new
        \<and> list_all2 stackEdgeFor new (pointerSlots (map nid ns0) (ns0 ! i))"
proof (cases "dtype (data (ns0 ! i)) = ''Pointer''")
  case False
  then show ?thesis
    using frozen_nth_fields(3)[OF assms] by (simp add: resolveOuter_def pointerSlots_def)
next
  case True
  have len: "length (rs_nodes st) = length ns0" using assms(1) by (rule frozen_length)
  have "\<forall>j \<in> set [0..<length ns0]. j < length ns0" by simp
  with assms obtain new where
    n: "rs_connections (foldl (resolveInner gen th i) st [0..<length ns0]) = rs_connections st @ new"
    and l: "list_all2 stackEdgeFor new
             (map (\<lambda>x. (nid (ns0 ! i), x))
                (filter (\<lambda>x. Some x = nodeLabelTarget (ns0 ! i)) (map (\<lambda>j. nid (ns0 ! j)) [0..<length ns0])))"
    using resolveFold_edges by blast
  from l have "list_all2 stackEdgeFor new (pointerSlots (map nid ns0) (ns0 ! i))"
    using True by (simp add: pointerSlots_def map_nth_fun)
  moreover have "rs_connections (resolveOuter gen th st i) = rs_connections st @ new"
    using True n len frozen_nth_fields(3)[OF assms] by (simp add: resolveOuter_def)
  ultimately show ?thesis by blast
qed

lemma resolveOuterFold_edges:
  assumes "map frozenPart (rs_nodes st) = map frozenPart ns0" and "\<forall>i \<in> set is. i < length ns0"
  shows "\<exists>new. rs_connections (foldl (resolveOuter gen th) st is) = rs_connections st @ new
        \<and> list_all2 stackEdgeFor new (concat (map (\<lambda>i. pointerSlots (map nid ns0) (ns0 ! i)) is))"
  using assms
proof (induction "is" arbitrary: st)
  case Nil
  then show ?case by simp
next
  case (Cons i "is")
  let ?st = "resolveOuter gen th st i"
  from Cons.prems have i: "i < length ns0" by simp
  obtain new1 where n1: "rs_connections ?st = rs_connections st @ new1"
    and l1: "list_all2 stackEdgeFor new1 (pointerSlots (map nid ns0) (ns0 ! i))"
    using resolveOuter_edges[OF Cons.prems(1) i] by blast
  have "map frozenPart (rs_nodes ?st) = map frozenPart ns0"
    using Cons.prems(1) by (simp add: resolveOuter_frozen)
  moreover have "\<forall>i \<in> set is. i < length ns0" using Cons.prems by simp
  ultimately obtain new2 where n2: "rs_connections (foldl (resolveOuter gen th) ?st is) = rs_connections ?st @ new2"
    and l2: "list_all2 stackEdgeFor new2 (concat (map (\<lambda>i. pointerSlots (map nid ns0) (ns0 ! i)) is))"
    using Cons.IH by blast
  have "list_all2 stackEdgeFor (new1 @ new2)
          (pointerSlots (map nid ns0) (ns0 ! i) @ concat (map (\<lambda>i. pointerSlots (map nid ns0) (ns0 ! i)) is))"
    using l1 l2 by (rule list_all2_appendI)
  moreover have "rs_connections (foldl (resolveOuter gen th) st (i # is)) = rs_connections st @ (new1 @ new2)"
    using n1 n2 by simp
  ultimately show ?case by auto
qed

lemma resolvePointers_edges:
  "list_all2 stackEdgeFor (rs_connections (resolvePointers gen th ns0 k)) (stackSlots ns0)"
proof -
  let ?st = "\<lparr> rs_nodes = ns0, rs_connections = [], rs_draws = k \<rparr>"
  have "map frozenPart (rs_nodes ?st) = map frozenPart ns0" by simp
  moreover have "\<forall>i \<in> set [0..<length ns0]. i < length ns0" by simp
  ultimately obtain new where "rs_connections (foldl (resolveOuter gen th) ?st [0..<length ns0]) = rs_connections ?st @ new"
    and "list_all2 stackEdgeFor new (concat (map (\<lambda>i. pointerSlots (map nid ns0) (ns0 ! i)) [0..<length ns0]))"
    using resolveOuterFold_edges by blast
  then show ?thesis
    by (simp add: resolvePointers_def stackSlots_def map_nth_fun)
qed

lemma stackSlots_distinct_aux:
  assumes "distinct ids"
  shows "distinct (map nid ns) \<Longrightarrow> distinct (concat (map (pointerSlots ids) ns))"
proof (induction ns)
  case Nil
  then show ?case by simp
next
  case (Cons n ns)
  have d1: "distinct (pointerSlots ids n)"
    using assms by (simp add: pointerSlots_def distinct_map inj_on_def)
  have d2: "distinct (concat (map (pointerSlots ids) ns))" using Cons by simp
  have fst1: "\<forall>p \<in> set (pointerSlots ids n). fst p = nid n"
    by (auto simp: pointerSlots_def)
  have fst2: "\<forall>p \<in> set (concat (map (pointerSlots ids) ns)). fst p \<in> nid ` set ns"
    by (auto simp: pointerSlots_def split: if_splits)
  from Cons.prems have "nid n \<notin> nid ` set ns" by simp
  have "set (pointerSlots ids n) \<inter> set (concat (map (pointerSlots ids) ns)) = {}"
  proof (rule ccontr)
    assume "set (pointerSlots ids n) \<inter> set (concat (map (pointerSlots ids) ns)) \<noteq> {}"
    then obtain p where p1: "p \<in> set (pointerSlots ids n)"
      and p2: "p \<in> set (concat (map (pointerSlots ids) ns))" by blast
    from fst1 p1 have "fst p = nid n" by (rule bspec)
    moreover from fst2 p2 have "fst p \<in> nid ` set ns" by (rule bspec)
    ultimately show False using \<open>nid n \<notin> nid ` set ns\<close> by simp
  qed
  with d1 d2 show ?case by simp
qed

lemma stackSlots_distinct:
  "distinct (map nid ns) \<Longrightarrow> distinct (stackSlots ns)"
  unfolding stackSlots_def by (rule stackSlots_distinct_aux)

lemma stackSlots_memI:
  assumes "n \<in> set ns" "dtype (data n) = ''Pointer''" "nodeLabelTarget n = Some x" "x \<in> nid ` set ns"
  shows "(nid n, x) \<in> set (stackSlots ns)"
proof -
  from assms(3,4) have "x \<in> set (filter (\<lambda>x. Some x = nodeLabelTarget n) (map nid ns))" by simp
  then have "(nid n, x) \<in> set (pointerSlots (map nid ns) n)"
    using assms(2) by (simp add: pointerSlots_def)
  with assms(1) show ?thesis by (auto simp: stackSlots_def)
qed

lemma stackEdge_ends: "stackEdgeFor e s \<Longrightarrow> edgeEnds e = s"
  by (cases s) (simp add: stackEdgeFor_def edgeEnds_def)

lemma resolvePointers_ends:
  "map edgeEnds (rs_connections (resolvePointers gen th ns0 k)) = stackSlots ns0"
proof -
  have "map edgeEnds (rs_connections (resolvePointers gen th ns0 k)) = map (\<lambda>s. s) (stackSlots ns0)"
    using resolvePointers_edges by (rule list_all2_map_eq) (rule stackEdge_ends)
  then show ?thesis by simp
qed


section \<open>The nodes after the resolution of pointers\<close>

lemma distinct_nid_index:
  assumes "distinct (map nid ns)" "a < length ns" "b < length ns" "nid (ns ! a) = nid (ns ! b)"
  shows "a = b"
proof -
  from assms(2,3,4) have "map nid ns ! a = map nid ns ! b" by simp
  moreover have "a < length (map nid ns)" "b < length (map nid ns)" using assms(2,3) by simp_all
  ultimately show ?thesis using assms(1) nth_eq_iff_index_eq by blast
qed

lemma resolveInner_resolved_stable:
  assumes inv: "map frozenPart (rs_nodes st) = map frozenPart ns0"
    and dist: "distinct (map nid ns0)"
    and i: "i < length ns0" and j: "j < length ns0" and i': "i' < length ns0" and j': "j' < length ns0"
    and lbl: "nodeLabelTarget (ns0 ! i) = Some (nid (ns0 ! j))"
    and q: "resolvedAt ns0 i j (rs_nodes st)"
  shows "resolvedAt ns0 i j (rs_nodes (resolveInner gen th i' st j'))"
proof -
  have len: "length (rs_nodes st) = length ns0" using inv by (rule frozen_length)
  note fi' = frozen_nth_fields[OF inv i']
  note fj' = frozen_nth_fields[OF inv j']
  let ?match = "Some (nid (ns0 ! j')) = nodeLabelTarget (ns0 ! i')"
  have v: "nodeValue (rs_nodes (resolveInner gen th i' st j') ! i) =
             (if ?match \<and> i = i' then ''&'' @ the (nodeLabelTarget (ns0 ! i')) else nodeValue (rs_nodes st ! i))"
    using resolveInner_value(1)[of i' st j' i gen th] i i' j' len by (simp add: fi' fj')
  have p: "nodePointingToAddress (rs_nodes (resolveInner gen th i' st j') ! i) =
             (if ?match \<and> i = i' then Some (nodeAddress (ns0 ! j')) else nodePointingToAddress (rs_nodes st ! i))"
    using resolveInner_value(2)[of i' st j' i gen th] i i' j' len by (simp add: fi' fj')
  have s: "sourcePosition (rs_nodes (resolveInner gen th i' st j') ! j) =
             (if ?match \<and> j = j' then Some Right else sourcePosition (rs_nodes st ! j))"
    using resolveInner_anchors(1)[of i' st j' j gen th] j i' j' len by (simp add: fi' fj')
  have t: "targetPosition (rs_nodes (resolveInner gen th i' st j') ! j) =
             (if ?match \<and> j = j' then Some Right else targetPosition (rs_nodes st ! j))"
    using resolveInner_anchors(2)[of i' st j' j gen th] j i' j' len by (simp add: fi' fj')
  have same: "j' = j" if "?match" "i = i'"
  proof -
    from that lbl have "nid (ns0 ! j') = nid (ns0 ! j)" by simp
    with dist j' j show ?thesis by (rule distinct_nid_index)
  qed
  from lbl have lthe: "the (nodeLabelTarget (ns0 ! i)) = nid (ns0 ! j)" by simp
  show ?thesis
    using q lthe same unfolding resolvedAt_def v p s t by auto
qed

lemma resolveInner_resolved_est:
  assumes inv: "map frozenPart (rs_nodes st) = map frozenPart ns0"
    and i: "i < length ns0" and j: "j < length ns0"
    and lbl: "nodeLabelTarget (ns0 ! i) = Some (nid (ns0 ! j))"
  shows "resolvedAt ns0 i j (rs_nodes (resolveInner gen th i st j))"
proof -
  have len: "length (rs_nodes st) = length ns0" using inv by (rule frozen_length)
  note fi = frozen_nth_fields[OF inv i]
  note fj = frozen_nth_fields[OF inv j]
  have "nodeValue (rs_nodes (resolveInner gen th i st j) ! i) = ''&'' @ nid (ns0 ! j)"
    using resolveInner_value(1)[of i st j i gen th] i j len lbl by (simp add: fi fj)
  moreover have "nodePointingToAddress (rs_nodes (resolveInner gen th i st j) ! i) = Some (nodeAddress (ns0 ! j))"
    using resolveInner_value(2)[of i st j i gen th] i j len lbl by (simp add: fi fj)
  moreover have "sourcePosition (rs_nodes (resolveInner gen th i st j) ! j) = Some Right"
    using resolveInner_anchors(1)[of i st j j gen th] i j len lbl by (simp add: fi fj)
  moreover have "targetPosition (rs_nodes (resolveInner gen th i st j) ! j) = Some Right"
    using resolveInner_anchors(2)[of i st j j gen th] i j len lbl by (simp add: fi fj)
  ultimately show ?thesis by (simp add: resolvedAt_def)
qed

lemma resolveOuter_resolved_stable:
  assumes inv: "map frozenPart (rs_nodes st) = map frozenPart ns0"
    and dist: "distinct (map nid ns0)"
    and i: "i < length ns0" and j: "j < length ns0" and i': "i' < length ns0"
    and lbl: "nodeLabelTarget (ns0 ! i) = Some (nid (ns0 ! j))"
    and q: "resolvedAt ns0 i j (rs_nodes st)"
  shows "resolvedAt ns0 i j (rs_nodes (resolveOuter gen th st i'))"
proof (cases "dtype (data (rs_nodes st ! i')) = ''Pointer''")
  case False
  with q show ?thesis by (simp add: resolveOuter_def)
next
  case True
  let ?I = "\<lambda>s::resolveState. map frozenPart (rs_nodes s) = map frozenPart ns0 \<and> resolvedAt ns0 i j (rs_nodes s)"
  have "?I (foldl (resolveInner gen th i') st [0..<length (rs_nodes st)])"
  proof (rule foldl_inv)
    show "?I st" using inv q by simp
  next
    fix s x assume s: "?I s" and "x \<in> set [0..<length (rs_nodes st)]"
    then have x: "x < length ns0" using frozen_length[OF inv] by simp
    from s have "map frozenPart (rs_nodes (resolveInner gen th i' s x)) = map frozenPart ns0"
      by (simp add: resolveInner_frozen)
    moreover from s have "resolvedAt ns0 i j (rs_nodes (resolveInner gen th i' s x))"
      using dist i j i' x lbl by (intro resolveInner_resolved_stable) simp_all
    ultimately show "?I (resolveInner gen th i' s x)" by simp
  qed
  with True show ?thesis by (simp add: resolveOuter_def)
qed

lemma resolveOuter_resolved_est:
  assumes inv: "map frozenPart (rs_nodes st) = map frozenPart ns0"
    and dist: "distinct (map nid ns0)"
    and i: "i < length ns0" and j: "j < length ns0"
    and ptr: "dtype (data (ns0 ! i)) = ''Pointer''"
    and lbl: "nodeLabelTarget (ns0 ! i) = Some (nid (ns0 ! j))"
  shows "resolvedAt ns0 i j (rs_nodes (resolveOuter gen th st i))"
proof -
  let ?I = "\<lambda>s::resolveState. map frozenPart (rs_nodes s) = map frozenPart ns0"
  have len: "length (rs_nodes st) = length ns0" using inv by (rule frozen_length)
  have "resolvedAt ns0 i j (rs_nodes (foldl (resolveInner gen th i) st [0..<length ns0]))"
  proof (rule foldl_establish[where x = j and I = ?I])
    show "j \<in> set [0..<length ns0]" using j by simp
    show "?I st" by (rule inv)
  next
    fix s y assume "?I s"
    then show "?I (resolveInner gen th i s y)" by (simp add: resolveInner_frozen)
  next
    fix s assume "?I s"
    then show "resolvedAt ns0 i j (rs_nodes (resolveInner gen th i s j))"
      using i j lbl by (rule resolveInner_resolved_est)
  next
    fix s y assume "?I s" and "y \<in> set [0..<length ns0]" and "resolvedAt ns0 i j (rs_nodes s)"
    then show "resolvedAt ns0 i j (rs_nodes (resolveInner gen th i s y))"
      using dist i j lbl by (intro resolveInner_resolved_stable) simp_all
  qed
  moreover have "dtype (data (rs_nodes st ! i)) = ''Pointer''"
    using frozen_nth_fields(3)[OF inv i] ptr by simp
  ultimately show ?thesis using len by (simp add: resolveOuter_def)
qed

lemma resolvePointers_resolved:
  assumes dist: "distinct (map nid ns0)"
    and i: "i < length ns0" and j: "j < length ns0"
    and ptr: "dtype (data (ns0 ! i)) = ''Pointer''"
    and lbl: "nodeLabelTarget (ns0 ! i) = Some (nid (ns0 ! j))"
  shows "resolvedAt ns0 i j (rs_nodes (resolvePointers gen th ns0 k))"
proof -
  let ?I = "\<lambda>s::resolveState. map frozenPart (rs_nodes s) = map frozenPart ns0"
  let ?st = "\<lparr> rs_nodes = ns0, rs_connections = [], rs_draws = k \<rparr>"
  have "resolvedAt ns0 i j (rs_nodes (foldl (resolveOuter gen th) ?st [0..<length ns0]))"
  proof (rule foldl_establish[where x = i and I = ?I])
    show "i \<in> set [0..<length ns0]" using i by simp
    show "?I ?st" by simp
  next
    fix s y assume "?I s"
    then show "?I (resolveOuter gen th s y)" by (simp add: resolveOuter_frozen)
  next
    fix s assume "?I s"
    then show "resolvedAt ns0 i j (rs_nodes (resolveOuter gen th s i))"
      using dist i j ptr lbl by (rule resolveOuter_resolved_est)
  next
    fix s y assume "?I s" and "y \<in> set [0..<length ns0]" and "resolvedAt ns0 i j (rs_nodes s)"
    then show "resolvedAt ns0 i j (rs_nodes (resolveOuter gen th s y))"
      using dist i j lbl by (intro resolveOuter_resolved_stable) simp_all
  qed
  then show ?thesis by (simp add: resolvePointers_def)
qed


section \<open>Pointers between stack nodes\<close>

lemma resolvePointers_count:
  assumes dist: "distinct (map nid ns0)"
    and i: "i < length ns0" and j: "j < length ns0"
    and ptr: "dtype (data (ns0 ! i)) = ''Pointer''"
    and lbl: "nodeLabelTarget (ns0 ! i) = Some (nid (ns0 ! j))"
  shows "length (filter (\<lambda>e. source e = nid (ns0 ! i) \<and> target e = nid (ns0 ! j))
           (rs_connections (resolvePointers gen th ns0 k))) = 1"
proof -
  let ?cs = "rs_connections (resolvePointers gen th ns0 k)"
  let ?y = "(nid (ns0 ! i), nid (ns0 ! j))"
  have d: "distinct (map edgeEnds ?cs)"
    using dist by (simp add: resolvePointers_ends stackSlots_distinct)
  have "ns0 ! i \<in> set ns0" using i by simp
  moreover have "nid (ns0 ! j) \<in> nid ` set ns0" using j by simp
  ultimately have "?y \<in> set (stackSlots ns0)" using ptr lbl by (intro stackSlots_memI)
  then have "?y \<in> set (map edgeEnds ?cs)" by (simp only: resolvePointers_ends)
  then have "?y \<in> edgeEnds ` set ?cs" by simp
  with d have "length (filter (\<lambda>e. edgeEnds e = ?y) ?cs) = 1" by (rule distinct_count1)
  then show ?thesis by (simp add: edgeEnds_def)
qed

lemma resolvePointers_edge_id:
  assumes "e \<in> set (rs_connections (resolvePointers gen th ns0 k))"
  shows "eid e = ''e'' @ source e @ ''-'' @ target e"
proof -
  have "\<exists>s \<in> set (stackSlots ns0). stackEdgeFor e s"
    using resolvePointers_edges assms by (rule list_all2_left)
  then obtain s where "stackEdgeFor e s" ..
  then show ?thesis by (cases s) (simp add: stackEdgeFor_def)
qed

text \<open>
  C5 (pointers between stack nodes). In the result of the stack builder, when the ids of the
  nodes are distinct: for every node of type \<open>Pointer\<close> whose target label is the id of a
  stack node, exactly one edge goes from the pointer to the target, its id is
  \<open>e<pointer>-<target>\<close>, the display value of the pointer is \<open>&<target>\<close>, the pointer records
  the address of the target, and the target has its source and target anchors on the right.
  For the stack \<open>[Variable x 4 "12" Integer, Pointer p 8 -> x]\<close> the nodes are \<open>x\<close> and \<open>p\<close>,
  the only edge is \<open>ep-x\<close>, the address of \<open>x\<close> is the stack base, that of \<open>p\<close> is the base plus
  4, and the display value of \<open>p\<close> is \<open>&x\<close>.
\<close>

theorem intra_stack_resolution:
  "(distinct (map nid (rs_nodes (buildStack c gen th wh sx syms k))) \<longrightarrow>
      (\<forall>i < length (rs_nodes (buildStack c gen th wh sx syms k)).
       \<forall>j < length (rs_nodes (buildStack c gen th wh sx syms k)).
         dtype (data (rs_nodes (buildStack c gen th wh sx syms k) ! i)) = ''Pointer''
         \<and> nodeLabelTarget (rs_nodes (buildStack c gen th wh sx syms k) ! i)
             = Some (nid (rs_nodes (buildStack c gen th wh sx syms k) ! j))
         \<longrightarrow> length (filter (\<lambda>e. source e = nid (rs_nodes (buildStack c gen th wh sx syms k) ! i)
                                \<and> target e = nid (rs_nodes (buildStack c gen th wh sx syms k) ! j))
                        (rs_connections (buildStack c gen th wh sx syms k))) = 1
             \<and> (\<forall>e \<in> set (rs_connections (buildStack c gen th wh sx syms k)).
                   eid e = ''e'' @ source e @ ''-'' @ target e)
             \<and> nodeValue (rs_nodes (buildStack c gen th wh sx syms k) ! i)
                 = ''&'' @ nid (rs_nodes (buildStack c gen th wh sx syms k) ! j)
             \<and> nodePointingToAddress (rs_nodes (buildStack c gen th wh sx syms k) ! i)
                 = Some (nodeAddress (rs_nodes (buildStack c gen th wh sx syms k) ! j))
             \<and> sourcePosition (rs_nodes (buildStack c gen th wh sx syms k) ! j) = Some Right
             \<and> targetPosition (rs_nodes (buildStack c gen th wh sx syms k) ! j) = Some Right))
   \<and> map nid (rs_nodes (buildStack c gen th wh sx exampleStack k)) = [''x'', ''p'']
   \<and> map eid (rs_connections (buildStack c gen th wh sx exampleStack k)) = [''ep-x'']
   \<and> map nodeAddress (rs_nodes (buildStack c gen th wh sx exampleStack k))
       = [formatAddress stackBase, formatAddress (stackBase + 4)]
   \<and> map nodeValue (rs_nodes (buildStack c gen th wh sx exampleStack k)) = [''12'', ''&x'']"
proof (intro conjI impI allI)
  fix i j
  let ?raw = "stackLoop c wh sx syms [] (Finite stackBase)"
  let ?B = "buildStack c gen th wh sx syms k"
  let ?ns = "rs_nodes ?B"
  assume dist: "distinct (map nid ?ns)" and i: "i < length ?ns" and j: "j < length ?ns"
    and h: "dtype (data (?ns ! i)) = ''Pointer'' \<and> nodeLabelTarget (?ns ! i) = Some (nid (?ns ! j))"
  have fr: "map frozenPart ?ns = map frozenPart ?raw" by (rule buildStack_nodes_frozen)
  have len: "length ?ns = length ?raw" using fr by (rule frozen_length)
  have ids: "map nid ?ns = map nid ?raw" using fr by (rule frozen_map_fields)
  from i j len have i0: "i < length ?raw" and j0: "j < length ?raw" by simp_all
  note fi = frozen_nth_fields[OF fr i0]
  note fj = frozen_nth_fields[OF fr j0]
  from dist ids have dist0: "distinct (map nid ?raw)" by simp
  from h have ptr0: "dtype (data (?raw ! i)) = ''Pointer''" by (simp add: fi)
  from h have lbl0: "nodeLabelTarget (?raw ! i) = Some (nid (?raw ! j))" by (simp add: fi fj)
  have B: "?B = resolvePointers gen th ?raw k" by (simp add: buildStack_def)
  show "length (filter (\<lambda>e. source e = nid (?ns ! i) \<and> target e = nid (?ns ! j)) (rs_connections ?B)) = 1"
    unfolding fi fj unfolding B using dist0 i0 j0 ptr0 lbl0 by (rule resolvePointers_count)
  have r: "resolvedAt ?raw i j ?ns"
    unfolding B using dist0 i0 j0 ptr0 lbl0 by (rule resolvePointers_resolved)
  from r show "nodeValue (?ns ! i) = ''&'' @ nid (?ns ! j)" by (simp add: resolvedAt_def fj)
  from r show "nodePointingToAddress (?ns ! i) = Some (nodeAddress (?ns ! j))"
    by (simp add: resolvedAt_def fj)
  from r show "sourcePosition (?ns ! j) = Some Right" by (simp add: resolvedAt_def)
  from r show "targetPosition (?ns ! j) = Some Right" by (simp add: resolvedAt_def)
  show "\<forall>e \<in> set (rs_connections ?B). eid e = ''e'' @ source e @ ''-'' @ target e"
    unfolding B using resolvePointers_edge_id by blast
next
  show "map nid (rs_nodes (buildStack c gen th wh sx exampleStack k)) = [''x'', ''p'']"
    by (simp add: builder_eval)
  show "map eid (rs_connections (buildStack c gen th wh sx exampleStack k)) = [''ep-x'']"
    by (simp add: builder_eval)
  show "map nodeAddress (rs_nodes (buildStack c gen th wh sx exampleStack k))
       = [formatAddress stackBase, formatAddress (stackBase + 4)]"
    by (simp add: builder_eval nodeAddress_def formatNumber_Finite jsAdd_Finite toDouble_small
          stackBase_def)
  show "map nodeValue (rs_nodes (buildStack c gen th wh sx exampleStack k)) = [''12'', ''&x'']"
    by (simp add: builder_eval nodeValue_def)
qed

theorem intra_stack_resolution_witness:
  "length (filter (\<lambda>e. source e = ''p'' \<and> target e = ''x'')
      (rs_connections (buildStack exampleConstants exampleColors ''dark'' 800 50 exampleStack 0))) = 1
   \<and> nodePointingToAddress (rs_nodes (buildStack exampleConstants exampleColors ''dark'' 800 50 exampleStack 0) ! 1)
       = Some ''0xBFFFFFFF''
   \<and> targetPosition (rs_nodes (buildStack exampleConstants exampleColors ''dark'' 800 50 exampleStack 0) ! 0)
       = Some Right"
proof -
  let ?B = "buildStack exampleConstants exampleColors ''dark'' 800 50 exampleStack 0"
  note t = intra_stack_resolution[of exampleConstants exampleColors "''dark''" 800 50 exampleStack 0]
  from t have ids: "map nid (rs_nodes ?B) = [''x'', ''p'']" by blast
  then obtain a b where ab: "rs_nodes ?B = [a, b]" and na: "nid a = ''x''" and nb: "nid b = ''p''"
    by (auto simp: map_eq_Cons_conv)
  from t have "map nodeAddress (rs_nodes ?B) = [formatAddress stackBase, formatAddress (stackBase + 4)]"
    by blast
  with ab have aa: "nodeAddress a = formatAddress stackBase" by simp
  have d: "distinct (map nid (rs_nodes ?B))" by (simp add: ids)
  have i: "Suc 0 < length (rs_nodes ?B)" and j: "0 < length (rs_nodes ?B)" by (simp_all add: ab)
  have h: "dtype (data (rs_nodes ?B ! Suc 0)) = ''Pointer''
      \<and> nodeLabelTarget (rs_nodes ?B ! Suc 0) = Some (nid (rs_nodes ?B ! 0))"
    by (simp add: builder_eval nodeLabelTarget_def)
  from t d i j h have
    "length (filter (\<lambda>e. source e = nid (rs_nodes ?B ! Suc 0) \<and> target e = nid (rs_nodes ?B ! 0))
        (rs_connections ?B)) = 1
     \<and> nodePointingToAddress (rs_nodes ?B ! Suc 0) = Some (nodeAddress (rs_nodes ?B ! 0))
     \<and> targetPosition (rs_nodes ?B ! 0) = Some Right"
    by blast
  moreover have "formatAddress stackBase = ''0xBFFFFFFF''" by (simp add: js_eval)
  ultimately show ?thesis unfolding ab by (simp add: na nb aa)
qed


section \<open>Renders of the Visualizer component\<close>

lemma quiet_pass:
  assumes "quiet p s"
  shows "renderPass c gen p s = Inr (s\<lparr>rerender := False\<rparr>)"
proof -
  from assms have sd: "stackDeps s = Some (stackDepsOf p s)" and hd: "heapDeps s = Some (heapDepsOf p s)"
    and lv: "hasValidAnalyzeResponse p \<longrightarrow> lastValidAnalyzeResponse s = analyzeResponse p"
    by (simp_all add: quiet_def)
  let ?n0 = "s\<lparr>rerender := False\<rparr>"
  have a: "effectUpdateLastValid p s ?n0 = ?n0"
    using lv by (cases "hasValidAnalyzeResponse p") (simp_all add: effectUpdateLastValid_def)
  have b: "effectReset p s ?n0 = ?n0"
    using lv by (auto simp: effectReset_def needsReset_def)
  have c: "effectStack c gen p s ?n0 = ?n0"
    using sd by (simp add: effectStack_def Let_def sd[symmetric])
  have d: "effectHeap c gen p s ?n0 = Inr ?n0"
    using hd by (simp add: effectHeap_def Let_def hd[symmetric])
  show ?thesis by (simp only: renderPass_def a b c d)
qed


lemma effectUpdateLastValid_fields:
  "stackNodesRef (effectUpdateLastValid p s n) = stackNodesRef n"
  "stackDeps (effectUpdateLastValid p s n) = stackDeps n"
  "heapDeps (effectUpdateLastValid p s n) = heapDeps n"
  "lastValidAnalyzeResponse (effectUpdateLastValid p s n) =
     (if hasValidAnalyzeResponse p then analyzeResponse p else lastValidAnalyzeResponse n)"
  "rerender n \<Longrightarrow> rerender (effectUpdateLastValid p s n)"
  by (simp_all add: effectUpdateLastValid_def)

lemma effectReset_fields:
  "stackDeps (effectReset p s n) = stackDeps n"
  "heapDeps (effectReset p s n) = heapDeps n"
  "lastValidAnalyzeResponse (effectReset p s n) = lastValidAnalyzeResponse n"
  "rerender n \<Longrightarrow> rerender (effectReset p s n)"
  "\<not> rerender (effectReset p s n) \<Longrightarrow> stackNodesRef (effectReset p s n) = stackNodesRef n"
  by (simp_all add: effectReset_def resetMemory_def split: if_splits)

lemma effectStack_fields:
  "stackDeps (effectStack c gen p s n) = Some (stackDepsOf p s)"
  "heapDeps (effectStack c gen p s n) = heapDeps n"
  "lastValidAnalyzeResponse (effectStack c gen p s n) = lastValidAnalyzeResponse n"
  "rerender n \<Longrightarrow> rerender (effectStack c gen p s n)"
  "\<not> rerender (effectStack c gen p s n) \<Longrightarrow> stackNodesRef (effectStack c gen p s n) = stackNodesRef n"
  by (simp_all add: effectStack_def Let_def split: option.splits if_splits)

lemma effectHeap_fields:
  assumes "effectHeap c gen p s n = Inr s'"
  shows "heapDeps s' = Some (heapDepsOf p s)"
    "stackDeps s' = stackDeps n"
    "lastValidAnalyzeResponse s' = lastValidAnalyzeResponse n"
    "stackNodesRef s' = stackNodesRef n"
    "rerender n \<Longrightarrow> rerender s'"
  using assms
  by (auto simp: effectHeap_def Let_def split: option.splits sum.splits if_splits)

lemma renderPass_fields:
  assumes "renderPass c gen p s = Inr s'"
  shows "stackDeps s' = Some (stackDepsOf p s)"
    "heapDeps s' = Some (heapDepsOf p s)"
    "lastValidAnalyzeResponse s' =
       (if hasValidAnalyzeResponse p then analyzeResponse p else lastValidAnalyzeResponse s)"
    "\<not> rerender s' \<Longrightarrow> stackNodesRef s' = stackNodesRef s"
proof -
  let ?n1 = "effectUpdateLastValid p s (s\<lparr>rerender := False\<rparr>)"
  let ?n2 = "effectReset p s ?n1"
  let ?n3 = "effectStack c gen p s ?n2"
  from assms have h: "effectHeap c gen p s ?n3 = Inr s'" by (simp add: renderPass_def)
  note hf = effectHeap_fields[OF h]
  show "stackDeps s' = Some (stackDepsOf p s)" by (simp add: hf effectStack_fields)
  show "heapDeps s' = Some (heapDepsOf p s)" by (simp add: hf)
  show "lastValidAnalyzeResponse s' =
       (if hasValidAnalyzeResponse p then analyzeResponse p else lastValidAnalyzeResponse s)"
    by (simp add: hf effectStack_fields effectReset_fields effectUpdateLastValid_fields)
  assume nr: "\<not> rerender s'"
  with hf(5) have r3: "\<not> rerender ?n3" by blast
  then have r2: "\<not> rerender ?n2" using effectStack_fields(4) by blast
  from r3 have "stackNodesRef ?n3 = stackNodesRef ?n2" by (rule effectStack_fields)
  moreover from r2 have "stackNodesRef ?n2 = stackNodesRef ?n1" by (rule effectReset_fields)
  moreover have "stackNodesRef ?n1 = stackNodesRef s" by (simp add: effectUpdateLastValid_fields)
  ultimately show "stackNodesRef s' = stackNodesRef s" by (simp add: hf)
qed

lemma renderPass_current:
  assumes "renderPass c gen p s = Inr s'"
  shows "currentAnalyzeResponse p s' = currentAnalyzeResponse p s"
proof (cases "hasValidAnalyzeResponse p")
  case True
  then show ?thesis
    by (simp add: currentAnalyzeResponse_def shouldShowLastValidVisualization_def)
next
  case False
  with renderPass_fields(3)[OF assms] have "lastValidAnalyzeResponse s' = lastValidAnalyzeResponse s"
    by simp
  then show ?thesis
    by (simp add: currentAnalyzeResponse_def shouldShowLastValidVisualization_def)
qed

lemma renderPass_settled:
  assumes "renderPass c gen p s = Inr s'" and "\<not> rerender s'"
  shows "quiet p s'"
proof -
  note f = renderPass_fields[OF assms(1)]
  note cur = renderPass_current[OF assms(1)]
  have "stackDepsOf p s' = stackDepsOf p s" by (simp add: stackDepsOf_def cur)
  moreover have "heapDepsOf p s' = heapDepsOf p s"
    using f(4)[OF assms(2)] by (simp add: heapDepsOf_def cur)
  ultimately show ?thesis by (simp add: quiet_def f)
qed

lemma recompute_settled:
  "recompute fuel c gen p s = Some (Inr s') \<Longrightarrow> quiet p s' \<and> \<not> rerender s'"
proof (induction fuel arbitrary: s)
  case 0
  then show ?case by simp
next
  case (Suc fuel)
  show ?case
  proof (cases "renderPass c gen p s")
    case (Inl e)
    with Suc.prems show ?thesis by simp
  next
    case (Inr s1)
    show ?thesis
    proof (cases "rerender s1")
      case True
      with Inr Suc.prems have "recompute fuel c gen p s1 = Some (Inr s')" by simp
      then show ?thesis by (rule Suc.IH)
    next
      case False
      with Inr Suc.prems have "s' = s1" by simp
      with Inr False show ?thesis by (simp add: renderPass_settled)
    qed
  qed
qed

lemma quiet_recompute:
  assumes "quiet p s" and "\<not> rerender s"
  shows "recompute (Suc fuel) c gen p s = Some (Inr s)"
proof -
  have "s\<lparr>rerender := False\<rparr> = s" using assms(2) by simp
  with quiet_pass[OF assms(1), of c gen] have "renderPass c gen p s = Inr s" by simp
  with assms(2) show ?thesis by simp
qed


section \<open>Every recomputation ends\<close>

lemma effectReset_skip: "\<not> needsReset p s \<Longrightarrow> effectReset p s n = n"
  by (simp add: effectReset_def)

lemma effectStack_skip:
  "stackDeps s = Some (stackDepsOf p s) \<Longrightarrow> stackNodesRef (effectStack c gen p s n) = stackNodesRef n"
  by (simp add: effectStack_def Let_def)

lemma renderPass_ref_kept:
  assumes "renderPass c gen p s = Inr s'" and "stackDeps s = Some (stackDepsOf p s)"
    and "\<not> needsReset p s"
  shows "stackNodesRef s' = stackNodesRef s"
proof -
  let ?n1 = "effectUpdateLastValid p s (s\<lparr>rerender := False\<rparr>)"
  from assms(1,3) have h: "effectHeap c gen p s (effectStack c gen p s ?n1) = Inr s'"
    by (simp add: renderPass_def effectReset_skip)
  have "stackNodesRef s' = stackNodesRef (effectStack c gen p s ?n1)"
    using h by (rule effectHeap_fields)
  also have "\<dots> = stackNodesRef ?n1" using assms(2) by (rule effectStack_skip)
  also have "\<dots> = stackNodesRef s" by (simp add: effectUpdateLastValid_fields)
  finally show ?thesis .
qed

lemma renderPass_twice:
  assumes p1: "renderPass c gen p s = Inr s1" and p2: "renderPass c gen p s1 = Inr s2"
  shows "quiet p s2"
proof -
  note f1 = renderPass_fields[OF p1]
  note f2 = renderPass_fields[OF p2]
  note c1 = renderPass_current[OF p1]
  note c2 = renderPass_current[OF p2]
  have sd1: "stackDeps s1 = Some (stackDepsOf p s1)"
    by (simp add: f1 stackDepsOf_def c1)
  have nr: "\<not> needsReset p s1"
    by (simp add: needsReset_def f1)
  have ref: "stackNodesRef s2 = stackNodesRef s1"
    using p2 sd1 nr by (rule renderPass_ref_kept)
  have "stackDepsOf p s2 = stackDepsOf p s1" by (simp add: stackDepsOf_def c2)
  moreover have "heapDepsOf p s2 = heapDepsOf p s1" by (simp add: heapDepsOf_def c2 ref)
  ultimately show ?thesis by (simp add: quiet_def f2)
qed

lemma recompute_total: "\<exists>r. recompute (Suc (Suc (Suc fuel))) c gen p s = Some r"
proof (cases "renderPass c gen p s")
  case (Inl e)
  then show ?thesis by simp
next
  case (Inr s1)
  note p1 = this
  show ?thesis
  proof (cases "renderPass c gen p s1")
    case (Inl e)
    with p1 show ?thesis by simp
  next
    case (Inr s2)
    with p1 have "quiet p s2" by (rule renderPass_twice)
    then have "renderPass c gen p s2 = Inr (s2\<lparr>rerender := False\<rparr>)" by (rule quiet_pass)
    with p1 Inr show ?thesis by simp
  qed
qed

section \<open>Freeze on error\<close>

text \<open>
  C1 (freeze on error), as the code has it. Let a recomputation with inputs \<open>p1\<close>, whose
  analysis result is valid, end in the state \<open>s1\<close>: the result is then retained. If the next
  inputs \<open>p2\<close> carry a result that is not valid (an error, or nothing to show) with a source
  text that is not blank (\<^verbatim>\<open>sourceCode.trim()\<close> is not empty), in the same surroundings, then
  the recomputation ends at once in the same state: the result rendered is the retained one,
  and the nodes and edges handed to the renderer are those emitted for \<open>p1\<close>.
\<close>

theorem freeze_on_error:
  "hasValidAnalyzeResponse p1 \<and> recompute fuel c gen p1 s0 = Some (Inr s1)
   \<and> \<not> hasValidAnalyzeResponse p2 \<and> trim (sourceCode p2) \<noteq> [] \<and> sameSurroundings p1 p2
   \<longrightarrow> lastValidAnalyzeResponse s1 = analyzeResponse p1
       \<and> currentAnalyzeResponse p2 s1 = analyzeResponse p1
       \<and> recompute (Suc fuel') c gen p2 s1 = Some (Inr s1)
       \<and> graphNodes c p2 s1 = graphNodes c p1 s1"
proof (intro impI)
  assume h: "hasValidAnalyzeResponse p1 \<and> recompute fuel c gen p1 s0 = Some (Inr s1)
   \<and> \<not> hasValidAnalyzeResponse p2 \<and> trim (sourceCode p2) \<noteq> [] \<and> sameSurroundings p1 p2"
  then have v1: "hasValidAnalyzeResponse p1" and r: "recompute fuel c gen p1 s0 = Some (Inr s1)"
    and v2: "\<not> hasValidAnalyzeResponse p2" and src: "trim (sourceCode p2) \<noteq> []"
    and env: "sameSurroundings p1 p2" by simp_all
  from r have q1: "quiet p1 s1" and nr: "\<not> rerender s1" using recompute_settled by blast+
  from q1 v1 have lv: "lastValidAnalyzeResponse s1 = analyzeResponse p1" by (simp add: quiet_def)
  from v1 have some: "analyzeResponse p1 \<noteq> None"
    by (auto simp: hasValidAnalyzeResponse_def split: option.splits)
  have cur1: "currentAnalyzeResponse p1 s1 = analyzeResponse p1"
    using v1 by (simp add: currentAnalyzeResponse_def shouldShowLastValidVisualization_def)
  have cur2: "currentAnalyzeResponse p2 s1 = analyzeResponse p1"
    using v2 src lv some by (simp add: currentAnalyzeResponse_def shouldShowLastValidVisualization_def)
  have q2: "quiet p2 s1"
    using q1 v2 env by (simp add: quiet_def stackDepsOf_def heapDepsOf_def cur1 cur2 sameSurroundings_def)
  have rc: "recompute (Suc fuel') c gen p2 s1 = Some (Inr s1)" using q2 nr by (rule quiet_recompute)
  have g: "graphNodes c p2 s1 = graphNodes c p1 s1"
    using env by (simp add: graphNodes_def labelNodes_def sameSurroundings_def)
  from lv cur2 rc g show "lastValidAnalyzeResponse s1 = analyzeResponse p1
       \<and> currentAnalyzeResponse p2 s1 = analyzeResponse p1
       \<and> recompute (Suc fuel') c gen p2 s1 = Some (Inr s1)
       \<and> graphNodes c p2 s1 = graphNodes c p1 s1" by simp
qed


lemma exampleInputs_fields:
  "analyzeResponse exampleValidInputs = Some exampleResponse"
  "analyzeError exampleValidInputs = None"
  "sourceCode exampleValidInputs = exampleSource"
  "windowSize_height exampleValidInputs = 800" "stackX exampleValidInputs = 50"
  "heapX exampleValidInputs = 400" "currentTheme exampleValidInputs = ''dark''"
  "ref exampleResponse = 1" "stack exampleResponse = Some examplePointerStack"
  "heap exampleResponse = Some [allocatedBlock]"
  by (simp_all add: exampleValidInputs_def exampleResponse_def)

lemma example_buildStack:
  "buildStack exampleConstants exampleColors ''dark'' 800 50 examplePointerStack k =
     \<lparr> rs_nodes = [examplePNode], rs_connections = [], rs_draws = k \<rparr>"
  by (simp add: builder_eval js_eval examplePNode_def)

lemma example_buildHeap_empty:
  "buildHeap exampleConstants exampleColors ''dark'' 800 400 [allocatedBlock] [] k =
     \<lparr> hs_heapNodes = [exampleHeapNode], hs_connections = [], hs_index = 1,
       hs_address = Finite (heapBase + 4), hs_stackNodes = [], hs_draws = k \<rparr>"
  by (simp add: builder_eval js_eval exampleHeapNode_def)

lemma example_buildHeap:
  "buildHeap exampleConstants exampleColors ''dark'' 800 400 [allocatedBlock] [examplePNode] 0 =
     \<lparr> hs_heapNodes = [exampleHeapNode\<lparr>targetPosition := Some Left\<rparr>],
       hs_connections = [createEdge ''ep-0'' ''straight'' ''p'' ''0'' ''#aaccee''], hs_index = 1,
       hs_address = Finite (heapBase + 4),
       hs_stackNodes = [set_pointingToAddress ''0x400000'' examplePNode], hs_draws = 1 \<rparr>"
  by (simp add: builder_eval js_eval exampleHeapNode_def examplePNode_def)

lemma example_valid: "hasValidAnalyzeResponse exampleValidInputs"
  by (simp add: hasValidAnalyzeResponse_def nonEmptyField_def exampleInputs_fields
        examplePointerStack_def)

lemma example_current:
  "currentAnalyzeResponse exampleValidInputs s = Some exampleResponse"
  using example_valid
  by (simp add: currentAnalyzeResponse_def shouldShowLastValidVisualization_def exampleInputs_fields)

lemmas pass_eval =
  renderPass_def effectUpdateLastValid_def effectReset_def effectStack_def effectHeap_def
  resetMemory_def needsReset_def stackDepsOf_def heapDepsOf_def useStackNodes_def useHeapNodes_def
  Let_def

lemma example_stack_nonempty: "examplePointerStack \<noteq> []"
  by (simp add: examplePointerStack_def)

lemma example_pass1:
  "renderPass exampleConstants exampleColors exampleValidInputs initialState = Inr exampleFirstPass"
  by (simp add: pass_eval example_valid example_current exampleInputs_fields example_buildStack
        example_buildHeap_empty initialState_def exampleFirstPass_def example_stack_nonempty)

lemma example_pass2:
  "renderPass exampleConstants exampleColors exampleValidInputs exampleFirstPass
     = Inr (exampleSettledState\<lparr>rerender := True\<rparr>)"
  by (simp add: pass_eval example_valid example_current exampleInputs_fields example_buildStack
        example_buildHeap exampleFirstPass_def exampleSettledState_def example_stack_nonempty)

lemma example_pass3:
  "renderPass exampleConstants exampleColors exampleValidInputs (exampleSettledState\<lparr>rerender := True\<rparr>)
     = Inr exampleSettledState"
  by (simp add: pass_eval example_valid example_current exampleInputs_fields
        exampleSettledState_def)

lemma exampleSettled:
  "recompute 3 exampleConstants exampleColors exampleValidInputs initialState
     = Some (Inr exampleSettledState)"
proof -
  have "rerender exampleFirstPass" by (simp add: exampleFirstPass_def)
  moreover have "\<not> rerender exampleSettledState" by (simp add: exampleSettledState_def)
  ultimately show ?thesis
    by (simp add: eval_nat_numeral example_pass1 example_pass2 example_pass3)
qed


theorem freeze_on_error_witness:
  "recompute 3 exampleConstants exampleColors exampleValidInputs initialState
     = Some (Inr exampleSettledState)
   \<and> recompute 1 exampleConstants exampleColors exampleErrorInputs exampleSettledState
     = Some (Inr exampleSettledState)
   \<and> map eid (graphEdges exampleSettledState) = [''ep-0'']"
proof -
  have "\<not> hasValidAnalyzeResponse exampleErrorInputs"
    by (simp add: hasValidAnalyzeResponse_def exampleErrorInputs_def)
  moreover have "trim (sourceCode exampleErrorInputs) \<noteq> []"
    by (simp add: exampleErrorInputs_def trim_def isWhiteSpace_def)
  moreover have "sameSurroundings exampleValidInputs exampleErrorInputs"
    by (simp add: sameSurroundings_def exampleInputs_fields exampleErrorInputs_def)
  ultimately have "recompute (Suc 0) exampleConstants exampleColors exampleErrorInputs exampleSettledState
     = Some (Inr exampleSettledState)"
    using freeze_on_error[of exampleValidInputs 3 exampleConstants exampleColors initialState
        exampleSettledState exampleErrorInputs 0] example_valid exampleSettled
    by blast
  moreover have "map eid (graphEdges exampleSettledState) = [''ep-0'']"
    by (simp add: graphEdges_def exampleSettledState_def createEdge_def)
  ultimately show ?thesis using exampleSettled by simp
qed


lemma buildStack_empty:
  "buildStack c gen th wh sx [] k = \<lparr> rs_nodes = [], rs_connections = [], rs_draws = k \<rparr>"
  by (simp add: buildStack_def resolvePointers_def)

text \<open>A text of white space only is blank, whatever the white space: here a no-break space,
  a line separator, a byte order mark and a space.\<close>

lemma trim_blank: "trim [0x00A0, 0x2028, 0xFEFF, 0x0020] = []"
  by (simp add: trim_def isWhiteSpace_def)

lemma trim_example: "trim (32 # 9 # exampleSource @ [10, 0x00A0]) = exampleSource"
  by (simp add: trim_def isWhiteSpace_def exampleSource_def)

lemma exampleBlank_fields:
  "analyzeResponse exampleBlankErrorInputs = Some \<lparr> ref = 5, stack = Some [], heap = Some [] \<rparr>"
  "analyzeError exampleBlankErrorInputs = Some ''expected expression''"
  "sourceCode exampleBlankErrorInputs = [32]"
  "windowSize_height exampleBlankErrorInputs = 800" "stackX exampleBlankErrorInputs = 50"
  "heapX exampleBlankErrorInputs = 400" "currentTheme exampleBlankErrorInputs = ''dark''"
  by (simp_all add: exampleBlankErrorInputs_def)

lemma exampleBlank_invalid: "\<not> hasValidAnalyzeResponse exampleBlankErrorInputs"
  by (simp add: hasValidAnalyzeResponse_def exampleBlank_fields)

lemma exampleBlank_current:
  "currentAnalyzeResponse exampleBlankErrorInputs s = Some \<lparr> ref = 5, stack = Some [], heap = Some [] \<rparr>"
  by (simp add: currentAnalyzeResponse_def shouldShowLastValidVisualization_def exampleBlank_fields
        trim_def isWhiteSpace_def)

lemma exampleBlank_pass1:
  "renderPass exampleConstants exampleColors exampleBlankErrorInputs exampleSettledState
     = Inr (exampleBlankErrorState\<lparr> heapDeps := Some (Some 5, 2, 400, ''dark'', 800), rerender := True \<rparr>)"
  by (simp add: pass_eval exampleBlank_invalid exampleBlank_current exampleBlank_fields
        buildStack_empty exampleSettledState_def exampleBlankErrorState_def)

lemma exampleBlank_pass2:
  "renderPass exampleConstants exampleColors exampleBlankErrorInputs
     (exampleBlankErrorState\<lparr> heapDeps := Some (Some 5, 2, 400, ''dark'', 800), rerender := True \<rparr>)
     = Inr exampleBlankErrorState"
  by (simp add: pass_eval exampleBlank_invalid exampleBlank_current exampleBlank_fields
        buildStack_empty exampleBlankErrorState_def)

text \<open>
  C1 as it was stated does not hold: a source text that is not empty may be blank, and the
  component tests \<^verbatim>\<open>sourceCode.trim()\<close>. After the recomputation for a valid result with one
  stack pointer and one heap block, let the analysis fail on a source text that is a single
  space, in the same surroundings. The failed result is taken as the current one: the stack
  node \<open>p\<close> is cleared (the heap node and the edge stay), and the graph handed to the renderer
  has two nodes where the graph emitted for the valid result has four.
\<close>

theorem freeze_on_error_counterexample:
  "hasValidAnalyzeResponse exampleValidInputs
   \<and> recompute 3 exampleConstants exampleColors exampleValidInputs initialState
       = Some (Inr exampleSettledState)
   \<and> lastValidAnalyzeResponse exampleSettledState = analyzeResponse exampleValidInputs
   \<and> \<not> hasValidAnalyzeResponse exampleBlankErrorInputs
   \<and> analyzeError exampleBlankErrorInputs \<noteq> None
   \<and> sourceCode exampleBlankErrorInputs \<noteq> []
   \<and> sameSurroundings exampleValidInputs exampleBlankErrorInputs
   \<and> recompute 2 exampleConstants exampleColors exampleBlankErrorInputs exampleSettledState
       = Some (Inr exampleBlankErrorState)
   \<and> map nid (stackNodes exampleSettledState) = [''p'']
   \<and> stackNodes exampleBlankErrorState = []
   \<and> length (graphNodes exampleConstants exampleValidInputs exampleSettledState) = 4
   \<and> length (graphNodes exampleConstants exampleBlankErrorInputs exampleBlankErrorState) = 2"
proof -
  have nr: "\<not> rerender exampleBlankErrorState" by (simp add: exampleBlankErrorState_def)
  have r: "recompute 2 exampleConstants exampleColors exampleBlankErrorInputs exampleSettledState
       = Some (Inr exampleBlankErrorState)"
    unfolding numeral_2_eq_2 using nr by (simp add: exampleBlank_pass1 exampleBlank_pass2)
  have lv: "lastValidAnalyzeResponse exampleSettledState = analyzeResponse exampleValidInputs"
    by (simp add: exampleSettledState_def exampleInputs_fields)
  have env: "sameSurroundings exampleValidInputs exampleBlankErrorInputs"
    by (simp add: sameSurroundings_def exampleInputs_fields exampleBlank_fields)
  have s1: "map nid (stackNodes exampleSettledState) = [''p'']"
    by (simp add: exampleSettledState_def examplePNode_def set_pointingToAddress_def)
  have s2: "stackNodes exampleBlankErrorState = []" by (simp add: exampleBlankErrorState_def)
  have g1: "length (graphNodes exampleConstants exampleValidInputs exampleSettledState) = 4"
    by (simp add: graphNodes_def labelNodes_def exampleSettledState_def)
  have g2: "length (graphNodes exampleConstants exampleBlankErrorInputs exampleBlankErrorState) = 2"
    by (simp add: graphNodes_def labelNodes_def exampleBlankErrorState_def)
  from example_valid exampleSettled lv exampleBlank_invalid env r s1 s2 g1 g2 show ?thesis
    by (simp add: exampleBlank_fields)
qed


section \<open>Idempotence\<close>

text \<open>
  C7 (idempotence under identical identity). Let a recomputation with inputs \<open>p1\<close> end in the
  state \<open>s1\<close>, having rendered the result that \<open>s1\<close> retains (as it does when the result of
  \<open>p1\<close> was valid, or when \<open>p1\<close> froze on the retained result). If the next inputs \<open>p2\<close> carry
  that same object as a valid result, in the same surroundings, then the condition of
  \<^verbatim>\<open>resetMemory\<close> is false, no builder runs, and the recomputation ends at once in \<open>s1\<close>
  itself: every node keeps its address and its position.
\<close>

theorem idempotent_recomputation:
  "recompute fuel c gen p1 s0 = Some (Inr s1)
   \<and> currentAnalyzeResponse p1 s1 = lastValidAnalyzeResponse s1
   \<and> hasValidAnalyzeResponse p2 \<and> analyzeResponse p2 = lastValidAnalyzeResponse s1
   \<and> sameSurroundings p1 p2
   \<longrightarrow> \<not> needsReset p2 s1
       \<and> recompute (Suc fuel') c gen p2 s1 = Some (Inr s1)
       \<and> graphNodes c p2 s1 = graphNodes c p1 s1"
proof (intro impI)
  assume h: "recompute fuel c gen p1 s0 = Some (Inr s1)
   \<and> currentAnalyzeResponse p1 s1 = lastValidAnalyzeResponse s1
   \<and> hasValidAnalyzeResponse p2 \<and> analyzeResponse p2 = lastValidAnalyzeResponse s1
   \<and> sameSurroundings p1 p2"
  then have r: "recompute fuel c gen p1 s0 = Some (Inr s1)"
    and cur1: "currentAnalyzeResponse p1 s1 = lastValidAnalyzeResponse s1"
    and v2: "hasValidAnalyzeResponse p2" and same: "analyzeResponse p2 = lastValidAnalyzeResponse s1"
    and env: "sameSurroundings p1 p2" by simp_all
  from r have q1: "quiet p1 s1" and nr: "\<not> rerender s1" using recompute_settled by blast+
  have cur2: "currentAnalyzeResponse p2 s1 = lastValidAnalyzeResponse s1"
    using v2 same by (simp add: currentAnalyzeResponse_def shouldShowLastValidVisualization_def)
  have q2: "quiet p2 s1"
    using q1 same env by (simp add: quiet_def stackDepsOf_def heapDepsOf_def cur1 cur2 sameSurroundings_def)
  have a: "\<not> needsReset p2 s1" using same by (simp add: needsReset_def)
  have b: "recompute (Suc fuel') c gen p2 s1 = Some (Inr s1)" using q2 nr by (rule quiet_recompute)
  have g: "graphNodes c p2 s1 = graphNodes c p1 s1"
    using env by (simp add: graphNodes_def labelNodes_def sameSurroundings_def)
  from a b g show "\<not> needsReset p2 s1
       \<and> recompute (Suc fuel') c gen p2 s1 = Some (Inr s1)
       \<and> graphNodes c p2 s1 = graphNodes c p1 s1" by simp
qed

theorem idempotent_recomputation_witness:
  "\<not> needsReset exampleValidInputs exampleSettledState
   \<and> recompute 1 exampleConstants exampleColors exampleValidInputs exampleSettledState
       = Some (Inr exampleSettledState)
   \<and> map nodeAddress (stackNodes exampleSettledState @ heapNodes exampleSettledState)
       = [''0xBFFFFFFF'', ''0x400000'']"
proof -
  have "currentAnalyzeResponse exampleValidInputs exampleSettledState
          = lastValidAnalyzeResponse exampleSettledState"
    by (simp add: example_current exampleSettledState_def)
  moreover have "analyzeResponse exampleValidInputs = lastValidAnalyzeResponse exampleSettledState"
    by (simp add: exampleInputs_fields exampleSettledState_def)
  moreover have "sameSurroundings exampleValidInputs exampleValidInputs"
    by (simp add: sameSurroundings_def)
  ultimately have "\<not> needsReset exampleValidInputs exampleSettledState
       \<and> recompute (Suc 0) exampleConstants exampleColors exampleValidInputs exampleSettledState
           = Some (Inr exampleSettledState)"
    using idempotent_recomputation[of 3 exampleConstants exampleColors exampleValidInputs initialState
        exampleSettledState exampleValidInputs 0] example_valid exampleSettled
    by blast
  moreover have "map nodeAddress (stackNodes exampleSettledState @ heapNodes exampleSettledState)
       = [''0xBFFFFFFF'', ''0x400000'']"
    by (simp add: exampleSettledState_def nodeAddress_def examplePNode_def exampleHeapNode_def
          set_pointingToAddress_def)
  ultimately show ?thesis by simp
qed


section \<open>Where the code departs from its specification\<close>

lemma exampleEmpty_fields:
  "analyzeResponse exampleEmptyInputs = Some \<lparr> ref = 3, stack = Some [], heap = Some [] \<rparr>"
  "analyzeError exampleEmptyInputs = None"
  "sourceCode exampleEmptyInputs = []"
  "windowSize_height exampleEmptyInputs = 800" "stackX exampleEmptyInputs = 50"
  "heapX exampleEmptyInputs = 400" "currentTheme exampleEmptyInputs = ''dark''"
  by (simp_all add: exampleEmptyInputs_def)

lemma exampleEmpty_invalid: "\<not> hasValidAnalyzeResponse exampleEmptyInputs"
  by (simp add: hasValidAnalyzeResponse_def nonEmptyField_def exampleEmpty_fields)

lemma exampleEmpty_current:
  "currentAnalyzeResponse exampleEmptyInputs s = Some \<lparr> ref = 3, stack = Some [], heap = Some [] \<rparr>"
  by (simp add: currentAnalyzeResponse_def shouldShowLastValidVisualization_def exampleEmpty_fields
        trim_def)

lemma exampleEmpty_pass1:
  "renderPass exampleConstants exampleColors exampleEmptyInputs exampleSettledState
     = Inr (exampleStaleState\<lparr> heapDeps := Some (Some 3, 2, 400, ''dark'', 800), rerender := True \<rparr>)"
  by (simp add: pass_eval exampleEmpty_invalid exampleEmpty_current exampleEmpty_fields
        buildStack_empty exampleSettledState_def exampleStaleState_def)

lemma exampleEmpty_pass2:
  "renderPass exampleConstants exampleColors exampleEmptyInputs
     (exampleStaleState\<lparr> heapDeps := Some (Some 3, 2, 400, ''dark'', 800), rerender := True \<rparr>)
     = Inr exampleStaleState"
  by (simp add: pass_eval exampleEmpty_invalid exampleEmpty_current exampleEmpty_fields
        buildStack_empty exampleStaleState_def)

text \<open>
  C4 (clear on empty source) fails on the code. After the recomputation for a valid result
  with one stack pointer and one heap block, the inputs of an emptied editor (blank source
  text, empty result, no error) end the recomputation in a state whose stack nodes are
  cleared, but whose heap node \<open>0\<close> and edge \<open>ep-0\<close> are still there: the effect of
  \<^verbatim>\<open>useHeapNodes\<close> returns early on an empty stack before it calls its setters.
\<close>

theorem clear_on_empty_source_stale_heap:
  "trim (sourceCode exampleEmptyInputs) = []
   \<and> \<not> hasValidAnalyzeResponse exampleEmptyInputs
   \<and> recompute 3 exampleConstants exampleColors exampleValidInputs initialState
       = Some (Inr exampleSettledState)
   \<and> recompute 2 exampleConstants exampleColors exampleEmptyInputs exampleSettledState
       = Some (Inr exampleStaleState)
   \<and> stackNodes exampleStaleState = []
   \<and> map nid (heapNodes exampleStaleState) = [''0'']
   \<and> map eid (graphEdges exampleStaleState) = [''ep-0'']
   \<and> length (graphNodes exampleConstants exampleEmptyInputs exampleStaleState) = 2"
proof -
  have a: "trim (sourceCode exampleEmptyInputs) = []"
    by (simp add: exampleEmpty_fields trim_def)
  have nr: "\<not> rerender exampleStaleState" by (simp add: exampleStaleState_def)
  have r: "recompute 2 exampleConstants exampleColors exampleEmptyInputs exampleSettledState
       = Some (Inr exampleStaleState)"
    unfolding numeral_2_eq_2 using nr by (simp add: exampleEmpty_pass1 exampleEmpty_pass2)
  have s: "stackNodes exampleStaleState = []" by (simp add: exampleStaleState_def)
  have h: "map nid (heapNodes exampleStaleState) = [''0'']"
    by (simp add: exampleStaleState_def exampleHeapNode_def)
  have e: "map eid (graphEdges exampleStaleState) = [''ep-0'']"
    by (simp add: graphEdges_def exampleStaleState_def createEdge_def)
  have g: "length (graphNodes exampleConstants exampleEmptyInputs exampleStaleState) = 2"
    by (simp add: graphNodes_def labelNodes_def exampleStaleState_def)
  from a exampleEmpty_invalid exampleSettled r s h e g show ?thesis by simp
qed

lemma useHeapNodes_no_stack:
  "stack r = None \<Longrightarrow> heap r = Some blocks \<Longrightarrow>
     useHeapNodes c gen th (Some r) sn wh hx k = Inl TypeError"
  by (simp add: useHeapNodes_def)

lemma exampleNoStack_fields:
  "analyzeResponse exampleNoStackInputs = Some \<lparr> ref = 4, stack = None, heap = Some [allocatedBlock] \<rparr>"
  "analyzeError exampleNoStackInputs = None"
  by (simp_all add: exampleNoStackInputs_def)

lemma exampleNoStack_valid: "hasValidAnalyzeResponse exampleNoStackInputs"
  by (simp add: hasValidAnalyzeResponse_def nonEmptyField_def exampleNoStack_fields)

lemma exampleNoStack_current:
  "currentAnalyzeResponse exampleNoStackInputs s = Some \<lparr> ref = 4, stack = None, heap = Some [allocatedBlock] \<rparr>"
  using exampleNoStack_valid
  by (simp add: currentAnalyzeResponse_def shouldShowLastValidVisualization_def exampleNoStack_fields)

text \<open>
  C8 (total robustness) fails on the code. An analysis result that has the \<open>heap\<close> field and
  lacks the \<open>stack\<close> field makes the effect of \<^verbatim>\<open>useHeapNodes\<close> throw: its guard reads
  \<^verbatim>\<open>analyzeResponse.stack.length\<close> without a check. The result is valid for the component
  when its heap is not empty, and the recomputation ends with the exception, from the initial
  state and from the state left by a previous valid result alike.
\<close>

theorem missing_stack_field_throws:
  "useHeapNodes c gen th (Some \<lparr> ref = r, stack = None, heap = Some blocks \<rparr>) sn wh hx k
     = Inl TypeError
   \<and> hasValidAnalyzeResponse exampleNoStackInputs
   \<and> recompute 1 exampleConstants exampleColors exampleNoStackInputs initialState
       = Some (Inl TypeError)
   \<and> recompute 3 exampleConstants exampleColors exampleNoStackInputs exampleSettledState
       = Some (Inl TypeError)"
proof -
  have p1: "renderPass exampleConstants exampleColors exampleNoStackInputs initialState = Inl TypeError"
    by (simp add: pass_eval exampleNoStack_valid exampleNoStack_current exampleNoStack_fields
          initialState_def)
  have p2: "renderPass exampleConstants exampleColors exampleNoStackInputs exampleSettledState = Inl TypeError"
    by (simp add: pass_eval exampleNoStack_valid exampleNoStack_current exampleNoStack_fields
          exampleSettledState_def)
  have r1: "recompute 1 exampleConstants exampleColors exampleNoStackInputs initialState
       = Some (Inl TypeError)"
    unfolding One_nat_def by (simp add: p1)
  have r2: "recompute 3 exampleConstants exampleColors exampleNoStackInputs exampleSettledState
       = Some (Inl TypeError)"
    unfolding numeral_3_eq_3 by (simp add: p2)
  from r1 r2 exampleNoStack_valid show ?thesis by (simp add: useHeapNodes_no_stack)
qed


section \<open>The capacity flags\<close>


lemma layerUsage_Nil: "layerUsage [] = 0"
  by (simp add: layerUsage_def)










lemma occupiedSize_snoc:
  "occupiedSize (bs @ [b]) =
     (if block_state b \<noteq> Free \<and> block_state b \<noteq> Unallocated
      then occupiedSize bs + block_size b else occupiedSize bs)"
  by (simp add: occupiedSize_def)





text \<open>The helper \<^verbatim>\<open>calculateMemoryUsage\<close> of \<^verbatim>\<open>utils.ts\<close>, which nothing in the sources at hand
  calls, tells the free and the unallocated nodes by the substrings \<open>free\<close> and \<open>unallocated\<close>
  of their ids. On a heap layer it returns the sum of the sizes of the blocks that are neither free nor
  unallocated, which is the usage of the layer, as long as that sum is at most \<open>2^53\<close>.\<close>

lemma calculateMemoryUsage_snoc:
  "calculateMemoryUsage (ns @ [n]) =
     (if includes_str (nid n) ''free'' \<or> includes_str (nid n) ''unallocated''
      then calculateMemoryUsage ns else jsAdd (calculateMemoryUsage ns) (nsize n))"
  by (simp add: calculateMemoryUsage_def)

lemma helper_usage_heap:
  "occupiedSize blocks \<le> 9007199254740992 \<Longrightarrow>
     calculateMemoryUsage (hs_heapNodes (buildHeap c gen th wh hx blocks sn k))
       = Finite (occupiedSize blocks)"
proof (induction blocks rule: rev_induct)
  case Nil
  then show ?case by (simp add: buildHeap_Nil calculateMemoryUsage_def occupiedSize_def)
next
  case (snoc b bs)
  let ?h = "buildHeap c gen th wh hx bs sn k"
  obtain n where n: "hs_heapNodes (heapStep c gen th wh hx ?h b) = hs_heapNodes ?h @ [n]"
    and fr: "frozenPart n = frozenPart (heapNodeOf c wh hx ?h b)"
    using heapStep_nodes by blast
  from fr have "nid n = nid (heapNodeOf c wh hx ?h b)" by (rule frozen_fields)
  then have idn: "nid n = generateNodeId (length bs) (block_state b = Unallocated) (block_state b = Free)"
    by (simp add: heapNodeOf_fields buildHeap_index)
  from fr have "nsize n = nsize (heapNodeOf c wh hx ?h b)" by (rule frozen_fields)
  then have szn: "nsize n = block_size b" by (simp add: heapNodeOf_fields)
  from snoc.prems have le: "occupiedSize bs \<le> 9007199254740992"
    by (simp add: occupiedSize_snoc split: if_splits)
  then have ih: "calculateMemoryUsage (hs_heapNodes ?h) = Finite (occupiedSize bs)"
    by (rule snoc.IH)
  show ?case
  proof (cases "block_state b \<noteq> Free \<and> block_state b \<noteq> Unallocated")
    case True
    with snoc.prems have "occupiedSize bs + block_size b \<le> 9007199254740992"
      by (simp add: occupiedSize_snoc)
    then have "toDouble (occupiedSize bs + block_size b) = Finite (occupiedSize bs + block_size b)"
      by (rule toDouble_exact)
    with True ih show ?thesis
      by (simp add: buildHeap_snoc n calculateMemoryUsage_snoc occupiedSize_snoc idn szn
            includes_free includes_unallocated jsAdd_Finite)
  next
    case False
    with ih show ?thesis
      by (auto simp: buildHeap_snoc n calculateMemoryUsage_snoc occupiedSize_snoc idn szn
            includes_free includes_unallocated)
  qed
qed

end
